(* ===== verification/Rv_Prelude.thy ===== *)
theory Rv_Prelude
  imports Main "HOL-Library.Word"
begin

text \<open>
  What every component of the emulator shares: the machine integer types, C++ bit-field
  structs (a list of members with their widths, read and written at the offset the
  declaration order gives them), and raw byte access to arrays of machine words, which is
  what the sources do with \<^verbatim>\<open>memcpy\<close> and \<^verbatim>\<open>reinterpret_cast\<close> on a little-endian host.

  The lemmas are collected for the component proofs: \<open>field_defs\<close> computes the offset of a
  named bit-field, \<open>fget_fset_same\<close> and \<open>fget_fset_other\<close> read a field back
  after a write, and the \<open>copy\<close> lemmas say what a byte copy into an array leaves behind.
\<close>

unbundle bit_operations_syntax

named_theorems field_defs \<open>the offset and width of every named bit-field\<close>
named_theorems const_defs \<open>the numeric constants of the sources\<close>

type_synonym u8 = "8 word"
type_synonym u16 = "16 word"
type_synonym u32 = "32 word"
type_synonym u64 = "64 word"

section \<open>Bit-field structs\<close>

text \<open>
  A bit-field struct of the sources is the list of its members in declaration order, each
  with its width; the first member sits at bit 0. A field is its offset and its width.
\<close>

type_synonym layout = "(string \<times> nat) list"
type_synonym bitfield = "nat \<times> nat"

fun field_from :: "nat \<Rightarrow> layout \<Rightarrow> string \<Rightarrow> bitfield" where
  "field_from n [] m = (n, 0)"
| "field_from n ((k, w) # fs) m = (if k = m then (n, w) else field_from (n + w) fs m)"

definition field_of :: "layout \<Rightarrow> string \<Rightarrow> bitfield" where
  "field_of = field_from 0"

definition layout_width :: "layout \<Rightarrow> nat" where
  "layout_width l = sum_list (map snd l)"

text \<open>Reading a member, writing a member (the value is truncated to the member's width).\<close>

definition fget :: "bitfield \<Rightarrow> 'a::len word \<Rightarrow> 'a word" where
  "fget f w = take_bit (snd f) (drop_bit (fst f) w)"

definition fset :: "bitfield \<Rightarrow> 'a::len word \<Rightarrow> 'a word \<Rightarrow> 'a word" where
  "fset f v w =
     (w AND NOT (push_bit (fst f) (mask (snd f)))) OR push_bit (fst f) (take_bit (snd f) v)"

text \<open>A member declared with a signed type is sign-extended when it is read.\<close>

definition fgets :: "bitfield \<Rightarrow> 'a::len word \<Rightarrow> 'a word" where
  "fgets f w = signed_take_bit (snd f - 1) (drop_bit (fst f) w)"

lemma bit_fget:
  "bit (fget (p, n) (w :: 'a::len word)) i \<longleftrightarrow> i < n \<and> p + i < LENGTH('a) \<and> bit w (p + i)"
  by (auto simp: fget_def bit_simps dest: bit_imp_le_length)

lemma bit_fset:
  "bit (fset (p, n) v (w :: 'a::len word)) i \<longleftrightarrow>
     i < LENGTH('a) \<and> (if p \<le> i \<and> i < p + n then bit v (i - p) else bit w i)"
  by (auto simp: fset_def bit_simps dest: bit_imp_le_length)

lemma fget_fset_same [simp]:
  "p + n \<le> LENGTH('a) \<Longrightarrow> fget (p, n) (fset (p, n) v (w :: 'a::len word)) = take_bit n v"
  by (rule bit_eqI) (auto simp: bit_fget bit_fset bit_simps)

lemma fget_fset_other [simp]:
  "p + n \<le> q \<or> q + m \<le> p \<Longrightarrow> fget (p, n) (fset (q, m) v w) = fget (p, n) w"
  by (rule bit_eqI) (auto simp: bit_fget bit_fset dest: bit_imp_le_length)

lemma fset_fget [simp]: "fset (p, n) (fget (p, n) w) w = w"
  by (rule bit_eqI) (auto simp: bit_fget bit_fset dest: bit_imp_le_length)

lemma fget_0 [simp]: "fget f 0 = 0"
  by (simp add: fget_def)

lemma fget_bit_iff: "p < LENGTH('a) \<Longrightarrow> fget (p, 1) (w :: 'a::len word) = of_bool (bit w p)"
  by (rule bit_eqI) (auto simp: bit_fget bit_simps)

lemma fget_bit_neq_0: "fget (p, 1) w \<noteq> 0 \<longleftrightarrow> bit w p"
proof (cases "p < LENGTH('a)")
  case True
  then show ?thesis by (simp only: fget_bit_iff) simp
next
  case False
  then show ?thesis
    by (auto simp: bit_eq_iff bit_fget dest: bit_imp_le_length)
qed

lemma fget_bit_cases: "fget (p, 1) w = 0 \<or> fget (p, 1) w = 1"
proof (cases "p < LENGTH('a)")
  case True
  then show ?thesis by (simp only: fget_bit_iff) simp
next
  case False
  then have "fget (p, 1) w = 0" by (auto simp: bit_eq_iff bit_fget)
  then show ?thesis ..
qed

lemma bit_fgets:
  "n > 0 \<Longrightarrow> p + n \<le> LENGTH('a) \<Longrightarrow>
   bit (fgets (p, n) (w :: 'a::len word)) i \<longleftrightarrow> i < LENGTH('a) \<and> bit w (p + min i (n - 1))"
  by (auto simp: fgets_def bit_simps min_def dest: bit_imp_le_length)

lemma fgets_fset_same [simp]:
  "n > 0 \<Longrightarrow> p + n \<le> LENGTH('a) \<Longrightarrow>
   fgets (p, n) (fset (p, n) v (w :: 'a::len word)) = signed_take_bit (n - 1) v"
  by (rule bit_eqI) (auto simp: bit_fgets bit_fset bit_simps min_def)

lemma fgets_fset_other [simp]:
  "n > 0 \<Longrightarrow> p + n \<le> LENGTH('a) \<Longrightarrow> p + n \<le> q \<or> q + m \<le> p \<Longrightarrow>
   fgets (p, n) (fset (q, m) v (w :: 'a::len word)) = fgets (p, n) w"
  by (rule bit_eqI) (auto simp: bit_fgets bit_fset min_def)

lemma take_bit_fget [simp]: "n \<le> m \<Longrightarrow> take_bit m (fget (p, n) w) = fget (p, n) w"
  by (simp add: fget_def min_absorb2)

text \<open>\<^verbatim>\<open>dst->f = src->f\<close> for each of the named members.\<close>

fun copy_fields :: "layout \<Rightarrow> layout \<Rightarrow> string list \<Rightarrow> 'a::len word \<Rightarrow> 'a word \<Rightarrow> 'a word" where
  "copy_fields src_t dst_t [] src dst = dst"
| "copy_fields src_t dst_t (f # fs) src dst =
     copy_fields src_t dst_t fs src (fset (field_of dst_t f) (fget (field_of src_t f) src) dst)"

text \<open>Members that sit at the same place in both structs are copied under a mask.\<close>

definition merge :: "'a::len word \<Rightarrow> 'a word \<Rightarrow> 'a word \<Rightarrow> 'a word" where
  "merge m v w = (w AND NOT m) OR (v AND m)"

lemma bit_merge: "bit (merge m v w) i \<longleftrightarrow> (if bit m i then bit v i else bit w i)"
  by (auto simp: merge_def bit_simps dest: bit_imp_le_length)

lemma fset_fget_merge: "fset (p, n) (fget (p, n) v) w = merge (push_bit p (mask n)) v w"
  by (rule bit_eqI) (auto simp: bit_fset bit_fget bit_merge bit_simps)

lemma merge_merge [simp]: "merge m2 v (merge m1 v w) = merge (m1 OR m2) v w"
  by (rule bit_eqI) (auto simp: bit_merge bit_simps)

lemma merge_outside: "merge m v w AND NOT m = w AND NOT m"
  by (rule bit_eqI) (auto simp: bit_merge bit_simps)

lemma merge_inside: "merge m v w AND m = v AND m"
  by (rule bit_eqI) (auto simp: bit_merge bit_simps)

lemma fset_outside:
  "m AND push_bit p (mask n) = 0 \<Longrightarrow> fset (p, n) v w AND m = w AND m"
  by (rule bit_eqI) (auto simp: bit_fset bit_simps bit_eq_iff)

section \<open>Bytes of machine words\<close>

definition get_byte :: "'a::len word \<Rightarrow> nat \<Rightarrow> u8" where
  "get_byte w k = ucast (drop_bit (8 * k) w)"

definition set_byte :: "'a::len word \<Rightarrow> nat \<Rightarrow> u8 \<Rightarrow> 'a word" where
  "set_byte w k b = fset (8 * k, 8) (ucast b) w"

text \<open>The first \<open>n\<close> bytes in memory of a value, and the value with given bytes in memory.\<close>

definition le_bytes :: "nat \<Rightarrow> 'a::len word \<Rightarrow> u8 list" where
  "le_bytes n w = map (get_byte w) [0..<n]"

fun le_word :: "u8 list \<Rightarrow> 'a::len word" where
  "le_word [] = 0"
| "le_word (b # bs) = ucast b OR push_bit 8 (le_word bs)"

lemma bit_get_byte: "bit (get_byte w k) i \<longleftrightarrow> i < 8 \<and> bit w (8 * k + i)"
  by (auto simp: get_byte_def bit_simps dest: bit_imp_le_length)

lemma bit_set_byte:
  "bit (set_byte (w :: 'a::len word) k b) i \<longleftrightarrow>
     i < LENGTH('a) \<and> (if 8 * k \<le> i \<and> i < 8 * k + 8 then bit b (i - 8 * k) else bit w i)"
  by (auto simp: set_byte_def bit_fset bit_simps)

lemma get_set_byte_same:
  "8 * k + 8 \<le> LENGTH('a) \<Longrightarrow> get_byte (set_byte (w :: 'a::len word) k b) k = b"
  by (rule bit_eqI) (auto simp: bit_get_byte bit_set_byte)

lemma get_set_byte_other: "k \<noteq> j \<Longrightarrow> get_byte (set_byte w k b) j = get_byte w j"
  by (rule bit_eqI) (auto simp: bit_get_byte bit_set_byte dest: bit_imp_le_length)

lemma length_le_bytes [simp]: "length (le_bytes n w) = n"
  by (simp add: le_bytes_def)

lemma nth_le_bytes [simp]: "i < n \<Longrightarrow> le_bytes n w ! i = get_byte w i"
  by (simp add: le_bytes_def)

lemma take_le_bytes: "m \<le> n \<Longrightarrow> take m (le_bytes n w) = le_bytes m w"
  by (rule nth_equalityI) auto

lemma bit_le_word:
  "bit (le_word bs :: 'a::len word) i \<longleftrightarrow>
     i < LENGTH('a) \<and> i div 8 < length bs \<and> bit (bs ! (i div 8)) (i mod 8)"
proof (induction bs arbitrary: i)
  case Nil
  then show ?case by simp
next
  case (Cons b bs)
  show ?case
  proof (cases "i < 8")
    case True
    then show ?thesis by (auto simp: bit_simps)
  next
    case False
    then have "i div 8 = Suc ((i - 8) div 8)" and "i mod 8 = (i - 8) mod 8"
      by (simp_all add: le_div_geq le_mod_geq not_less)
    with False Cons.IH [of "i - 8"] show ?thesis
      by (auto simp: bit_simps dest: bit_imp_le_length)
  qed
qed

lemma le_word_le_bytes:
  "le_word (le_bytes n (w :: 'a::len word)) = (take_bit (8 * n) w :: 'a word)"
  by (rule bit_eqI) (auto simp: bit_le_word bit_simps bit_get_byte)

lemma le_bytes_le_word:
  "8 * length bs \<le> LENGTH('a) \<Longrightarrow> le_bytes (length bs) (le_word bs :: 'a::len word) = bs"
  by (rule nth_equalityI) (auto intro!: bit_eqI simp: bit_get_byte bit_le_word dest: bit_imp_le_length)

lemma le_word_ucast_le_bytes:
  "8 * n \<le> LENGTH('a) \<Longrightarrow> LENGTH('a) \<le> LENGTH('b) \<Longrightarrow>
   le_word (le_bytes n (w :: 'a::len word)) = (ucast (take_bit (8 * n) w) :: 'b::len word)"
  by (rule bit_eqI) (auto simp: bit_le_word bit_simps bit_get_byte)

section \<open>Byte access to arrays\<close>

text \<open>
  The outcome of an operation of a device or of an array: it is done, it is refused
  (\<^verbatim>\<open>return false\<close>), or it touches memory outside the object it addresses. The last is
  undefined behaviour of the C++ program and gets a value of its own, so that its absence
  can be stated and proved.
\<close>

datatype 'a io = Done 'a | Fail | Stray

lemma map_io_eq_Done: "map_io f x = Done y \<longleftrightarrow> (\<exists>a. x = Done a \<and> y = f a)"
  by (cases x) auto

lemma map_io_eq_Stray [simp]: "map_io f x = Stray \<longleftrightarrow> x = Stray"
  by (cases x) auto

lemma map_io_eq_Fail [simp]: "map_io f x = Fail \<longleftrightarrow> x = Fail"
  by (cases x) auto

definition bytes_per :: "'a::len word list \<Rightarrow> nat" where
  "bytes_per ws = LENGTH('a) div 8"

definition peek :: "'a::len word list \<Rightarrow> nat \<Rightarrow> u8" where
  "peek ws k = get_byte (ws ! (k div bytes_per ws)) (k mod bytes_per ws)"

definition poke :: "'a::len word list \<Rightarrow> nat \<Rightarrow> u8 \<Rightarrow> 'a word list" where
  "poke ws k b =
     ws[k div bytes_per ws := set_byte (ws ! (k div bytes_per ws)) (k mod bytes_per ws) b]"

fun poke_list :: "'a::len word list \<Rightarrow> nat \<Rightarrow> u8 list \<Rightarrow> 'a word list" where
  "poke_list ws k [] = ws"
| "poke_list ws k (b # bs) = poke_list (poke ws k b) (Suc k) bs"

text \<open>
  \<^verbatim>\<open>memcpy(buffer, (uint8_t*)ws + k, n)\<close> and \<^verbatim>\<open>memcpy((uint8_t*)ws + k, buffer, n)\<close>.
\<close>

definition copy_out :: "'a::len word list \<Rightarrow> nat \<Rightarrow> nat \<Rightarrow> u8 list io" where
  "copy_out ws k n =
     (if k + n \<le> length ws * bytes_per ws then Done (map (peek ws) [k..<k + n]) else Stray)"

definition copy_in :: "'a::len word list \<Rightarrow> nat \<Rightarrow> u8 list \<Rightarrow> nat \<Rightarrow> 'a word list io" where
  "copy_in ws k buffer n =
     (if k + n \<le> length ws * bytes_per ws \<and> n \<le> length buffer
      then Done (poke_list ws k (take n buffer)) else Stray)"

lemma bytes_per_update [simp]:
  "bytes_per (ws[i := w]) = bytes_per ws" "bytes_per (poke ws k b) = bytes_per ws"
  "bytes_per (poke_list ws k bs) = bytes_per ws"
  by (simp_all add: bytes_per_def)

lemma bytes_per_8 [simp]: "bytes_per (ws :: u8 list) = 1"
  and bytes_per_32 [simp]: "bytes_per (us :: u32 list) = 4"
  and bytes_per_64 [simp]: "bytes_per (vs :: u64 list) = 8"
  by (simp_all add: bytes_per_def)

lemma length_poke [simp]: "length (poke ws k b) = length ws"
  by (simp add: poke_def)

lemma length_poke_list [simp]: "length (poke_list ws k bs) = length ws"
  by (induction ws k bs rule: poke_list.induct) auto

lemma mod_fits:
  assumes "(n :: nat) > 0" and "n = m div 8"
  shows "8 * (k mod n) + 8 \<le> m"
proof -
  have "k mod n + 1 \<le> n" using assms(1) by (simp add: Suc_leI)
  then have "8 * (k mod n) + 8 \<le> 8 * n" by simp
  also have "\<dots> \<le> m" using assms(2) by simp
  finally show ?thesis .
qed

lemma peek_poke_same:
  assumes "k < length ws * bytes_per ws"
  shows "peek (poke ws k b) k = b"
proof -
  from assms have p: "bytes_per ws > 0" by (cases "bytes_per ws") auto
  with assms have "k div bytes_per ws < length ws" by (simp add: less_mult_imp_div_less)
  with mod_fits [OF p, of _ k] show ?thesis
    by (simp add: peek_def poke_def get_set_byte_same bytes_per_def)
qed

lemma peek_poke_other:
  assumes "k \<noteq> j" and "j < length ws * bytes_per ws"
  shows "peek (poke ws k b) j = peek ws j"
proof (cases "k div bytes_per ws = j div bytes_per ws")
  case True
  with assms(1) have "k mod bytes_per ws \<noteq> j mod bytes_per ws"
    by (metis div_mult_mod_eq)
  moreover from assms(2) have "j div bytes_per ws < length ws"
    by (simp add: less_mult_imp_div_less)
  ultimately show ?thesis using True
    by (simp add: peek_def poke_def get_set_byte_other)
next
  case False
  then show ?thesis by (simp add: peek_def poke_def)
qed

lemma peek_poke_list:
  assumes "j < length ws * bytes_per ws"
  shows "peek (poke_list ws k bs) j =
           (if k \<le> j \<and> j < k + length bs then bs ! (j - k) else peek ws j)"
  using assms
proof (induction bs arbitrary: ws k)
  case Nil
  then show ?case by auto
next
  case (Cons b bs)
  from Cons.prems have "peek (poke_list (poke ws k b) (Suc k) bs) j =
      (if Suc k \<le> j \<and> j < Suc k + length bs then bs ! (j - Suc k) else peek (poke ws k b) j)"
    by (intro Cons.IH) simp
  moreover have "peek (poke ws k b) j = (if j = k then b else peek ws j)"
    using Cons.prems by (simp add: peek_poke_same peek_poke_other)
  ultimately show ?case by (auto simp: nth_Cons' le_less)
qed

lemma copy_out_length: "copy_out ws k n = Done bs \<Longrightarrow> length bs = n"
  by (auto simp: copy_out_def split: if_splits)

lemma copy_in_length: "copy_in ws k buf n = Done ws' \<Longrightarrow> length ws' = length ws"
  by (auto simp: copy_in_def split: if_splits)

lemma copy_not_Fail [simp]: "copy_out ws k n \<noteq> Fail" "copy_in ws k buf n \<noteq> Fail"
  by (simp_all add: copy_out_def copy_in_def)

text \<open>What was copied in is read back, and every byte outside the range is untouched.\<close>

lemma copy_out_copy_in_same:
  assumes "copy_in ws k buf n = Done ws'"
  shows "copy_out ws' k n = Done (take n buf)"
  using assms
  by (auto simp: copy_in_def copy_out_def peek_poke_list split: if_splits
      intro!: nth_equalityI)

lemma copy_out_copy_in_other:
  assumes "copy_in ws k buf n = Done ws'" and "j + m \<le> k \<or> k + n \<le> j"
  shows "copy_out ws' j m = copy_out ws j m"
  using assms
  by (auto simp: copy_in_def copy_out_def peek_poke_list split: if_splits)

text \<open>A whole, aligned element: the byte copies read and write it as one word.\<close>

lemma word_eq_bytesI:
  fixes v w :: "'a::len word"
  assumes "\<And>k. 8 * k < LENGTH('a) \<Longrightarrow> get_byte v k = get_byte w k"
  shows "v = w"
proof (rule bit_eqI)
  fix i assume "possible_bit TYPE('a word) i"
  then have i: "8 * (i div 8) < LENGTH('a)" by simp
  from assms [OF i] have "bit (get_byte v (i div 8)) (i mod 8) = bit (get_byte w (i div 8)) (i mod 8)"
    by simp
  then show "bit v i = bit w i" by (simp add: bit_get_byte)
qed

lemma peek_nth:
  assumes "i < length ws" and "k < bytes_per ws"
  shows "peek ws (i * bytes_per ws + k) = get_byte (ws ! i) k"
  using assms by (simp add: peek_def)

lemma words_eq_peekI:
  fixes xs ys :: "'a::len word list"
  assumes len: "length xs = length ys" and W: "8 * bytes_per xs = LENGTH('a)"
    and eq: "\<And>j. j < length xs * bytes_per xs \<Longrightarrow> peek xs j = peek ys j"
  shows "xs = ys"
proof (rule nth_equalityI [OF len])
  fix i assume i: "i < length xs"
  show "xs ! i = ys ! i"
  proof (rule word_eq_bytesI)
    fix k assume "8 * k < LENGTH('a)"
    then have k: "k < bytes_per xs" using W by simp
    have W': "bytes_per ys = bytes_per xs" by (simp add: bytes_per_def)
    have "i * bytes_per xs + k < Suc i * bytes_per xs" using k by simp
    also have "\<dots> \<le> length xs * bytes_per xs" using i by (intro mult_le_mono1) simp
    finally have "peek xs (i * bytes_per xs + k) = peek ys (i * bytes_per xs + k)" by (rule eq)
    then show "get_byte (xs ! i) k = get_byte (ys ! i) k"
      using peek_nth [of i xs k] peek_nth [of i ys k] i k len W' by simp
  qed
qed

lemma block_iff:
  assumes "(n :: nat) > 0"
  shows "i * n \<le> j \<and> j < i * n + n \<longleftrightarrow> j div n = i"
proof
  assume "i * n \<le> j \<and> j < i * n + n"
  then show "j div n = i" by (intro div_nat_eqI) (simp_all add: mult.commute)
next
  assume "j div n = i"
  then show "i * n \<le> j \<and> j < i * n + n"
    using assms dividend_less_div_times [of n j] div_times_less_eq_dividend [of j n] by auto
qed

lemma poke_list_word:
  fixes ws :: "'a::len word list"
  assumes W: "8 * bytes_per ws = LENGTH('a)" and i: "i < length ws"
  shows "poke_list ws (i * bytes_per ws) (le_bytes (bytes_per ws) v) = ws[i := v]"
proof (rule words_eq_peekI)
  fix j assume "j < length (poke_list ws (i * bytes_per ws) (le_bytes (bytes_per ws) v)) *
    bytes_per (poke_list ws (i * bytes_per ws) (le_bytes (bytes_per ws) v))"
  then have j: "j < length ws * bytes_per ws" by simp
  then have pos: "bytes_per ws > 0" by (cases "bytes_per ws") auto
  have range: "i * bytes_per ws \<le> j \<and> j < i * bytes_per ws + bytes_per ws \<longleftrightarrow> j div bytes_per ws = i"
    using pos by (rule block_iff)
  show "peek (poke_list ws (i * bytes_per ws) (le_bytes (bytes_per ws) v)) j = peek (ws[i := v]) j"
  proof (cases "j div bytes_per ws = i")
    case True
    then have "j - i * bytes_per ws = j mod bytes_per ws"
      by (metis minus_div_mult_eq_mod)
    with True range j i pos show ?thesis by (simp add: peek_poke_list) (simp add: peek_def)
  next
    case False
    with range j show ?thesis by (auto simp: peek_poke_list) (simp_all add: peek_def)
  qed
qed (simp_all add: W)

lemma copy_in_word:
  fixes ws :: "'a::len word list"
  assumes "8 * bytes_per ws = LENGTH('a)" and "i < length ws"
  shows "copy_in ws (i * bytes_per ws) (le_bytes (bytes_per ws) v) (bytes_per ws) = Done (ws[i := v])"
proof -
  have "i * bytes_per ws + bytes_per ws = Suc i * bytes_per ws" by simp
  also have "\<dots> \<le> length ws * bytes_per ws" using assms(2) by (intro mult_le_mono1) simp
  finally show ?thesis using poke_list_word [OF assms] by (simp add: copy_in_def)
qed

lemma copy_out_word:
  assumes "i < length ws"
  shows "copy_out ws (i * bytes_per ws) (bytes_per ws) = Done (le_bytes (bytes_per ws) (ws ! i))"
proof -
  have "i * bytes_per ws + bytes_per ws = Suc i * bytes_per ws" by simp
  also have "\<dots> \<le> length ws * bytes_per ws" using assms by (intro mult_le_mono1) simp
  finally show ?thesis
    using assms by (auto simp: copy_out_def peek_nth intro!: nth_equalityI)
qed

lemmas copy_in_u32 = copy_in_word [where 'a = 32, simplified]
lemmas copy_in_u64 = copy_in_word [where 'a = 64, simplified]
lemmas copy_out_u32 = copy_out_word [where 'a = 32, simplified]
lemmas copy_out_u64 = copy_out_word [where 'a = 64, simplified]

lemma list_all_update: "list_all P xs \<Longrightarrow> P x \<Longrightarrow> list_all P (xs[i := x])"
  using set_update_subset_insert [of xs i x] by (auto simp: list_all_iff)

section \<open>Unsigned comparisons without wrap-around\<close>

lemma unat_less_2p64 [simp]: "unat (w :: u64) < 18446744073709551616"
  using unsigned_less [of w] by simp

lemma unat_less_2p32 [simp]: "unat (w :: u32) < 4294967296"
  using unsigned_less [of w] by simp

lemma unat_ucast_32_64 [simp]: "unat (ucast (w :: u32) :: u64) = unat w"
proof -
  have "unat w < 18446744073709551616" using unat_less_2p32 [of w] by linarith
  then show ?thesis by (simp add: unsigned_ucast_eq take_bit_eq_mod)
qed

lemma unat_drop_bit_div: "unat (drop_bit n (w :: 'a::len word)) = unat w div 2 ^ n"
  unfolding unat_drop_bit_eq by (simp add: drop_bit_eq_div)

lemma unat_take_bit_mod: "unat (take_bit n (w :: 'a::len word)) = unat w mod 2 ^ n"
  unfolding unsigned_take_bit_eq by (simp add: take_bit_eq_mod)

lemma unat_add_no_wrap:
  "unat (a :: u64) + unat b < 18446744073709551616 \<Longrightarrow> unat (a + b) = unat a + unat b"
  by (simp add: unat_word_ariths)

end
