(* ===== verification/Mmio.thy ===== *)
theory Mmio
  imports Rv_Prelude
begin

text \<open>
  The interface of a memory-mapped device (\<^verbatim>\<open>include/device/mmio.hpp\<close>, class
  \<^verbatim>\<open>MmioDevice\<close>): \<open>Load\<close>, \<open>Store\<close> and \<open>Reset\<close>. The locale states what the bus and the MMU
  rely on: the operations keep the device's invariant, a load delivers as many bytes as
  were asked for, and an access of the width the device supports inside the address range
  it is mapped to never leaves the device's own storage. Every device of the emulator is an
  interpretation of it.

  \<open>mmio_ram\<close> adds the laws of a device that behaves as memory.
\<close>

locale mmio_device =
  fixes load :: "'d \<Rightarrow> u64 \<Rightarrow> u64 \<Rightarrow> (u8 list \<times> 'd) io"
    and store :: "'d \<Rightarrow> u64 \<Rightarrow> u64 \<Rightarrow> u8 list \<Rightarrow> 'd io"
    and reset :: "u64 \<Rightarrow> 'd \<Rightarrow> 'd"
    and wf :: "'d \<Rightarrow> bool"
    and width :: "'d \<Rightarrow> nat" \<comment> \<open>the widest access that is memory safe\<close>
    and need :: "'d \<Rightarrow> nat" \<comment> \<open>bytes a store may read from the buffer whatever its width\<close>
  assumes load_wf: "wf d \<Longrightarrow> load d a n = Done (bs, d') \<Longrightarrow> wf d'"
    and load_length: "wf d \<Longrightarrow> load d a n = Done (bs, d') \<Longrightarrow> length bs = unat n"
    and load_kind: "wf d \<Longrightarrow> load d a n = Done (bs, d') \<Longrightarrow> width d' = width d \<and> need d' = need d"
    and store_wf: "wf d \<Longrightarrow> store d a n buf = Done d' \<Longrightarrow> wf d'"
    and store_kind: "wf d \<Longrightarrow> store d a n buf = Done d' \<Longrightarrow> width d' = width d \<and> need d' = need d"
    and reset_wf: "wf d \<Longrightarrow> wf (reset t d)"
    and load_safe: "wf d \<Longrightarrow> unat a < 2 ^ 32 \<Longrightarrow> unat n \<le> width d \<Longrightarrow> load d a n \<noteq> Stray"
    and store_safe: "wf d \<Longrightarrow> unat a < 2 ^ 32 \<Longrightarrow> unat n \<le> width d \<Longrightarrow> unat n \<le> length buf \<Longrightarrow>
      need d \<le> length buf \<Longrightarrow> store d a n buf \<noteq> Stray"

datatype mmio_access = Read u64 u64 | Write u64 u64 "u8 list"

context mmio_device
begin

text \<open>A run of accesses; a refused access leaves the device as it is.\<close>

fun accesses :: "mmio_access list \<Rightarrow> 'd \<Rightarrow> 'd io" where
  "accesses [] d = Done d"
| "accesses (Read a n # xs) d =
     (case load d a n of Done (_, d') \<Rightarrow> accesses xs d' | Fail \<Rightarrow> accesses xs d | Stray \<Rightarrow> Stray)"
| "accesses (Write a n buf # xs) d =
     (case store d a n buf of Done d' \<Rightarrow> accesses xs d' | Fail \<Rightarrow> accesses xs d | Stray \<Rightarrow> Stray)"

fun permitted :: "'d \<Rightarrow> mmio_access \<Rightarrow> bool" where
  "permitted d (Read a n) = (unat a < 2 ^ 32 \<and> unat n \<le> width d)"
| "permitted d (Write a n buf) =
     (unat a < 2 ^ 32 \<and> unat n \<le> width d \<and> unat n \<le> length buf \<and> need d \<le> length buf)"

lemma permitted_cong: "width d' = width d \<Longrightarrow> need d' = need d \<Longrightarrow> permitted d' x = permitted d x"
  by (cases x) auto

text \<open>Any sequence of permitted accesses stays inside the device and keeps its invariant.\<close>

lemma accesses_safe:
  "wf d \<Longrightarrow> list_all (permitted d) xs \<Longrightarrow> \<exists>d'. accesses xs d = Done d' \<and> wf d'"
proof (induction xs arbitrary: d)
  case Nil
  then show ?case by simp
next
  case (Cons x xs)
  have next_ok: "\<exists>d''. accesses xs d' = Done d'' \<and> wf d''"
    if "wf d'" "width d' = width d" "need d' = need d" for d'
    using that Cons.prems(2) by (intro Cons.IH) (simp_all add: permitted_cong [of d' d] fun_eq_iff)
  show ?case
  proof (cases x)
    case (Read a n)
    with Cons.prems have "load d a n \<noteq> Stray" using load_safe [of d a n] by simp
    then consider bs d' where "load d a n = Done (bs, d')" | "load d a n = Fail"
      by (cases "load d a n") auto
    then show ?thesis
    proof cases
      case 1
      then have "wf d'" and "width d' = width d \<and> need d' = need d"
        using load_wf [OF Cons.prems(1)] load_kind [OF Cons.prems(1)] by simp_all
      with 1 Read show ?thesis by (simp add: next_ok)
    next
      case 2
      with Read show ?thesis by (simp add: next_ok Cons.prems(1))
    qed
  next
    case (Write a n buf)
    with Cons.prems have "store d a n buf \<noteq> Stray" using store_safe [of d a n buf] by simp
    then consider d' where "store d a n buf = Done d'" | "store d a n buf = Fail"
      by (cases "store d a n buf") auto
    then show ?thesis
    proof cases
      case 1
      then have "wf d'" and "width d' = width d \<and> need d' = need d"
        using store_wf [OF Cons.prems(1)] store_kind [OF Cons.prems(1)] by simp_all
      with 1 Write show ?thesis by (simp add: next_ok)
    next
      case 2
      with Write show ?thesis by (simp add: next_ok Cons.prems(1))
    qed
  qed
qed

end

locale mmio_ram = mmio_device +
  assumes store_load_same: "wf d \<Longrightarrow> store d a n buf = Done d' \<Longrightarrow>
      load d' a n = Done (take (unat n) buf, d')"
    and store_load_other: "wf d \<Longrightarrow> store d a n buf = Done d' \<Longrightarrow> load d b m = Done (bs, d) \<Longrightarrow>
      unat b + unat m \<le> unat a \<or> unat a + unat n \<le> unat b \<Longrightarrow> load d' b m = Done (bs, d')"
    and load_pure: "wf d \<Longrightarrow> load d a n = Done (bs, d') \<Longrightarrow> d' = d"

begin

text \<open>Two stores that do not overlap are both readable afterwards.\<close>

lemma two_stores:
  assumes "wf d" and "store d a n x = Done d1" and "store d1 b m y = Done d2"
    and "unat b + unat m \<le> unat a \<or> unat a + unat n \<le> unat b"
  shows "load d2 a n = Done (take (unat n) x, d2) \<and> load d2 b m = Done (take (unat m) y, d2)"
proof -
  from assms(1,2) have "wf d1" by (rule store_wf)
  moreover from assms(1,2) have "load d1 a n = Done (take (unat n) x, d1)"
    by (rule store_load_same)
  ultimately show ?thesis
    using assms(3,4) store_load_same store_load_other by blast
qed

end

end
