(* ===== verification/Dram.thy ===== *)
theory Dram
  imports Mmio
begin

text \<open>
  The main memory (\<^verbatim>\<open>src/device/dram.cc\<close>): a byte vector and its size. The bound check of
  \<open>Load\<close> and \<open>Store\<close> is computed in 64 bits, so it wraps for addresses close to the top of
  the address space; the access itself is checked against the vector and is \<open>Stray\<close> where
  the C++ reads or writes past it.
\<close>

record dram =
  dram_size :: u64
  dram_memory :: "u8 list"

definition DRAM :: "u64 \<Rightarrow> dram" where
  "DRAM mem_size = \<lparr>dram_size = mem_size, dram_memory = replicate (unat mem_size) 0\<rparr>"

text \<open>
  The constructor that loads an image. \<^verbatim>\<open>std::ifstream::read\<close> with a count delivers as many
  bytes as the file still has, up to the count.
\<close>

definition DRAM_file :: "u64 \<Rightarrow> u8 list \<Rightarrow> dram io" where
  "DRAM_file mem_size in_file =
     (let d = DRAM mem_size;
          count = max (length in_file) (unat mem_size)
      in case copy_in (dram_memory d) 0 in_file (min count (length in_file)) of
           Done m \<Rightarrow> Done (d\<lparr>dram_memory := m\<rparr>)
         | Fail \<Rightarrow> Fail
         | Stray \<Rightarrow> Stray)"

definition Dram_GetSize :: "dram \<Rightarrow> u64" where
  "Dram_GetSize d = dram_size d"

definition Dram_Load :: "dram \<Rightarrow> u64 \<Rightarrow> u64 \<Rightarrow> (u8 list \<times> dram) io" where
  "Dram_Load d addr bytes =
     (if addr + bytes \<le> dram_size d
      then case copy_out (dram_memory d) (unat addr) (unat bytes) of
             Done bs \<Rightarrow> Done (bs, d) | Fail \<Rightarrow> Fail | Stray \<Rightarrow> Stray
      else Fail)"

definition Dram_Store :: "dram \<Rightarrow> u64 \<Rightarrow> u64 \<Rightarrow> u8 list \<Rightarrow> dram io" where
  "Dram_Store d addr bytes buffer =
     (if addr + bytes \<le> dram_size d
      then case copy_in (dram_memory d) (unat addr) buffer (unat bytes) of
             Done m \<Rightarrow> Done (d\<lparr>dram_memory := m\<rparr>) | Fail \<Rightarrow> Fail | Stray \<Rightarrow> Stray
      else Fail)"

definition Dram_Reset :: "dram \<Rightarrow> dram" where
  "Dram_Reset d = d\<lparr>dram_memory := replicate (length (dram_memory d)) 0\<rparr>"

definition dram_wf :: "dram \<Rightarrow> bool" where
  "dram_wf d \<longleftrightarrow> length (dram_memory d) = unat (dram_size d)"

lemma dram_wf_DRAM [simp]: "dram_wf (DRAM n)"
  by (simp add: dram_wf_def DRAM_def)

lemma Dram_Store_DoneE:
  assumes "Dram_Store d a n buf = Done d'"
  obtains m where "copy_in (dram_memory d) (unat a) buf (unat n) = Done m"
    and "d' = d\<lparr>dram_memory := m\<rparr>" and "a + n \<le> dram_size d"
  using assms by (auto simp: Dram_Store_def split: if_splits io.splits)

lemma Dram_Load_DoneE:
  assumes "Dram_Load d a n = Done (bs, d')"
  obtains "copy_out (dram_memory d) (unat a) (unat n) = Done bs"
    and "d' = d" and "a + n \<le> dram_size d"
  using assms by (auto simp: Dram_Load_def split: if_splits io.splits)

lemma dram_wf_Store: "dram_wf d \<Longrightarrow> Dram_Store d a n buf = Done d' \<Longrightarrow> dram_wf d'"
  by (auto simp: dram_wf_def copy_in_length elim!: Dram_Store_DoneE)

lemma dram_in_bounds:
  assumes "dram_wf d" and "unat a < 2 ^ 32" and "unat n \<le> 8" and "a + n \<le> dram_size d"
  shows "unat a + unat n \<le> length (dram_memory d)"
proof -
  from assms(2,3) have "unat (a + n) = unat a + unat n" by (intro unat_add_no_wrap) simp
  with assms(1,4) show ?thesis by (simp add: dram_wf_def word_le_nat_alt)
qed

interpretation dram: mmio_ram Dram_Load Dram_Store "\<lambda>_. Dram_Reset" dram_wf "\<lambda>_. 8" "\<lambda>_. 0"
proof (unfold_locales, goal_cases)
  case (1 d a n bs d')
  then show ?case by (auto elim!: Dram_Load_DoneE)
next
  case (2 d a n bs d')
  then show ?case by (auto elim!: Dram_Load_DoneE dest: copy_out_length)
next
  case (4 d a n buf d')
  then show ?case by (rule dram_wf_Store)
next
  case (6 d t)
  then show ?case by (simp add: dram_wf_def Dram_Reset_def)
next
  case (7 d a n)
  then show ?case using dram_in_bounds [of d a n]
    by (auto simp: Dram_Load_def copy_out_def split: io.splits if_splits)
next
  case (8 d a n buf)
  then show ?case using dram_in_bounds [of d a n]
    by (auto simp: Dram_Store_def copy_in_def split: io.splits if_splits)
next
  case (9 d a n buf d')
  then show ?case
    by (auto simp: Dram_Load_def copy_out_copy_in_same elim!: Dram_Store_DoneE)
next
  case (10 d a n buf d' b m bs)
  obtain ws where ws: "copy_in (dram_memory d) (unat a) buf (unat n) = Done ws"
    and d': "d' = d\<lparr>dram_memory := ws\<rparr>"
    using 10(2) by (rule Dram_Store_DoneE)
  have "copy_out (dram_memory d) (unat b) (unat m) = Done bs" and "b + m \<le> dram_size d"
    using 10(3) by (auto elim: Dram_Load_DoneE)
  with copy_out_copy_in_other [OF ws 10(4)] show ?case
    by (simp add: Dram_Load_def d')
next
  case (11 d a n bs d')
  then show ?case by (auto elim!: Dram_Load_DoneE)
qed auto

text \<open>Which accesses the memory refuses, when the bound does not wrap.\<close>

lemma Dram_Load_Fail_iff:
  "Dram_Load d a n = Fail \<longleftrightarrow> dram_size d < a + n"
  by (auto simp: Dram_Load_def not_le split: io.splits)

text \<open>The image is loaded exactly when it fits.\<close>

lemma DRAM_file_fits:
  assumes "length img \<le> unat n"
  shows "\<exists>d. DRAM_file n img = Done d \<and> dram_wf d \<and>
             (\<forall>i < length img. dram_memory d ! i = img ! i) \<and>
             (\<forall>i. length img \<le> i \<and> i < unat n \<longrightarrow> dram_memory d ! i = 0)"
proof -
  define ws where "ws = replicate (unat n) (0 :: u8)"
  define m where "m = poke_list ws 0 img"
  have eq: "DRAM_file n img = Done (DRAM n \<lparr>dram_memory := m\<rparr>)"
    using assms by (simp add: DRAM_file_def DRAM_def copy_in_def ws_def m_def)
  have byte: "m ! i = (if i < length img then img ! i else 0)" if "i < unat n" for i
  proof -
    have "m ! i = peek m i" by (simp add: peek_def get_byte_def)
    also have "\<dots> = (if i < length img then img ! i else peek ws i)"
      using that by (simp add: m_def peek_poke_list ws_def)
    finally show ?thesis using that by (simp add: ws_def peek_def get_byte_def)
  qed
  show ?thesis
    using assms by (simp add: eq dram_wf_def DRAM_def byte) (simp add: m_def ws_def)
qed

lemma DRAM_file_overflows: "unat n < length img \<Longrightarrow> DRAM_file n img = Stray"
  by (simp add: DRAM_file_def DRAM_def copy_in_def)

lemma DRAM_file_image:
  assumes "length img \<le> unat n"
  shows "DRAM_file n img = Done \<lparr>dram_size = n, dram_memory = img @ replicate (unat n - length img) 0\<rparr>"
proof -
  from DRAM_file_fits [OF assms] obtain d where d: "DRAM_file n img = Done d" "dram_wf d"
    "\<forall>i < length img. dram_memory d ! i = img ! i"
    "\<forall>i. length img \<le> i \<and> i < unat n \<longrightarrow> dram_memory d ! i = 0" by blast
  from d(1) have size: "dram_size d = n"
    by (auto simp: DRAM_file_def DRAM_def Let_def split: io.splits)
  with d(2) assms have "dram_memory d = img @ replicate (unat n - length img) 0"
    using d(3,4) by (auto simp: dram_wf_def nth_append intro!: nth_equalityI)
  with d(1) size assms show ?thesis by simp
qed

section \<open>Properties\<close>

text \<open>An image that fits is copied to the start of memory and the rest is zero; an image
  larger than the memory overflows it (the constructor takes the larger of the two sizes).\<close>

theorem dram_image:
  "DRAM_file n img =
     (if length img \<le> unat n
      then Done \<lparr>dram_size = n, dram_memory = img @ replicate (unat n - length img) 0\<rparr>
      else Stray)"
  by (simp add: DRAM_file_image DRAM_file_overflows)

text \<open>Memory behaves as memory: after two stores that do not overlap both are read back, and a
  load changes nothing.\<close>

theorem dram_two_stores:
  assumes "dram_wf d" and "Dram_Store d a n x = Done d1" and "Dram_Store d1 b m y = Done d2"
    and "unat b + unat m \<le> unat a \<or> unat a + unat n \<le> unat b"
  shows "Dram_Load d2 a n = Done (take (unat n) x, d2) \<and> Dram_Load d2 b m = Done (take (unat m) y, d2)"
  using assms by (rule dram.two_stores)

theorem dram_two_stores_witness:
  "\<exists>d2. Dram_Load d2 0 2 = Done ([1, 2], d2) \<and> Dram_Load d2 2 2 = Done ([3, 4], d2)"
proof -
  have s1: "Dram_Store (DRAM 4) 0 2 [1, 2] = Done \<lparr>dram_size = 4, dram_memory = [1, 2, 0, 0]\<rparr>"
    and s2: "Dram_Store \<lparr>dram_size = 4, dram_memory = [1, 2, 0, 0]\<rparr> 2 2 [3, 4] =
      Done \<lparr>dram_size = 4, dram_memory = [1, 2, 3, 4]\<rparr>"
    by code_simp+
  show ?thesis using dram_two_stores [OF dram_wf_DRAM s1 s2] by auto
qed

end
