(* ===== verification/Clint.thy ===== *)
theory Clint
  imports Mmio
begin

text \<open>
  The core-local interruptor (\<^verbatim>\<open>include/device/clint.h\<close>, \<^verbatim>\<open>src/device/clint.cc\<close>): one
  \<open>msip\<close> word and one \<open>mtimecmp\<close> double word per hart, and the \<open>mtime\<close> counter, read and
  written byte by byte at the offsets of the memory map. The host's clock
  (\<^verbatim>\<open>ReadGuestTimeStamp\<close>, modelled in \<open>Host_Clock\<close>) is an argument of the operations that read it.
\<close>

definition kMsipBase :: u64 where [const_defs]: "kMsipBase = 0"
definition kMtimeCmpBase :: u64 where [const_defs]: "kMtimeCmpBase = 0x4000"
definition kMtimeBase :: u64 where [const_defs]: "kMtimeBase = 0xbff8"

record clint =
  clint_harts :: u64
  clint_mtime :: u64
  clint_mtimecmp :: "u64 list"
  clint_msip :: "u32 list"

definition Clint :: "u64 \<Rightarrow> u64 \<Rightarrow> clint" where
  "Clint ReadGuestTimeStamp harts =
     \<lparr>clint_harts = harts, clint_mtime = ReadGuestTimeStamp,
      clint_mtimecmp = replicate (unat harts) 0, clint_msip = replicate (unat harts) 0\<rparr>"

definition Clint_Load :: "clint \<Rightarrow> u64 \<Rightarrow> u64 \<Rightarrow> (u8 list \<times> clint) io" where
  "Clint_Load c addr bytes =
     (if kMsipBase \<le> addr \<and> addr + bytes \<le> kMsipBase + clint_harts c * 4
      then map_io (\<lambda>bs. (bs, c))
             (copy_out (clint_msip c) (unat (addr - kMsipBase)) (unat bytes))
      else if kMtimeCmpBase \<le> addr \<and> addr + bytes \<le> kMtimeCmpBase + clint_harts c * 8
      then map_io (\<lambda>bs. (bs, c))
             (copy_out (clint_mtimecmp c) (unat (addr - kMtimeCmpBase)) (unat bytes))
      else if kMtimeBase \<le> addr \<and> addr + bytes \<le> kMtimeBase + 8
      then map_io (\<lambda>bs. (bs, c))
             (copy_out [clint_mtime c] (unat (addr - kMtimeBase)) (unat bytes))
      else Fail)"

definition Clint_Store :: "clint \<Rightarrow> u64 \<Rightarrow> u64 \<Rightarrow> u8 list \<Rightarrow> clint io" where
  "Clint_Store c addr bytes buffer =
     (if kMsipBase \<le> addr \<and> addr + bytes \<le> kMsipBase + clint_harts c * 4
      then map_io (\<lambda>ws. c\<lparr>clint_msip := map (\<lambda>msip. msip AND 1) ws\<rparr>)
             (copy_in (clint_msip c) (unat (addr - kMsipBase)) buffer (unat bytes))
      else if kMtimeCmpBase \<le> addr \<and> addr + bytes \<le> kMtimeCmpBase + clint_harts c * 8
      then map_io (\<lambda>ws. c\<lparr>clint_mtimecmp := ws\<rparr>)
             (copy_in (clint_mtimecmp c) (unat (addr - kMtimeCmpBase)) buffer (unat bytes))
      else if kMtimeBase \<le> addr \<and> addr + bytes \<le> kMtimeBase + 8
      then map_io (\<lambda>ws. c\<lparr>clint_mtime := ws ! 0\<rparr>)
             (copy_in [clint_mtime c] (unat (addr - kMtimeBase)) buffer (unat bytes))
      else Fail)"

definition Clint_Reset :: "u64 \<Rightarrow> clint \<Rightarrow> clint" where
  "Clint_Reset ReadGuestTimeStamp c =
     c\<lparr>clint_mtime := ReadGuestTimeStamp,
       clint_mtimecmp := replicate (length (clint_mtimecmp c)) 0,
       clint_msip := replicate (length (clint_msip c)) 0\<rparr>"

text \<open>The interrupt lines; a hart the device does not have is an out-of-range vector read.\<close>

definition MachineTimerIrq :: "clint \<Rightarrow> u64 \<Rightarrow> bool io" where
  "MachineTimerIrq c hart_id =
     (if unat hart_id < length (clint_mtimecmp c)
      then Done (clint_mtime c > clint_mtimecmp c ! unat hart_id) else Stray)"

definition MachineSoftwareIrq :: "clint \<Rightarrow> u64 \<Rightarrow> bool io" where
  "MachineSoftwareIrq c hart_id =
     (if unat hart_id < length (clint_msip c)
      then Done ((clint_msip c ! unat hart_id) AND 1 = 1) else Stray)"

definition Clint_Tick :: "clint \<Rightarrow> clint" where
  "Clint_Tick c = c\<lparr>clint_mtime := clint_mtime c + 1\<rparr>"

definition UpdateMtime :: "u64 \<Rightarrow> clint \<Rightarrow> clint" where
  "UpdateMtime ReadGuestTimeStamp c = c\<lparr>clint_mtime := ReadGuestTimeStamp\<rparr>"

text \<open>
  The invariant: the vectors have one entry per hart, the memory map has room for the harts
  (the \<open>mtimecmp\<close> block must end below \<open>mtime\<close>), and an \<open>msip\<close> word is 0 or 1.
\<close>

definition clint_wf :: "clint \<Rightarrow> bool" where
  "clint_wf c \<longleftrightarrow>
     length (clint_mtimecmp c) = unat (clint_harts c) \<and>
     length (clint_msip c) = unat (clint_harts c) \<and>
     unat (clint_harts c) \<le> 4095 \<and> (\<forall>m \<in> set (clint_msip c). m = 0 \<or> m = 1)"

lemma clint_wf_Clint: "unat n \<le> 4095 \<Longrightarrow> clint_wf (Clint t n)"
  by (simp add: clint_wf_def Clint_def)

lemma and_1_neq_1: "(w :: u32) AND 1 \<noteq> 1 \<Longrightarrow> w AND 1 = 0"
  by (simp add: and_one_eq)

lemma clint_region:
  assumes "clint_wf c" and "unat a < 2 ^ 32" and "unat n \<le> 8"
  shows "kMsipBase \<le> a \<and> a + n \<le> kMsipBase + clint_harts c * 4 \<longleftrightarrow>
           unat a + unat n \<le> length (clint_msip c) * 4"
    and "kMtimeCmpBase \<le> a \<and> a + n \<le> kMtimeCmpBase + clint_harts c * 8 \<longleftrightarrow>
           0x4000 \<le> unat a \<and> unat a + unat n \<le> 0x4000 + length (clint_mtimecmp c) * 8"
    and "kMtimeBase \<le> a \<and> a + n \<le> kMtimeBase + 8 \<longleftrightarrow>
           0xbff8 \<le> unat a \<and> unat a + unat n \<le> 0xc000"
proof -
  from assms(2,3) have an: "unat (a + n) = unat a + unat n"
    by (intro unat_add_no_wrap) simp
  from assms(1) have h: "unat (clint_harts c) \<le> 4095"
    and len: "length (clint_mtimecmp c) = unat (clint_harts c)"
      "length (clint_msip c) = unat (clint_harts c)"
    by (auto simp: clint_wf_def)
  have h4: "unat (clint_harts c * 4) = unat (clint_harts c) * 4"
    and h8: "unat (kMtimeCmpBase + clint_harts c * 8) = 0x4000 + unat (clint_harts c) * 8"
    using h by (simp_all add: unat_word_ariths kMtimeCmpBase_def)
  show "kMsipBase \<le> a \<and> a + n \<le> kMsipBase + clint_harts c * 4 \<longleftrightarrow>
      unat a + unat n \<le> length (clint_msip c) * 4"
    by (simp add: word_le_nat_alt an h4 len kMsipBase_def)
  show "kMtimeCmpBase \<le> a \<and> a + n \<le> kMtimeCmpBase + clint_harts c * 8 \<longleftrightarrow>
      0x4000 \<le> unat a \<and> unat a + unat n \<le> 0x4000 + length (clint_mtimecmp c) * 8"
    unfolding word_le_nat_alt h8 an len by (simp add: kMtimeCmpBase_def)
  show "kMtimeBase \<le> a \<and> a + n \<le> kMtimeBase + 8 \<longleftrightarrow> 0xbff8 \<le> unat a \<and> unat a + unat n \<le> 0xc000"
    unfolding word_le_nat_alt an by (simp add: kMtimeBase_def)
qed

lemma clint_offset:
  "0x4000 \<le> unat a \<Longrightarrow> unat (a - kMtimeCmpBase) = unat a - 0x4000"
  "0xbff8 \<le> unat a \<Longrightarrow> unat (a - kMtimeBase) = unat a - 0xbff8"
  "unat (a - kMsipBase) = unat a"
  by (simp_all add: kMsipBase_def kMtimeCmpBase_def kMtimeBase_def unat_sub word_le_nat_alt)

interpretation clint: mmio_device Clint_Load Clint_Store Clint_Reset clint_wf "\<lambda>_. 8" "\<lambda>_. 0"
proof (unfold_locales, goal_cases)
  case (1 d a n bs d')
  then show ?case
    by (auto simp: Clint_Load_def map_io_eq_Done split: if_splits)
next
  case (2 d a n bs d')
  then show ?case
    by (auto simp: Clint_Load_def map_io_eq_Done dest: copy_out_length split: if_splits)
next
  case (4 d a n buf d')
  then show ?case
    by (auto simp: Clint_Store_def clint_wf_def map_io_eq_Done copy_in_length
        intro: and_1_neq_1 split: if_splits)
next
  case (6 d t)
  then show ?case by (auto simp: clint_wf_def Clint_Reset_def)
next
  case (7 d a n)
  then show ?case
    by (auto simp: Clint_Load_def clint_region clint_offset copy_out_def)
next
  case (8 d a n buf)
  then show ?case
    by (auto simp: Clint_Store_def clint_region clint_offset copy_in_def)
qed auto

text \<open>
  Programming the timer: an aligned eight-byte store to a hart's \<open>mtimecmp\<close> sets exactly
  that comparator, and the timer line compares \<open>mtime\<close> with the stored value.
\<close>

lemma Clint_Store_mtimecmp:
  assumes "clint_wf c" and "unat h < length (clint_mtimecmp c)"
  shows "Clint_Store c (kMtimeCmpBase + h * 8) 8 (le_bytes 8 v) =
           Done (c\<lparr>clint_mtimecmp := (clint_mtimecmp c)[unat h := v]\<rparr>)"
proof -
  from assms have h: "unat h < 4095" and len: "length (clint_msip c) = length (clint_mtimecmp c)"
    and l: "length (clint_mtimecmp c) \<le> 4095"
    by (auto simp: clint_wf_def)
  then have a: "unat (kMtimeCmpBase + h * 8) = 0x4000 + unat h * 8"
    by (simp add: unat_word_ariths kMtimeCmpBase_def)
  note region = clint_region [OF assms(1), of "kMtimeCmpBase + h * 8" 8, simplified a]
  have not_msip: "\<not> (kMsipBase \<le> kMtimeCmpBase + h * 8 \<and>
      kMtimeCmpBase + h * 8 + 8 \<le> kMsipBase + clint_harts c * 4)"
    using region(1) h l len by simp
  have is_cmp: "kMtimeCmpBase \<le> kMtimeCmpBase + h * 8 \<and>
      kMtimeCmpBase + h * 8 + 8 \<le> kMtimeCmpBase + clint_harts c * 8"
    using region(2) h assms(2) by simp
  have off: "unat (kMtimeCmpBase + h * 8 - kMtimeCmpBase) = unat h * 8"
    using h by (simp add: unat_word_ariths)
  show ?thesis
    unfolding Clint_Store_def if_not_P [OF not_msip] if_P [OF is_cmp] off
    using assms(2) by (simp add: copy_in_u64)
qed

lemma MachineTimerIrq_after_store:
  assumes "clint_wf c" and "unat h < length (clint_mtimecmp c)"
    and "Clint_Store c (kMtimeCmpBase + h * 8) 8 (le_bytes 8 v) = Done c'"
  shows "MachineTimerIrq c' h = Done (clint_mtime c > v)"
  using assms by (simp add: Clint_Store_mtimecmp MachineTimerIrq_def) auto

section \<open>Properties\<close>

text \<open>C38: Programming a hart's timer with an aligned eight-byte store: the store succeeds, the
  timer line of that hart is up exactly while \<open>mtime\<close> is past the stored value, the other
  harts' timers and all software interrupts are as before, and the device stays well formed.\<close>

theorem clint_timer:
  assumes "clint_wf c" and "unat h < unat (clint_harts c)"
  shows "\<exists>c'. Clint_Store c (kMtimeCmpBase + h * 8) 8 (le_bytes 8 v) = Done c' \<and> clint_wf c' \<and>
    MachineTimerIrq c' h = Done (clint_mtime c > v) \<and>
    (\<forall>k. k \<noteq> h \<longrightarrow> MachineTimerIrq c' k = MachineTimerIrq c k) \<and>
    (\<forall>k. MachineSoftwareIrq c' k = MachineSoftwareIrq c k)"
proof -
  let ?c' = "c\<lparr>clint_mtimecmp := (clint_mtimecmp c)[unat h := v]\<rparr>"
  from assms have h: "unat h < length (clint_mtimecmp c)" by (simp add: clint_wf_def)
  from Clint_Store_mtimecmp [OF assms(1) h]
  have st: "Clint_Store c (kMtimeCmpBase + h * 8) 8 (le_bytes 8 v) = Done ?c'" .
  moreover have "clint_wf ?c'" using assms(1) st by (rule clint.store_wf)
  moreover have "k \<noteq> h \<Longrightarrow> (clint_mtimecmp c)[unat h := v] ! unat k = clint_mtimecmp c ! unat k" for k
    by (simp add: word_unat_eq_iff)
  ultimately show ?thesis
    using h by (intro exI [of _ ?c']) (auto simp: MachineTimerIrq_def MachineSoftwareIrq_def)
qed

theorem clint_timer_witness:
  "\<exists>c'. Clint_Store (Clint 9 2) (kMtimeCmpBase + 1 * 8) 8 (le_bytes 8 (4 :: u64)) = Done c' \<and>
     MachineTimerIrq c' 1 = Done True"
proof -
  have "clint_wf (Clint 9 2)" by (simp add: clint_wf_Clint)
  from clint_timer [OF this, of 1 4] show ?thesis by (auto simp: Clint_def)
qed

end
