(* ===== verification/Uart.thy ===== *)
theory Uart
  imports Mmio
begin

text \<open>
  The serial port (\<^verbatim>\<open>include/device/uart.h\<close>, \<^verbatim>\<open>src/device/uart.cc\<close>): four 32-bit registers
  that the guest accesses as raw bytes, a receive queue that the input thread fills with
  \<open>Putc\<close> and the guest drains, and a transmit queue that the guest fills and the main loop
  drains with \<open>Getc\<close>. Every operation runs under the queues' mutexes, so each is one step of
  the model. A \<open>char\<close> of the queues is a byte; it is sign-extended where the C++ widens it
  (the x86-64 ABI).
\<close>

record uart_reg =
  rx_fifo :: u32
  tx_fifo :: u32
  status :: u32
  control :: u32

record uart =
  uart_reg :: uart_reg
  wait_ack :: bool
  rx_buffer :: "u8 list"
  tx_buffer :: "u8 list"

definition kTxFifoFull :: u32 where [const_defs]: "kTxFifoFull = 0b1000"
definition kTxFifoEmpty :: u32 where [const_defs]: "kTxFifoEmpty = 0b0100"
definition kRxFifoFull :: u32 where [const_defs]: "kRxFifoFull = 0b0010"
definition kRxFifoValidData :: u32 where [const_defs]: "kRxFifoValidData = 0b0001"
definition kControlRstTx :: u32 where [const_defs]: "kControlRstTx = 1"
definition kControlRstRx :: u32 where [const_defs]: "kControlRstRx = 2"

text \<open>\<^verbatim>\<open>sizeof(reg_)\<close> and the offsets of its members.\<close>

definition kUartRegSize :: u64 where [const_defs]: "kUartRegSize = 16"
definition kRxFifoBias :: u64 where [const_defs]: "kRxFifoBias = 0"
definition kTxFifoBias :: u64 where [const_defs]: "kTxFifoBias = 4"
definition kControlBias :: u64 where [const_defs]: "kControlBias = 12"

text \<open>The register struct as the array of words it is laid out as, and back.\<close>

definition reg_words :: "uart_reg \<Rightarrow> u32 list" where
  "reg_words r = [rx_fifo r, tx_fifo r, status r, control r]"

definition words_reg :: "u32 list \<Rightarrow> uart_reg" where
  "words_reg ws = \<lparr>rx_fifo = ws ! 0, tx_fifo = ws ! 1, status = ws ! 2, control = ws ! 3\<rparr>"

definition Uart :: uart where
  "Uart = \<lparr>uart_reg = \<lparr>rx_fifo = 0, tx_fifo = 0, status = kTxFifoEmpty, control = 0\<rparr>,
           wait_ack = False, rx_buffer = [], tx_buffer = []\<rparr>"

definition Uart_Load :: "uart \<Rightarrow> u64 \<Rightarrow> u64 \<Rightarrow> (u8 list \<times> uart) io" where
  "Uart_Load u addr bytes =
     (if addr + bytes > kUartRegSize then Fail
      else
        let r = (case rx_buffer u of
                   c # _ \<Rightarrow> (uart_reg u)\<lparr>status := status (uart_reg u) OR kRxFifoValidData,
                                        rx_fifo := scast c\<rparr>
                 | [] \<Rightarrow> (uart_reg u)\<lparr>status := status (uart_reg u) AND NOT kRxFifoValidData\<rparr>);
            u1 = u\<lparr>uart_reg := r, wait_ack := False\<rparr>;
            u2 = (if addr \<le> kRxFifoBias \<and> kRxFifoBias \<le> addr + bytes
                  then u1\<lparr>rx_buffer := tl (rx_buffer u)\<rparr> else u1)
        in map_io (\<lambda>bs. (bs, u2)) (copy_out (reg_words r) (unat addr) (unat bytes)))"

definition Uart_Store :: "uart \<Rightarrow> u64 \<Rightarrow> u64 \<Rightarrow> u8 list \<Rightarrow> uart io" where
  "Uart_Store u addr bytes buffer =
     (if addr + bytes > kUartRegSize then Fail
      else map_io (\<lambda>ws.
        let r = words_reg ws;
            u1 = u\<lparr>uart_reg := r\<rparr>;
            u2 = (if addr \<le> kTxFifoBias \<and> kTxFifoBias \<le> addr + bytes
                  then u1\<lparr>tx_buffer := tx_buffer u1 @ [ucast (tx_fifo r AND 0xff)]\<rparr> else u1)
        in if addr \<le> kControlBias \<and> kControlBias \<le> addr + bytes
           then let u3 = (if control r AND kControlRstTx \<noteq> 0 then u2\<lparr>tx_buffer := []\<rparr> else u2)
                in (if control r AND kControlRstRx \<noteq> 0 then u3\<lparr>rx_buffer := []\<rparr> else u3)
           else u2)
        (copy_in (reg_words (uart_reg u)) (unat addr) buffer (unat bytes)))"

definition Uart_Reset :: "uart \<Rightarrow> uart" where
  "Uart_Reset u =
     u\<lparr>uart_reg := (uart_reg u)\<lparr>status := kTxFifoEmpty\<rparr>, wait_ack := False,
       rx_buffer := [], tx_buffer := []\<rparr>"

definition Putc :: "u8 \<Rightarrow> uart \<Rightarrow> uart" where
  "Putc ch u = u\<lparr>rx_buffer := rx_buffer u @ [ch]\<rparr>"

text \<open>\<open>Getc\<close> returns \<^verbatim>\<open>EOF\<close> (-1, the byte 0xff) when there is nothing to transmit.\<close>

definition Getc :: "uart \<Rightarrow> u8 \<times> uart" where
  "Getc u =
     (case tx_buffer u of
        res # rest \<Rightarrow>
          (res, if rest = [] then u\<lparr>tx_buffer := rest, wait_ack := True\<rparr>
                else u\<lparr>tx_buffer := rest\<rparr>)
      | [] \<Rightarrow> (- 1, u))"

definition TxBufferNotEmpty :: "uart \<Rightarrow> bool" where
  "TxBufferNotEmpty u \<longleftrightarrow> tx_buffer u \<noteq> []"

definition Irq :: "uart \<Rightarrow> bool" where
  "Irq u \<longleftrightarrow> rx_buffer u \<noteq> [] \<or> wait_ack u"

lemma length_reg_words [simp]: "length (reg_words r) = 4"
  by (simp add: reg_words_def)

lemma words_reg_words [simp]: "words_reg (reg_words r) = r"
  by (simp add: reg_words_def words_reg_def)

lemma reg_words_words:
  assumes "length ws = 4"
  shows "reg_words (words_reg ws) = ws"
proof -
  from assms obtain a b c d where "ws = [a, b, c, d]"
    by (auto simp: numeral_eq_Suc length_Suc_conv)
  then show ?thesis by (simp add: reg_words_def words_reg_def)
qed

lemma uart_in_bounds:
  assumes "unat a < 2 ^ 32" and "unat n \<le> 8"
  shows "a + n > kUartRegSize \<longleftrightarrow> unat a + unat n > 16"
proof -
  from assms have "unat (a + n) = unat a + unat n" by (intro unat_add_no_wrap) simp
  then show ?thesis by (simp add: word_less_nat_alt kUartRegSize_def)
qed

interpretation uart: mmio_device Uart_Load Uart_Store "\<lambda>_. Uart_Reset" "\<lambda>_. True" "\<lambda>_. 8" "\<lambda>_. 0"
proof (unfold_locales, goal_cases)
  case (2 d a n bs d')
  then show ?case
    by (auto simp: Uart_Load_def Let_def map_io_eq_Done dest: copy_out_length split: if_splits)
next
  case (7 d a n)
  then show ?case by (auto simp: Uart_Load_def Let_def uart_in_bounds copy_out_def)
next
  case (8 d a n buf)
  then show ?case by (auto simp: Uart_Store_def uart_in_bounds copy_in_def)
qed auto

text \<open>
  The transmit path: a four-byte store to the transmit register appends its low byte to the
  queue and touches neither the receive queue nor the acknowledge flag.
\<close>

lemma Uart_Store_tx:
  "Uart_Store u kTxFifoBias 4 (le_bytes 4 v) =
     Done (u\<lparr>uart_reg := (uart_reg u)\<lparr>tx_fifo := v\<rparr>,
             tx_buffer := tx_buffer u @ [ucast (v AND 0xff)]\<rparr>)"
proof -
  have "copy_in (reg_words (uart_reg u)) 4 (le_bytes 4 v) 4 = Done ((reg_words (uart_reg u))[1 := v])"
    using copy_in_u32 [of 1 "reg_words (uart_reg u)" v] by simp
  then show ?thesis
    by (simp add: Uart_Store_def const_defs words_reg_def reg_words_def Let_def)
qed

text \<open>
  The bound of the two side-effect tests is inclusive, so a store that ends where a register
  begins also triggers its effect: a four-byte store to the receive register transmits the
  stale transmit register, and a four-byte store to the status register applies the stale
  control bits.
\<close>

lemma Uart_Store_rx_transmits:
  "Uart_Store u kRxFifoBias 4 (le_bytes 4 v) =
     Done (u\<lparr>uart_reg := (uart_reg u)\<lparr>rx_fifo := v\<rparr>,
             tx_buffer := tx_buffer u @ [ucast (tx_fifo (uart_reg u) AND 0xff)]\<rparr>)"
proof -
  have "copy_in (reg_words (uart_reg u)) 0 (le_bytes 4 v) 4 = Done ((reg_words (uart_reg u))[0 := v])"
    using copy_in_u32 [of 0 "reg_words (uart_reg u)" v] by simp
  then show ?thesis
    by (simp add: Uart_Store_def const_defs words_reg_def reg_words_def Let_def)
qed

text \<open>
  The receive path: with data waiting, a four-byte load of the receive register delivers the
  oldest byte and removes it; the interrupt line stays up exactly while bytes remain.
\<close>

lemma Uart_Load_rx:
  assumes "rx_buffer u = c # cs"
  obtains u' where "Uart_Load u kRxFifoBias 4 = Done (le_bytes 4 (scast c :: u32), u')"
    and "rx_buffer u' = cs" and "tx_buffer u' = tx_buffer u" and "Irq u' \<longleftrightarrow> cs \<noteq> []"
proof -
  let ?r = "(uart_reg u)\<lparr>status := status (uart_reg u) OR kRxFifoValidData, rx_fifo := scast c\<rparr>"
  have "copy_out (reg_words ?r) 0 4 = Done (le_bytes 4 (scast c :: u32))"
    using copy_out_u32 [of 0 "reg_words ?r"] by (simp add: reg_words_def)
  then have "Uart_Load u kRxFifoBias 4 = Done (le_bytes 4 (scast c :: u32),
      u\<lparr>uart_reg := ?r, wait_ack := False, rx_buffer := cs\<rparr>)"
    using assms by (simp add: Uart_Load_def kUartRegSize_def kRxFifoBias_def Let_def)
  then show ?thesis by (rule that) (simp_all add: Irq_def)
qed

section \<open>Properties\<close>

text \<open>A guest that reads the receive register \<open>n\<close> times, one that writes words to the transmit
  register, and a host that takes \<open>n\<close> characters.\<close>

fun rx_reads :: "nat \<Rightarrow> uart \<Rightarrow> u8 list \<times> uart" where
  "rx_reads 0 u = ([], u)"
| "rx_reads (Suc n) u =
     (case Uart_Load u kRxFifoBias 4 of
        Done (bs, u') \<Rightarrow> (case rx_reads n u' of (cs, u'') \<Rightarrow> (hd bs # cs, u''))
      | _ \<Rightarrow> ([], u))"

fun tx_writes :: "u32 list \<Rightarrow> uart \<Rightarrow> uart io" where
  "tx_writes [] u = Done u"
| "tx_writes (v # vs) u =
     (case Uart_Store u kTxFifoBias 4 (le_bytes 4 v) of
        Done u' \<Rightarrow> tx_writes vs u' | Fail \<Rightarrow> Fail | Stray \<Rightarrow> Stray)"

fun getcs :: "nat \<Rightarrow> uart \<Rightarrow> u8 list \<times> uart" where
  "getcs 0 u = ([], u)"
| "getcs (Suc n) u =
     (case Getc u of (c, u') \<Rightarrow> (case getcs n u' of (cs, u'') \<Rightarrow> (c # cs, u'')))"

lemma rx_buffer_Putcs: "rx_buffer (fold Putc cs u) = rx_buffer u @ cs"
  by (induction cs arbitrary: u) (simp_all add: Putc_def)

lemma low_byte_scast: "hd (le_bytes 4 (scast (c :: u8) :: u32)) = c"
proof -
  have "hd (le_bytes 4 (scast c :: u32)) = get_byte (scast c :: u32) 0"
    by (simp add: le_bytes_def upt_rec)
  also have "\<dots> = c" by (rule bit_eqI) (auto simp: get_byte_def bit_simps)
  finally show ?thesis .
qed

lemma rx_reads_all: "fst (rx_reads (length (rx_buffer u)) u) = rx_buffer u \<and>
    rx_buffer (snd (rx_reads (length (rx_buffer u)) u)) = []"
proof (induction "rx_buffer u" arbitrary: u)
  case (Cons c cs)
  from Cons.hyps(2) [symmetric] obtain u' where
    u': "Uart_Load u kRxFifoBias 4 = Done (le_bytes 4 (scast c :: u32), u')" "rx_buffer u' = cs"
    by (rule Uart_Load_rx)
  from Cons.hyps(1) [OF u'(2) [symmetric]] u' Cons.hyps(2) [symmetric] low_byte_scast [of c]
  show ?case by (auto split: prod.splits)
qed simp

text \<open>C34: What the host types is what the guest reads: after any characters arrive, reading the
  receive register as often as there are characters delivers them all in order of arrival and
  leaves the queue empty.\<close>

theorem uart_receive:
  "fst (rx_reads (length (rx_buffer u) + length cs) (fold Putc cs u)) = rx_buffer u @ cs \<and>
   rx_buffer (snd (rx_reads (length (rx_buffer u) + length cs) (fold Putc cs u))) = []"
  using rx_reads_all [of "fold Putc cs u"] by (simp add: rx_buffer_Putcs)

lemma tx_writes_buffer:
  "\<exists>u'. tx_writes vs u = Done u' \<and> tx_buffer u' = tx_buffer u @ map (\<lambda>v. ucast (v AND 0xff)) vs \<and>
     rx_buffer u' = rx_buffer u"
proof (induction vs arbitrary: u)
  case (Cons v vs)
  let ?u = "u\<lparr>uart_reg := (uart_reg u)\<lparr>tx_fifo := v\<rparr>, tx_buffer := tx_buffer u @ [ucast (v AND 0xff)]\<rparr>"
  from Cons.IH [of ?u] show ?case by (auto simp: Uart_Store_tx)
qed simp

lemma getcs_all: "fst (getcs (length (tx_buffer u)) u) = tx_buffer u"
proof (induction "tx_buffer u" arbitrary: u)
  case (Cons c cs)
  from Cons.hyps(2) have "Getc u = (c, if cs = [] then u\<lparr>tx_buffer := cs, wait_ack := True\<rparr>
      else u\<lparr>tx_buffer := cs\<rparr>)" by (simp add: Getc_def flip: Cons.hyps(2))
  with Cons.hyps(1) [of "if cs = [] then u\<lparr>tx_buffer := cs, wait_ack := True\<rparr> else u\<lparr>tx_buffer := cs\<rparr>"]
    Cons.hyps(2) [symmetric]
  show ?case by (auto split: prod.splits if_splits)
qed simp

text \<open>C35: What the guest transmits is what the host prints: words stored to the transmit register
  are queued as their low bytes and taken by the host in the same order.\<close>

theorem uart_transmit:
  "\<exists>u'. tx_writes vs u = Done u' \<and>
     fst (getcs (length (tx_buffer u) + length vs) u') = tx_buffer u @ map (\<lambda>v. ucast (v AND 0xff)) vs"
proof -
  from tx_writes_buffer [of vs u] obtain u' where u': "tx_writes vs u = Done u'"
    "tx_buffer u' = tx_buffer u @ map (\<lambda>v. ucast (v AND 0xff)) vs" by blast
  from getcs_all [of u'] u' show ?thesis by simp
qed

end
