(* ===== verification/Plic.thy ===== *)
theory Plic
  imports Mmio
begin

text \<open>
  The platform-level interrupt controller (\<^verbatim>\<open>include/device/plic.h\<close>,
  \<^verbatim>\<open>src/device/plic.cc\<close>): source priorities, the pending words the devices set, and per
  context the enable words, the threshold, the best pending source and the sources that are
  claimed and not yet completed.

  The lemmas show which source \<open>GetInterrupt\<close> selects and the claim/complete handshake.
\<close>

definition kPlicMaxDevices :: u64 where [const_defs]: "kPlicMaxDevices = 1024"
definition kSourcePriorityBase :: u64 where [const_defs]: "kSourcePriorityBase = 0"
definition kPendingBase :: u64 where [const_defs]: "kPendingBase = 0x1000"
definition kEnableBase :: u64 where [const_defs]: "kEnableBase = 0x2000"
definition kContextBase :: u64 where [const_defs]: "kContextBase = 0x200000"
definition kContextEnd :: u64 where [const_defs]: "kContextEnd = 0x3ffffff"
definition kEnableBytesPerHart :: u64 where [const_defs]: "kEnableBytesPerHart = 0x80"
definition kContextBytesPerHart :: u64 where [const_defs]: "kContextBytesPerHart = 0x1000"
definition kWordBits :: nat where [const_defs]: "kWordBits = 32"

definition kLenGroupByWord :: nat where
  "kLenGroupByWord = (unat kPlicMaxDevices + kWordBits - 1) div kWordBits"

record PlicContext =
  ctx_mmode :: bool
  ctx_id :: u32
  ctx_claim :: u32
  ctx_threshold :: u32
  ctx_enable :: "u32 list"
  ctx_claimed :: "u32 list"

definition PlicContext_default :: PlicContext where
  "PlicContext_default =
     \<lparr>ctx_mmode = False, ctx_id = 0, ctx_claim = 0, ctx_threshold = 0,
      ctx_enable = replicate kLenGroupByWord 0, ctx_claimed = replicate kLenGroupByWord 0\<rparr>"

record plic =
  plic_contexts :: "PlicContext list"
  plic_dev_num :: u64
  plic_priority :: "u32 list"
  plic_pending :: "u32 list"

definition Plic :: "u64 \<Rightarrow> bool \<Rightarrow> u64 \<Rightarrow> plic" where
  "Plic cores is_s_mode device_num =
     (let kCtxPerHart = (if is_s_mode then 2 else 1);
          n = unat (cores * kCtxPerHart)
      in \<lparr>plic_contexts =
            map (\<lambda>i. PlicContext_default
                   \<lparr>ctx_id := of_nat i,
                    ctx_mmode := (if is_s_mode then i mod unat kCtxPerHart = 0 else True)\<rparr>) [0..<n],
          plic_dev_num = device_num + 1,
          plic_priority = replicate (unat kPlicMaxDevices) 0,
          plic_pending = replicate kLenGroupByWord 0\<rparr>)"

definition UpdateExt :: "u32 \<Rightarrow> bool \<Rightarrow> plic \<Rightarrow> plic io" where
  "UpdateExt src_id fired p =
     (let kIndex = unat src_id div kWordBits;
          kOffset = unat src_id mod kWordBits;
          kMask = push_bit kOffset 1;
          cleared = (plic_pending p ! kIndex) AND NOT kMask
      in if kIndex < length (plic_pending p)
         then Done (p\<lparr>plic_pending := (plic_pending p)
                       [kIndex := (if fired then cleared OR kMask else cleared)]\<rparr>)
         else Stray)"

text \<open>The condition of the selection loop for one source, and the loop.\<close>

definition plic_eligible :: "plic \<Rightarrow> PlicContext \<Rightarrow> nat \<Rightarrow> bool" where
  "plic_eligible p c i =
     (let kIndex = i div kWordBits; kMask = push_bit (i mod kWordBits) 1
      in plic_priority p ! i \<ge> ctx_threshold c \<and>
         (plic_pending p ! kIndex) AND kMask \<noteq> 0 \<and>
         (ctx_enable c ! kIndex) AND kMask \<noteq> 0 \<and>
         \<not> ((ctx_claimed c ! kIndex) AND kMask \<noteq> 0))"

fun plic_select :: "plic \<Rightarrow> PlicContext \<Rightarrow> nat list \<Rightarrow> u64 \<times> u64 \<Rightarrow> u64 \<times> u64" where
  "plic_select p c [] acc = acc"
| "plic_select p c (i # is) (max_priority, best_interrupt) =
     plic_select p c is
       (if plic_eligible p c i \<and> max_priority < ucast (plic_priority p ! i)
        then (ucast (plic_priority p ! i), of_nat i)
        else (max_priority, best_interrupt))"

definition GetInterrupt :: "u64 \<Rightarrow> plic \<Rightarrow> (bool \<times> plic) io" where
  "GetInterrupt ctx p =
     (if unat ctx < length (plic_contexts p) \<and> unat (plic_dev_num p) \<le> length (plic_priority p)
      then let c = plic_contexts p ! unat ctx;
               best_interrupt = snd (plic_select p c [0..<unat (plic_dev_num p)] (0, 0))
           in Done (best_interrupt \<noteq> 0,
                    p\<lparr>plic_contexts := (plic_contexts p)
                        [unat ctx := c\<lparr>ctx_claim := ucast best_interrupt\<rparr>]\<rparr>)
      else Stray)"

definition Plic_Load :: "plic \<Rightarrow> u64 \<Rightarrow> u64 \<Rightarrow> (u8 list \<times> plic) io" where
  "Plic_Load p addr bytes =
     (if kSourcePriorityBase \<le> addr \<and> addr < kPendingBase
      then let kSourceIndex = drop_bit 2 addr
           in if kSourceIndex > plic_dev_num p - 1 then Fail
              else map_io (\<lambda>bs. (bs, p))
                     (copy_out (plic_priority p) (unat kSourceIndex * 4) (unat bytes))
      else if kPendingBase \<le> addr \<and> addr < 0x1080
      then let kPendingIndex = drop_bit 2 (addr - kPendingBase);
               kMinSource = kPendingIndex * of_nat kWordBits
           in if kMinSource > plic_dev_num p - 1 then Fail
              else map_io (\<lambda>bs. (bs, p))
                     (copy_out (plic_pending p) (unat kPendingIndex * 4) (unat bytes))
      else if kEnableBase \<le> addr \<and> addr < 0x1f2000
      then let kCtxId = unat ((addr - kEnableBase) div kEnableBytesPerHart)
           in if kCtxId \<ge> length (plic_contexts p) then Fail
              else let kEnableIndex = drop_bit 2 (addr mod kEnableBytesPerHart);
                       kMinSource = kEnableIndex * of_nat kWordBits
                   in if kMinSource > plic_dev_num p - 1 then Fail
                      else map_io (\<lambda>bs. (bs, p))
                             (copy_out (ctx_enable (plic_contexts p ! kCtxId))
                                (unat kEnableIndex * 4) (unat bytes))
      else if kContextBase \<le> addr \<and> addr \<le> kContextEnd
      then let kCtxId = unat ((addr - kContextBase) div kContextBytesPerHart)
           in if kCtxId \<ge> length (plic_contexts p) then Fail
              else let c = plic_contexts p ! kCtxId; kOffset = addr mod kContextBytesPerHart
                   in if kOffset = 0
                      then map_io (\<lambda>bs. (bs, p)) (copy_out [ctx_threshold c] 0 (unat bytes))
                      else if kOffset = 4
                      then let kClaim = unat (ctx_claim c);
                               kMask = push_bit (kClaim mod kWordBits) 1;
                               i = kClaim div kWordBits
                           in if i < length (ctx_claimed c)
                              then map_io (\<lambda>bs. (bs, p\<lparr>plic_contexts := (plic_contexts p)
                                     [kCtxId := c\<lparr>ctx_claimed := (ctx_claimed c)
                                        [i := (ctx_claimed c ! i) OR kMask]\<rparr>]\<rparr>))
                                     (copy_out [ctx_claim c] 0 (unat bytes))
                              else Stray
                      else Fail
      else Fail)"

definition Plic_Store :: "plic \<Rightarrow> u64 \<Rightarrow> u64 \<Rightarrow> u8 list \<Rightarrow> plic io" where
  "Plic_Store p addr bytes buffer =
     (if kSourcePriorityBase \<le> addr \<and> addr < kPendingBase
      then let kSourceIndex = drop_bit 2 addr
           in if kSourceIndex > plic_dev_num p - 1 then Fail
              else map_io (\<lambda>ws. p\<lparr>plic_priority := ws\<rparr>)
                     (copy_in (plic_priority p) (unat kSourceIndex * 4) buffer (unat bytes))
      else if kPendingBase \<le> addr \<and> addr < 0x1080
      then let kPendingIndex = drop_bit 2 (addr - kPendingBase);
               kMinSource = kPendingIndex * of_nat kWordBits
           in if kMinSource > plic_dev_num p - 1 then Fail
              else map_io (\<lambda>ws. p\<lparr>plic_pending := ws\<rparr>)
                     (copy_in (plic_pending p) (unat kPendingIndex * 4) buffer (unat bytes))
      else if kEnableBase \<le> addr \<and> addr < 0x1f2000
      then let kCtxId = unat ((addr - kEnableBase) div kEnableBytesPerHart)
           in if kCtxId \<ge> length (plic_contexts p) then Fail
              else let c = plic_contexts p ! kCtxId;
                       kEnableIndex = drop_bit 2 (addr mod kEnableBytesPerHart);
                       kMinSource = kEnableIndex * of_nat kWordBits
                   in if kMinSource > plic_dev_num p - 1 then Fail
                      else map_io (\<lambda>ws. p\<lparr>plic_contexts :=
                               (plic_contexts p)[kCtxId := c\<lparr>ctx_enable := ws\<rparr>]\<rparr>)
                             (copy_in (ctx_enable c) (unat kEnableIndex * 4) buffer (unat bytes))
      else if kContextBase \<le> addr \<and> addr \<le> kContextEnd
      then let kCtxId = unat ((addr - kContextBase) div kContextBytesPerHart)
           in if kCtxId \<ge> length (plic_contexts p) then Fail
              else let c = plic_contexts p ! kCtxId; kOffset = addr mod kContextBytesPerHart
                   in if kOffset = 0
                      then map_io (\<lambda>ws. p\<lparr>plic_contexts :=
                               (plic_contexts p)[kCtxId := c\<lparr>ctx_threshold := ws ! 0\<rparr>]\<rparr>)
                             (copy_in [ctx_threshold c] 0 buffer (unat bytes))
                      else if kOffset = 4
                      then if length buffer < 4 then Stray
                           else let kVal = le_word (take 4 buffer) :: u32
                                in if ucast kVal > plic_dev_num p - 1 then Fail
                                   else let i = unat kVal div kWordBits;
                                            kMask = NOT (push_bit (unat kVal mod kWordBits) 1)
                                        in if i < length (ctx_claimed c)
                                           then Done (p\<lparr>plic_contexts := (plic_contexts p)
                                                  [kCtxId := c\<lparr>ctx_claimed := (ctx_claimed c)
                                                     [i := (ctx_claimed c ! i) AND kMask]\<rparr>]\<rparr>)
                                           else Stray
                      else Fail
      else Fail)"

definition Plic_Reset :: "plic \<Rightarrow> plic" where
  "Plic_Reset p =
     p\<lparr>plic_priority := replicate (length (plic_priority p)) 0,
       plic_pending := replicate (length (plic_pending p)) 0,
       plic_contexts := replicate (length (plic_contexts p)) PlicContext_default\<rparr>"

definition ctx_wf :: "PlicContext \<Rightarrow> bool" where
  "ctx_wf c \<longleftrightarrow> length (ctx_enable c) = 32 \<and> length (ctx_claimed c) = 32 \<and> unat (ctx_claim c) < 1024"

definition plic_wf :: "plic \<Rightarrow> bool" where
  "plic_wf p \<longleftrightarrow>
     length (plic_priority p) = 1024 \<and> length (plic_pending p) = 32 \<and>
     0 < plic_dev_num p \<and> plic_dev_num p \<le> 1024 \<and> list_all ctx_wf (plic_contexts p)"

lemma kLenGroupByWord_32 [simp]: "kLenGroupByWord = 32"
  by (simp add: kLenGroupByWord_def const_defs)

lemma ctx_wf_default [simp]: "ctx_wf PlicContext_default"
  by (simp add: ctx_wf_def PlicContext_default_def)

lemma plic_wf_Plic: "n < 1024 \<Longrightarrow> plic_wf (Plic cores s n)"
  by (auto simp: plic_wf_def Plic_def Let_def list_all_iff ctx_wf_def PlicContext_default_def
      kPlicMaxDevices_def word_less_nat_alt word_le_nat_alt unat_word_ariths)


lemma plic_eligible_bits:
  "plic_eligible p c i \<longleftrightarrow>
     ctx_threshold c \<le> plic_priority p ! i \<and> bit (plic_pending p ! (i div 32)) (i mod 32) \<and>
     bit (ctx_enable c ! (i div 32)) (i mod 32) \<and> \<not> bit (ctx_claimed c ! (i div 32)) (i mod 32)"
  by (simp add: plic_eligible_def kWordBits_def Let_def push_bit_of_1 and_exp_eq_0_iff_not_bit)

section \<open>Which source is selected\<close>

text \<open>
  \<open>plic_best p c n i\<close>: among the first \<open>n\<close> sources, \<open>i\<close> is eligible with a positive
  priority, no eligible source has a higher one, and no eligible source with a smaller
  number has the same.
\<close>

definition plic_best :: "plic \<Rightarrow> PlicContext \<Rightarrow> nat \<Rightarrow> nat \<Rightarrow> bool" where
  "plic_best p c n i \<longleftrightarrow>
     i < n \<and> plic_eligible p c i \<and> 0 < plic_priority p ! i \<and>
     (\<forall>j < n. plic_eligible p c j \<longrightarrow> plic_priority p ! j \<le> plic_priority p ! i) \<and>
     (\<forall>j < i. plic_eligible p c j \<longrightarrow> plic_priority p ! j < plic_priority p ! i)"

lemma plic_select_append:
  "plic_select p c (xs @ ys) acc = plic_select p c ys (plic_select p c xs acc)"
  by (induction xs arbitrary: acc) auto

lemma ucast_u32_u64_less: "(ucast (a :: u32) :: u64) < ucast b \<longleftrightarrow> a < b"
  by (simp add: word_less_nat_alt unat_ucast_32_64)

lemma plic_select_upto:
  "(\<exists>i. plic_best p c n i \<and>
        plic_select p c [0..<n] (0, 0) = (ucast (plic_priority p ! i), of_nat i)) \<or>
   (\<forall>i < n. plic_eligible p c i \<longrightarrow> plic_priority p ! i = 0) \<and>
     plic_select p c [0..<n] (0, 0) = (0, 0)"
proof (induction n)
  case 0
  then show ?case by simp
next
  case (Suc n)
  let ?new = "plic_eligible p c n \<and> 0 < plic_priority p ! n"
  from Suc show ?case
  proof (elim disjE exE conjE)
    fix i
    assume best: "plic_best p c n i"
      and sel: "plic_select p c [0..<n] (0, 0) = (ucast (plic_priority p ! i), of_nat i)"
    show ?thesis
    proof (cases "plic_eligible p c n \<and> plic_priority p ! i < plic_priority p ! n")
      case True
      with best have "plic_best p c (Suc n) n"
        unfolding plic_best_def by (auto simp: less_Suc_eq intro: le_less_trans less_imp_le)
      with True sel show ?thesis
        by (auto simp: plic_select_append ucast_u32_u64_less)
    next
      case False
      with best have "plic_best p c (Suc n) i"
        unfolding plic_best_def by (auto simp: less_Suc_eq not_less)
      with False sel show ?thesis
        by (auto simp: plic_select_append ucast_u32_u64_less)
    qed
  next
    assume none: "\<forall>i < n. plic_eligible p c i \<longrightarrow> plic_priority p ! i = 0"
      and sel: "plic_select p c [0..<n] (0, 0) = (0, 0)"
    have pos: "(0 :: u64) < ucast (plic_priority p ! n) \<longleftrightarrow> 0 < plic_priority p ! n"
      using ucast_u32_u64_less [of 0 "plic_priority p ! n"] by simp
    show ?thesis
    proof (cases ?new)
      case True
      with none have "plic_best p c (Suc n) n"
        unfolding plic_best_def by (auto simp: less_Suc_eq)
      with True sel pos show ?thesis by (auto simp: plic_select_append)
    next
      case False
      with none have "\<forall>i < Suc n. plic_eligible p c i \<longrightarrow> plic_priority p ! i = 0"
        by (auto simp: less_Suc_eq word_gt_0)
      with False sel pos show ?thesis by (auto simp: plic_select_append)
    qed
  qed
qed

lemma GetInterrupt_cases:
  assumes "plic_wf p" and "unat ctx < length (plic_contexts p)"
  obtains s where "s < 1024"
    and "GetInterrupt ctx p = Done (s \<noteq> 0, p\<lparr>plic_contexts := (plic_contexts p)
           [unat ctx := (plic_contexts p ! unat ctx)\<lparr>ctx_claim := of_nat s\<rparr>]\<rparr>)"
    and "plic_best p (plic_contexts p ! unat ctx) (unat (plic_dev_num p)) s \<or>
         s = 0 \<and> (\<forall>i < unat (plic_dev_num p). plic_eligible p (plic_contexts p ! unat ctx) i \<longrightarrow>
                    plic_priority p ! i = 0)"
proof -
  let ?c = "plic_contexts p ! unat ctx" and ?n = "unat (plic_dev_num p)"
  from assms(1) have n: "?n \<le> 1024" and len: "length (plic_priority p) = 1024"
    by (auto simp: plic_wf_def word_le_nat_alt)
  from plic_select_upto [of p ?c ?n]
  obtain s where s: "snd (plic_select p ?c [0..<?n] (0, 0)) = of_nat s" "s < 1024"
    and spec: "plic_best p ?c ?n s \<or>
      s = 0 \<and> (\<forall>i < ?n. plic_eligible p ?c i \<longrightarrow> plic_priority p ! i = 0)"
  proof (elim disjE exE conjE)
    fix i
    assume "plic_best p ?c ?n i"
      and "plic_select p ?c [0..<?n] (0, 0) = (ucast (plic_priority p ! i), of_nat i)"
    with n that [of i] show thesis by (simp add: plic_best_def)
  qed (use that [of 0] in simp)
  have "(of_nat s :: u64) \<noteq> 0 \<longleftrightarrow> s \<noteq> 0"
    using s(2) by (cases "s = 0") (auto simp: word_of_nat_eq_0_iff dest: dvd_imp_le)
  moreover have "(ucast (of_nat s :: u64) :: u32) = of_nat s"
    using s(2) by (simp add: unsigned_of_nat take_bit_eq_mod)
  ultimately have "GetInterrupt ctx p = Done (s \<noteq> 0, p\<lparr>plic_contexts := (plic_contexts p)
      [unat ctx := ?c\<lparr>ctx_claim := of_nat s\<rparr>]\<rparr>)"
    using assms(2) n len s(1) by (simp add: GetInterrupt_def Let_def)
  with s(2) spec show thesis by (intro that)
qed


section \<open>The device interface\<close>

lemma plic_wf_ctx: "plic_wf p \<Longrightarrow> k < length (plic_contexts p) \<Longrightarrow> ctx_wf (plic_contexts p ! k)"
  by (simp add: plic_wf_def list_all_length)

lemma plic_wf_context_update:
  "plic_wf p \<Longrightarrow> ctx_wf c \<Longrightarrow> plic_wf (p\<lparr>plic_contexts := (plic_contexts p)[k := c]\<rparr>)"
  by (simp add: plic_wf_def list_all_update)

lemma plic_wf_word_update:
  "plic_wf p \<Longrightarrow> length ws = length (plic_priority p) \<Longrightarrow> plic_wf (p\<lparr>plic_priority := ws\<rparr>)"
  "plic_wf p \<Longrightarrow> length ws = length (plic_pending p) \<Longrightarrow> plic_wf (p\<lparr>plic_pending := ws\<rparr>)"
  by (simp_all add: plic_wf_def)

lemma ctx_wf_update:
  "ctx_wf c \<Longrightarrow> length ws = length (ctx_enable c) \<Longrightarrow> ctx_wf (c\<lparr>ctx_enable := ws\<rparr>)"
  "ctx_wf c \<Longrightarrow> ctx_wf (c\<lparr>ctx_claimed := (ctx_claimed c)[i := w]\<rparr>)"
  "ctx_wf c \<Longrightarrow> ctx_wf (c\<lparr>ctx_threshold := w\<rparr>)"
  "ctx_wf c \<Longrightarrow> unat w < 1024 \<Longrightarrow> ctx_wf (c\<lparr>ctx_claim := w\<rparr>)"
  by (simp_all add: ctx_wf_def)

lemmas plic_wf_updates =
  plic_wf_context_update plic_wf_word_update ctx_wf_update plic_wf_ctx

lemma plic_wf_Load: "plic_wf p \<Longrightarrow> Plic_Load p a n = Done (bs, p') \<Longrightarrow> plic_wf p'"
  by (auto simp: Plic_Load_def Let_def map_io_eq_Done not_le split: if_splits
      intro!: plic_wf_updates)

lemma Plic_Load_length: "Plic_Load p a n = Done (bs, p') \<Longrightarrow> length bs = unat n"
  by (auto simp: Plic_Load_def Let_def map_io_eq_Done dest!: copy_out_length split: if_splits)

lemma plic_wf_Store: "plic_wf p \<Longrightarrow> Plic_Store p a n buf = Done p' \<Longrightarrow> plic_wf p'"
  by (auto simp: Plic_Store_def Let_def map_io_eq_Done not_le split: if_splits
      dest!: copy_in_length intro!: plic_wf_updates)


lemma plic_word_index:
  "a < kPendingBase \<Longrightarrow> unat (drop_bit 2 a) < 1024"
  "kPendingBase \<le> a \<Longrightarrow> a < 0x1080 \<Longrightarrow> unat (drop_bit 2 (a - kPendingBase)) < 32"
  "unat (drop_bit 2 (a mod kEnableBytesPerHart)) < 32"
proof -
  show "unat (drop_bit 2 a) < 1024" if "a < kPendingBase"
    using that by (simp add: unat_drop_bit_div word_less_nat_alt kPendingBase_def)
  show "unat (drop_bit 2 (a - kPendingBase)) < 32" if "kPendingBase \<le> a" "a < 0x1080"
    using that
    by (simp add: unat_drop_bit_div word_less_nat_alt word_le_nat_alt
        kPendingBase_def unat_sub)
  have "unat (a mod kEnableBytesPerHart) < 128"
    by (simp add: kEnableBytesPerHart_def unat_mod)
  then show "unat (drop_bit 2 (a mod kEnableBytesPerHart)) < 32"
    by (simp add: unat_drop_bit_div)
qed

lemma word_copy_safe:
  "i < length ws \<Longrightarrow> n \<le> 4 \<Longrightarrow> copy_out (ws :: u32 list) (i * 4) n \<noteq> Stray"
  "i < length ws \<Longrightarrow> n \<le> 4 \<Longrightarrow> n \<le> length buf \<Longrightarrow> copy_in (ws :: u32 list) (i * 4) buf n \<noteq> Stray"
  by (auto simp: copy_out_def copy_in_def)

lemma member_copy_safe:
  "n \<le> 4 \<Longrightarrow> copy_out [w :: u32] 0 n \<noteq> Stray"
  "n \<le> 4 \<Longrightarrow> n \<le> length buf \<Longrightarrow> copy_in [w :: u32] 0 buf n \<noteq> Stray"
  by (auto simp: copy_out_def copy_in_def)

lemma plic_ctx_lengths:
  assumes "plic_wf p" and "\<not> length (plic_contexts p) \<le> k"
  shows "length (ctx_enable (plic_contexts p ! k)) = 32"
    and "length (ctx_claimed (plic_contexts p ! k)) = 32"
    and "unat (ctx_claim (plic_contexts p ! k)) div kWordBits < 32"
  using plic_wf_ctx [OF assms(1), of k] assms(2)
  by (auto simp: ctx_wf_def kWordBits_def)

lemma plic_source_index:
  assumes "plic_wf p" and "\<not> plic_dev_num p - 1 < ucast (v :: u32)"
  shows "unat v div kWordBits < 32"
proof -
  from assms(1) have "unat (plic_dev_num p - 1) < 1024"
    by (auto simp: plic_wf_def word_le_nat_alt word_less_nat_alt unat_sub)
  with assms(2) have "unat v < 1024" by (simp add: word_less_nat_alt not_less)
  then show ?thesis by (simp add: kWordBits_def)
qed

lemma Plic_Load_safe:
  assumes "plic_wf p" and "unat n \<le> 4"
  shows "Plic_Load p a n \<noteq> Stray"
proof -
  from assms(1) have "length (plic_priority p) = 1024" "length (plic_pending p) = 32"
    by (auto simp: plic_wf_def)
  then show ?thesis
    unfolding Plic_Load_def Let_def
    by (simp add: assms(2) word_copy_safe member_copy_safe plic_word_index
        plic_ctx_lengths [OF assms(1)] split: if_split)
qed

lemma Plic_Store_safe:
  assumes "plic_wf p" and "unat n \<le> 4" and "unat n \<le> length buf" and "4 \<le> length buf"
  shows "Plic_Store p a n buf \<noteq> Stray"
proof -
  from assms(1) have "length (plic_priority p) = 1024" "length (plic_pending p) = 32"
    by (auto simp: plic_wf_def)
  moreover from assms(4) have "\<not> length buf < 4" by simp
  ultimately show ?thesis
    unfolding Plic_Store_def Let_def
    by (simp add: assms(2,3) word_copy_safe member_copy_safe plic_word_index
        plic_ctx_lengths [OF assms(1)] plic_source_index [OF assms(1)] split: if_split)
qed

interpretation plic: mmio_device Plic_Load Plic_Store "\<lambda>_. Plic_Reset" plic_wf "\<lambda>_. 4" "\<lambda>_. 4"
proof (unfold_locales, goal_cases)
  case (6 d t)
  then show ?case by (auto simp: plic_wf_def Plic_Reset_def list_all_length)
next
  case (7 d a n)
  then show ?case by (simp add: Plic_Load_safe)
next
  case (8 d a n buf)
  then show ?case by (simp add: Plic_Store_safe)
qed (auto intro: plic_wf_Load Plic_Load_length plic_wf_Store)


section \<open>Claim and complete\<close>

definition plic_claim_addr :: "u64 \<Rightarrow> u64" where
  "plic_claim_addr k = kContextBase + k * kContextBytesPerHart + 4"

lemma plic_claim_addr_facts:
  assumes "unat k < 15872"
  shows "\<not> (kSourcePriorityBase \<le> plic_claim_addr k \<and> plic_claim_addr k < kPendingBase)"
    and "\<not> (kPendingBase \<le> plic_claim_addr k \<and> plic_claim_addr k < 0x1080)"
    and "\<not> (kEnableBase \<le> plic_claim_addr k \<and> plic_claim_addr k < 0x1f2000)"
    and "kContextBase \<le> plic_claim_addr k \<and> plic_claim_addr k \<le> kContextEnd"
    and "unat ((plic_claim_addr k - kContextBase) div kContextBytesPerHart) = unat k"
    and "plic_claim_addr k mod kContextBytesPerHart = 4"
proof -
  have a: "unat (plic_claim_addr k) = 0x200004 + unat k * 0x1000"
    using assms
    by (simp add: plic_claim_addr_def kContextBase_def kContextBytesPerHart_def unat_word_ariths)
  show "\<not> (kSourcePriorityBase \<le> plic_claim_addr k \<and> plic_claim_addr k < kPendingBase)"
    and "\<not> (kPendingBase \<le> plic_claim_addr k \<and> plic_claim_addr k < 0x1080)"
    and "\<not> (kEnableBase \<le> plic_claim_addr k \<and> plic_claim_addr k < 0x1f2000)"
    and "kContextBase \<le> plic_claim_addr k \<and> plic_claim_addr k \<le> kContextEnd"
    using assms by (simp_all add: word_less_nat_alt word_le_nat_alt a const_defs)
  have "unat (plic_claim_addr k - kContextBase) = unat k * 0x1000 + 4"
    by (simp add: unat_sub word_le_nat_alt a const_defs)
  then show "unat ((plic_claim_addr k - kContextBase) div kContextBytesPerHart) = unat k"
    by (simp add: unat_div kContextBytesPerHart_def)
  have "(0x200004 + m * 0x1000) mod 0x1000 = (4 :: nat)" for m
    by simp
  then show "plic_claim_addr k mod kContextBytesPerHart = 4"
    by (simp add: word_unat_eq_iff unat_mod a kContextBytesPerHart_def)
qed


text \<open>Reading the claim register hands out the selected source and marks it claimed.\<close>

lemma Plic_Load_claim:
  assumes "plic_wf p" and "unat k < length (plic_contexts p)" and "unat k < 15872"
  defines "c \<equiv> plic_contexts p ! unat k"
  shows "Plic_Load p (plic_claim_addr k) 4 =
    Done (le_bytes 4 (ctx_claim c), p\<lparr>plic_contexts := (plic_contexts p)[unat k :=
      c\<lparr>ctx_claimed := (ctx_claimed c)[unat (ctx_claim c) div 32 :=
         (ctx_claimed c ! (unat (ctx_claim c) div 32)) OR push_bit (unat (ctx_claim c) mod 32) 1]\<rparr>]\<rparr>)"
proof -
  note region = plic_claim_addr_facts [OF assms(3)]
  have lens: "unat (ctx_claim c) div kWordBits < length (ctx_claimed c)"
    using plic_ctx_lengths [OF assms(1), of "unat k"] assms(2) by (simp add: c_def)
  have claim: "copy_out [ctx_claim c] 0 4 = Done (le_bytes 4 (ctx_claim c))"
    using copy_out_u32 [of 0 "[ctx_claim c]"] by simp
  have "\<not> length (plic_contexts p) \<le> unat k" using assms(2) by simp
  with lens claim show ?thesis
    unfolding Plic_Load_def if_not_P [OF region(1)] if_not_P [OF region(2)] if_not_P [OF region(3)]
      if_P [OF region(4)] region(5,6) c_def [symmetric]
    by (simp add: Let_def c_def [symmetric] kWordBits_def)
qed

text \<open>Writing a source number to it completes the source.\<close>

lemma Plic_Store_complete:
  assumes "plic_wf p" and "unat k < length (plic_contexts p)" and "unat k < 15872"
    and "ucast (v :: u32) < plic_dev_num p"
  defines "c \<equiv> plic_contexts p ! unat k"
  shows "Plic_Store p (plic_claim_addr k) 4 (le_bytes 4 v) =
    Done (p\<lparr>plic_contexts := (plic_contexts p)[unat k :=
      c\<lparr>ctx_claimed := (ctx_claimed c)[unat v div 32 :=
         (ctx_claimed c ! (unat v div 32)) AND NOT (push_bit (unat v mod 32) 1)]\<rparr>]\<rparr>)"
proof -
  note region = plic_claim_addr_facts [OF assms(3)]
  have v: "le_word (le_bytes 4 v) = v"
    using le_word_le_bytes [of 4 v] by (simp add: take_bit_word_eq_self)
  have ok: "\<not> plic_dev_num p - 1 < ucast v"
    using assms(4) by (simp add: word_less_nat_alt unat_sub word_le_nat_alt)
  with plic_source_index [OF assms(1)] plic_ctx_lengths [OF assms(1), of "unat k"] assms(2)
  have i: "unat v div kWordBits < length (ctx_claimed c)" by (simp add: c_def)
  have "\<not> length (plic_contexts p) \<le> unat k" using assms(2) by simp
  with v ok i show ?thesis
    unfolding Plic_Store_def if_not_P [OF region(1)] if_not_P [OF region(2)] if_not_P [OF region(3)]
      if_P [OF region(4)] region(5,6) c_def [symmetric]
    by (simp add: Let_def c_def [symmetric] kWordBits_def)
qed

text \<open>
  Between the two the source is not offered to that context again, and completing it makes
  it eligible exactly if it is pending, enabled and not below the threshold.
\<close>

lemma claimed_not_eligible:
  assumes "plic_wf p" and "unat k < length (plic_contexts p)" and "unat k < 15872"
    and "Plic_Load p (plic_claim_addr k) 4 = Done (bs, p')"
  shows "\<not> plic_eligible p' (plic_contexts p' ! unat k) (unat (ctx_claim (plic_contexts p ! unat k)))"
proof -
  have "unat (ctx_claim (plic_contexts p ! unat k)) div 32 <
      length (ctx_claimed (plic_contexts p ! unat k))"
    using plic_ctx_lengths [OF assms(1), of "unat k"] assms(2) by (simp add: kWordBits_def)
  then show ?thesis
    using assms by (auto simp: Plic_Load_claim plic_eligible_bits bit_simps)
qed

lemma completed_eligible:
  assumes "plic_wf p" and "unat k < length (plic_contexts p)" and "unat k < 15872"
    and "ucast (v :: u32) < plic_dev_num p"
    and "Plic_Store p (plic_claim_addr k) 4 (le_bytes 4 v) = Done p'"
  shows "plic_eligible p' (plic_contexts p' ! unat k) (unat v) \<longleftrightarrow>
    ctx_threshold (plic_contexts p ! unat k) \<le> plic_priority p ! unat v \<and>
    bit (plic_pending p ! (unat v div 32)) (unat v mod 32) \<and>
    bit (ctx_enable (plic_contexts p ! unat k) ! (unat v div 32)) (unat v mod 32)"
proof -
  have "\<not> plic_dev_num p - 1 < ucast v"
    using assms(4) by (simp add: word_less_nat_alt unat_sub word_le_nat_alt)
  from plic_source_index [OF assms(1) this] plic_ctx_lengths [OF assms(1), of "unat k"] assms(2)
  have "unat v div 32 < length (ctx_claimed (plic_contexts p ! unat k))"
    by (simp add: kWordBits_def)
  then show ?thesis
    using assms by (auto simp: Plic_Store_complete plic_eligible_bits bit_simps)
qed

section \<open>Properties\<close>

text \<open>C24: The interrupt query reports the eligible source with the highest positive priority (the
  lowest number among equals) and latches it in the context's claim register; it reports
  nothing only if no eligible source has a positive priority or source 0 wins.\<close>

theorem plic_selection:
  assumes "plic_wf p" and "unat ctx < length (plic_contexts p)"
  shows "\<exists>fired p'. GetInterrupt ctx p = Done (fired, p') \<and> plic_wf p' \<and>
    (let c = plic_contexts p ! unat ctx; n = unat (plic_dev_num p);
         s = unat (ctx_claim (plic_contexts p' ! unat ctx))
     in (fired \<longrightarrow> s \<noteq> 0 \<and> plic_best p c n s) \<and>
        (\<not> fired \<longrightarrow> s = 0 \<and>
           (plic_best p c n 0 \<or> (\<forall>i < n. plic_eligible p c i \<longrightarrow> plic_priority p ! i = 0))))"
proof (rule GetInterrupt_cases [OF assms])
  let ?c = "plic_contexts p ! unat ctx"
  fix s
  assume s: "s < 1024"
    and eq: "GetInterrupt ctx p = Done (s \<noteq> 0, p\<lparr>plic_contexts := (plic_contexts p)
           [unat ctx := ?c\<lparr>ctx_claim := of_nat s\<rparr>]\<rparr>)"
    and best: "plic_best p ?c (unat (plic_dev_num p)) s \<or>
         s = 0 \<and> (\<forall>i < unat (plic_dev_num p). plic_eligible p ?c i \<longrightarrow> plic_priority p ! i = 0)"
  have u: "unat (of_nat s :: u32) = s" using s by (simp add: unsigned_of_nat take_bit_eq_mod)
  have "ctx_wf (?c\<lparr>ctx_claim := of_nat s\<rparr>)"
    using plic_wf_ctx [OF assms] s u by (simp add: ctx_wf_def)
  then have "plic_wf (p\<lparr>plic_contexts := (plic_contexts p)[unat ctx := ?c\<lparr>ctx_claim := of_nat s\<rparr>]\<rparr>)"
    by (rule plic_wf_context_update [OF assms(1)])
  with eq best u assms(2) show ?thesis by (auto simp: Let_def)
qed

definition plic_example :: plic where
  "plic_example = (Plic 1 True 2)
     \<lparr>plic_priority := (replicate 1024 0)[1 := 5, 2 := 7], plic_pending := (replicate 32 0)[0 := 6],
      plic_contexts := replicate 2 (PlicContext_default\<lparr>ctx_enable := (replicate 32 0)[0 := 2]\<rparr>)\<rparr>"

lemma plic_example_wf: "plic_wf plic_example"
  "unat (0 :: u64) < length (plic_contexts plic_example)"
  by (simp_all add: plic_example_def plic_wf_def Plic_def ctx_wf_def PlicContext_default_def list_all_iff)

theorem plic_selection_witness:
  "\<exists>p'. GetInterrupt 0 plic_example = Done (True, p')"
proof -
  have n: "unat (plic_dev_num plic_example) = 3" by (simp add: plic_example_def Plic_def)
  have e: "plic_eligible plic_example (plic_contexts plic_example ! 0) 1" "plic_priority plic_example ! 1 = 5"
    and e0: "\<not> plic_eligible plic_example (plic_contexts plic_example ! 0) 0"
    by (simp_all add: plic_example_def plic_eligible_bits PlicContext_default_def)
  from plic_selection [OF plic_example_wf] obtain fired p' where p': "GetInterrupt 0 plic_example = Done (fired, p')"
    and "\<not> fired \<longrightarrow> plic_best plic_example (plic_contexts plic_example ! 0) 3 0 \<or>
      (\<forall>i < 3. plic_eligible plic_example (plic_contexts plic_example ! 0) i \<longrightarrow>
        plic_priority plic_example ! i = 0)"
    unfolding n by (auto simp: Let_def)
  with e e0 have fired by (auto simp: plic_best_def)
  with p' show ?thesis by auto
qed

text \<open>C25: The claim/complete handshake of a context: a four-byte read of the claim register
  delivers the latched source and hides it from the context; writing the source back makes it
  eligible again exactly if it is pending, enabled and not below the threshold.\<close>

theorem plic_handshake:
  assumes "plic_wf p" and "unat k < length (plic_contexts p)" and "unat k < 15872"
    and "ucast (ctx_claim (plic_contexts p ! unat k)) < plic_dev_num p"
  defines "c \<equiv> plic_contexts p ! unat k"
  shows "\<exists>p1 p2. Plic_Load p (plic_claim_addr k) 4 = Done (le_bytes 4 (ctx_claim c), p1) \<and>
    \<not> plic_eligible p1 (plic_contexts p1 ! unat k) (unat (ctx_claim c)) \<and>
    Plic_Store p1 (plic_claim_addr k) 4 (le_bytes 4 (ctx_claim c)) = Done p2 \<and>
    (plic_eligible p2 (plic_contexts p2 ! unat k) (unat (ctx_claim c)) \<longleftrightarrow>
       ctx_threshold c \<le> plic_priority p ! unat (ctx_claim c) \<and>
       bit (plic_pending p ! (unat (ctx_claim c) div 32)) (unat (ctx_claim c) mod 32) \<and>
       bit (ctx_enable c ! (unat (ctx_claim c) div 32)) (unat (ctx_claim c) mod 32))"
proof -
  obtain p1 where p1: "Plic_Load p (plic_claim_addr k) 4 = Done (le_bytes 4 (ctx_claim c), p1)"
    and p1_eq: "p1 = p\<lparr>plic_contexts := (plic_contexts p)[unat k :=
      c\<lparr>ctx_claimed := (ctx_claimed c)[unat (ctx_claim c) div 32 :=
         (ctx_claimed c ! (unat (ctx_claim c) div 32)) OR push_bit (unat (ctx_claim c) mod 32) 1]\<rparr>]\<rparr>"
    using Plic_Load_claim [OF assms(1-3)] by (simp add: c_def)
  from assms(1) p1 have wf1: "plic_wf p1" by (rule plic.load_wf)
  have k1: "unat k < length (plic_contexts p1)" "plic_dev_num p1 = plic_dev_num p"
    using assms(2) by (simp_all add: p1_eq)
  with assms(4) have v: "ucast (ctx_claim c) < plic_dev_num p1" by (simp add: c_def)
  from Plic_Store_complete [OF wf1 k1(1) assms(3) v]
  obtain p2 where p2: "Plic_Store p1 (plic_claim_addr k) 4 (le_bytes 4 (ctx_claim c)) = Done p2" by blast
  from completed_eligible [OF wf1 k1(1) assms(3) v p2] assms(2)
  have "plic_eligible p2 (plic_contexts p2 ! unat k) (unat (ctx_claim c)) \<longleftrightarrow>
       ctx_threshold c \<le> plic_priority p ! unat (ctx_claim c) \<and>
       bit (plic_pending p ! (unat (ctx_claim c) div 32)) (unat (ctx_claim c) mod 32) \<and>
       bit (ctx_enable c ! (unat (ctx_claim c) div 32)) (unat (ctx_claim c) mod 32)"
    by (simp add: p1_eq)
  with p1 p2 claimed_not_eligible [OF assms(1-3) p1] show ?thesis by (auto simp: c_def)
qed

theorem plic_handshake_witness:
  "\<exists>p1 p2. Plic_Load plic_example (plic_claim_addr 0) 4 = Done (le_bytes 4 (0 :: u32), p1) \<and>
    Plic_Store p1 (plic_claim_addr 0) 4 (le_bytes 4 (0 :: u32)) = Done p2"
proof -
  have claim: "ctx_claim (plic_contexts plic_example ! unat (0 :: u64)) = 0"
    and v: "ucast (ctx_claim (plic_contexts plic_example ! unat (0 :: u64))) < plic_dev_num plic_example"
    by (simp_all add: plic_example_def Plic_def PlicContext_default_def)
  from plic_handshake [OF plic_example_wf _ v] show ?thesis unfolding claim by auto
qed

end
