(* ===== verification/Bus.thy ===== *)
theory Bus
  imports Dram Clint Uart Plic
begin

text \<open>
  The system bus (\<^verbatim>\<open>include/device/bus.h\<close>, \<^verbatim>\<open>src/device/bus.cc\<close>): up to sixteen mounted
  devices, each at a base address with a size, found by a linear search. The virtual call
  through \<^verbatim>\<open>MmioDevice*\<close> is a case distinction over the four device classes.

  The bus is itself a memory-mapped device: the interpretation \<open>bus\<close> derives its contract
  from the contracts of the mounted devices. The lemmas after it show that a lookup finds
  exactly the node whose range holds the address, that an access changes no other node, and
  that main memory behind the bus reads back what was stored.
\<close>

section \<open>The mounted devices\<close>

datatype device = DevDram dram | DevClint clint | DevUart uart | DevPlic plic

fun device_Load :: "device \<Rightarrow> u64 \<Rightarrow> u64 \<Rightarrow> (u8 list \<times> device) io" where
  "device_Load (DevDram d) addr bytes = map_io (map_prod id DevDram) (Dram_Load d addr bytes)"
| "device_Load (DevClint c) addr bytes = map_io (map_prod id DevClint) (Clint_Load c addr bytes)"
| "device_Load (DevUart u) addr bytes = map_io (map_prod id DevUart) (Uart_Load u addr bytes)"
| "device_Load (DevPlic p) addr bytes = map_io (map_prod id DevPlic) (Plic_Load p addr bytes)"

fun device_Store :: "device \<Rightarrow> u64 \<Rightarrow> u64 \<Rightarrow> u8 list \<Rightarrow> device io" where
  "device_Store (DevDram d) addr bytes buffer = map_io DevDram (Dram_Store d addr bytes buffer)"
| "device_Store (DevClint c) addr bytes buffer = map_io DevClint (Clint_Store c addr bytes buffer)"
| "device_Store (DevUart u) addr bytes buffer = map_io DevUart (Uart_Store u addr bytes buffer)"
| "device_Store (DevPlic p) addr bytes buffer = map_io DevPlic (Plic_Store p addr bytes buffer)"

fun device_Reset :: "u64 \<Rightarrow> device \<Rightarrow> device" where
  "device_Reset t (DevDram d) = DevDram (Dram_Reset d)"
| "device_Reset t (DevClint c) = DevClint (Clint_Reset t c)"
| "device_Reset t (DevUart u) = DevUart (Uart_Reset u)"
| "device_Reset t (DevPlic p) = DevPlic (Plic_Reset p)"

fun device_wf :: "device \<Rightarrow> bool" where
  "device_wf (DevDram d) = dram_wf d"
| "device_wf (DevClint c) = clint_wf c"
| "device_wf (DevUart u) = True"
| "device_wf (DevPlic p) = plic_wf p"

fun device_width :: "device \<Rightarrow> nat" where
  "device_width (DevPlic p) = 4"
| "device_width _ = 8"

fun device_need :: "device \<Rightarrow> nat" where
  "device_need (DevPlic p) = 4"
| "device_need _ = 0"

lemma device_Load_safe:
  assumes "device_wf d" and "unat a < 2 ^ 32" and "unat n \<le> device_width d"
  shows "device_Load d a n \<noteq> Stray"
proof (cases d)
  case (DevDram x)
  with assms dram.load_safe [of x a n] show ?thesis by simp
next
  case (DevClint x)
  with assms clint.load_safe [of x a n] show ?thesis by simp
next
  case (DevUart x)
  with assms uart.load_safe [of a n x] show ?thesis by simp
next
  case (DevPlic x)
  with assms plic.load_safe [of x a n] show ?thesis by simp
qed

lemma device_Store_safe:
  assumes "device_wf d" and "unat a < 2 ^ 32" and "unat n \<le> device_width d"
    and "unat n \<le> length buf" and "device_need d \<le> length buf"
  shows "device_Store d a n buf \<noteq> Stray"
proof (cases d)
  case (DevDram x)
  with assms dram.store_safe [of x a n buf] show ?thesis by simp
next
  case (DevClint x)
  with assms clint.store_safe [of x a n buf] show ?thesis by simp
next
  case (DevUart x)
  with assms uart.store_safe [of a n buf x] show ?thesis by simp
next
  case (DevPlic x)
  with assms plic.store_safe [of x a n buf] show ?thesis by simp
qed

interpretation device: mmio_device device_Load device_Store device_Reset device_wf device_width device_need
proof (unfold_locales, goal_cases)
  case (1 d a n bs d')
  then show ?case
    by (cases d) (auto simp: map_io_eq_Done dest: dram.load_wf clint.load_wf plic.load_wf)
next
  case (2 d a n bs d')
  then show ?case
    by (cases d) (auto simp: map_io_eq_Done dest: dram.load_length clint.load_length
        uart.load_length [OF TrueI] plic.load_length)
next
  case (3 d a n bs d')
  then show ?case by (cases d) (auto simp: map_io_eq_Done)
next
  case (4 d a n buf d')
  then show ?case
    by (cases d) (auto simp: map_io_eq_Done dest: dram.store_wf clint.store_wf plic.store_wf)
next
  case (5 d a n buf d')
  then show ?case by (cases d) (auto simp: map_io_eq_Done)
next
  case (6 d t)
  then show ?case
    by (cases d) (auto intro: dram.reset_wf clint.reset_wf plic.reset_wf)
next
  case (7 d a n)
  then show ?case by (rule device_Load_safe)
next
  case (8 d a n buf)
  then show ?case by (rule device_Store_safe)
qed

section \<open>The bus\<close>

record MmioDeviceNode =
  node_base :: u64
  node_size :: u64
  node_dev :: device

record bus =
  bus_device :: "MmioDeviceNode list"

definition kMaxMmioDevicesNum :: nat where [const_defs]: "kMaxMmioDevicesNum = 16"

definition Bus :: bus where
  "Bus = \<lparr>bus_device = []\<rparr>"

definition MountDevice :: "MmioDeviceNode \<Rightarrow> bus \<Rightarrow> bus io" where
  "MountDevice node b =
     (if length (bus_device b) < kMaxMmioDevicesNum
      then Done (b\<lparr>bus_device := bus_device b @ [node]\<rparr>) else Stray)"

definition node_holds :: "MmioDeviceNode \<Rightarrow> u64 \<Rightarrow> bool" where
  "node_holds nd addr \<longleftrightarrow> node_base nd \<le> addr \<and> addr < node_base nd + node_size nd"

text \<open>The lookup returns the index of the first node that holds the address, or none (-1).\<close>

fun find_node :: "nat \<Rightarrow> MmioDeviceNode list \<Rightarrow> u64 \<Rightarrow> nat option" where
  "find_node i [] addr = None"
| "find_node i (nd # nds) addr =
     (if node_holds nd addr then Some i else find_node (Suc i) nds addr)"

definition GetDeviceByRange :: "bus \<Rightarrow> u64 \<Rightarrow> nat option" where
  "GetDeviceByRange b addr = find_node 0 (bus_device b) addr"

definition set_dev :: "nat \<Rightarrow> device \<Rightarrow> bus \<Rightarrow> bus" where
  "set_dev i d b = b\<lparr>bus_device := (bus_device b)[i := (bus_device b ! i)\<lparr>node_dev := d\<rparr>]\<rparr>"

definition Bus_Load :: "bus \<Rightarrow> u64 \<Rightarrow> u64 \<Rightarrow> (u8 list \<times> bus) io" where
  "Bus_Load b addr bytes =
     (case GetDeviceByRange b addr of
        None \<Rightarrow> Fail
      | Some kDevIndex \<Rightarrow>
          let kDevNode = bus_device b ! kDevIndex
          in map_io (\<lambda>(bs, d). (bs, set_dev kDevIndex d b))
               (device_Load (node_dev kDevNode) (addr - node_base kDevNode) bytes))"

definition Bus_Store :: "bus \<Rightarrow> u64 \<Rightarrow> u64 \<Rightarrow> u8 list \<Rightarrow> bus io" where
  "Bus_Store b addr bytes buffer =
     (case GetDeviceByRange b addr of
        None \<Rightarrow> Fail
      | Some kDevIndex \<Rightarrow>
          let kDevNode = bus_device b ! kDevIndex
          in map_io (\<lambda>d. set_dev kDevIndex d b)
               (device_Store (node_dev kDevNode) (addr - node_base kDevNode) bytes buffer))"

definition Bus_Reset :: "u64 \<Rightarrow> bus \<Rightarrow> bus" where
  "Bus_Reset t b =
     b\<lparr>bus_device := map (\<lambda>nd. nd\<lparr>node_dev := device_Reset t (node_dev nd)\<rparr>) (bus_device b)\<rparr>"

text \<open>
  The invariant: every mounted device keeps its own, and no mapping is larger than the
  32-bit offset the device contracts speak about.
\<close>

definition node_wf :: "MmioDeviceNode \<Rightarrow> bool" where
  "node_wf nd \<longleftrightarrow> device_wf (node_dev nd) \<and> unat (node_size nd) \<le> 2 ^ 32"

definition bus_wf :: "bus \<Rightarrow> bool" where
  "bus_wf b \<longleftrightarrow> list_all node_wf (bus_device b)"

definition bus_width :: "bus \<Rightarrow> nat" where
  "bus_width b = foldr min (map (device_width \<circ> node_dev) (bus_device b)) 8"

definition bus_need :: "bus \<Rightarrow> nat" where
  "bus_need b = foldr max (map (device_need \<circ> node_dev) (bus_device b)) 0"

subsection \<open>Lookup\<close>

lemma find_node_Some:
  "find_node k nds a = Some i \<longleftrightarrow>
     k \<le> i \<and> i < k + length nds \<and> node_holds (nds ! (i - k)) a \<and>
     (\<forall>j < i - k. \<not> node_holds (nds ! j) a)"
proof (induction nds arbitrary: k)
  case Nil
  then show ?case by auto
next
  case (Cons nd nds)
  show ?case
  proof (cases "node_holds nd a")
    case True
    then show ?thesis by (auto simp: nth_Cons' le_less)
  next
    case False
    show ?thesis
    proof (cases "Suc k \<le> i")
      case le: True
      then have "i - k = Suc (i - Suc k)" by simp
      with False le show ?thesis by (auto simp: Cons.IH All_less_Suc2)
    next
      case le: False
      with False Cons.IH [of "Suc k"] show ?thesis by (cases "i = k") auto
    qed
  qed
qed

lemma find_node_None: "find_node k nds a = None \<longleftrightarrow> (\<forall>nd \<in> set nds. \<not> node_holds nd a)"
  by (induction nds arbitrary: k) auto

lemma GetDeviceByRange_Some:
  "GetDeviceByRange b a = Some i \<longleftrightarrow>
     i < length (bus_device b) \<and> node_holds (bus_device b ! i) a \<and>
     (\<forall>j < i. \<not> node_holds (bus_device b ! j) a)"
  by (auto simp: GetDeviceByRange_def find_node_Some)

lemma GetDeviceByRange_None:
  "GetDeviceByRange b a = None \<longleftrightarrow> (\<forall>nd \<in> set (bus_device b). \<not> node_holds nd a)"
  by (simp add: GetDeviceByRange_def find_node_None)

text \<open>The end of a range is computed modulo 2 ^ 64; a range that wraps holds no address.\<close>

lemma node_holds_offset:
  assumes "node_holds nd a"
  shows "unat (a - node_base nd) < unat (node_size nd)"
proof -
  from assms have le: "unat (node_base nd) \<le> unat a"
    and lt: "unat a < unat (node_base nd + node_size nd)"
    by (auto simp: node_holds_def word_le_nat_alt word_less_nat_alt)
  have "unat (node_base nd + node_size nd) \<le> unat (node_base nd) + unat (node_size nd)"
    by (simp add: unat_word_ariths)
  with le lt show ?thesis by (simp add: unat_sub word_le_nat_alt)
qed

lemma set_dev_nth:
  "i < length (bus_device b) \<Longrightarrow>
   bus_device (set_dev i d b) ! j =
     (if j = i then (bus_device b ! i)\<lparr>node_dev := d\<rparr> else bus_device b ! j)"
  "length (bus_device (set_dev i d b)) = length (bus_device b)"
  by (auto simp: set_dev_def)

lemma node_holds_dev [simp]: "node_holds (nd\<lparr>node_dev := d\<rparr>) a = node_holds nd a"
  by (simp add: node_holds_def)

lemma GetDeviceByRange_set_dev [simp]:
  "GetDeviceByRange (set_dev i d b) a = GetDeviceByRange b a"
proof -
  have "find_node k (nds[i := (nds ! i)\<lparr>node_dev := d\<rparr>]) a = find_node k nds a" for k i nds
  proof (induction nds arbitrary: k i)
    case (Cons nd nds)
    then show ?case by (cases i) auto
  qed simp
  then show ?thesis by (simp add: GetDeviceByRange_def set_dev_def)
qed


text \<open>What is mounted where, and the dimensions of the devices, do not change.\<close>

datatype device_class = ClassDram u64 | ClassClint u64 | ClassUart | ClassPlic nat u64

fun class_of :: "device \<Rightarrow> device_class" where
  "class_of (DevDram d) = ClassDram (dram_size d)"
| "class_of (DevClint c) = ClassClint (clint_harts c)"
| "class_of (DevUart _) = ClassUart"
| "class_of (DevPlic p) = ClassPlic (length (plic_contexts p)) (plic_dev_num p)"

type_synonym bus_shape = "(u64 \<times> u64 \<times> device_class) list"

definition shape_of :: "bus \<Rightarrow> bus_shape" where
  "shape_of b = map (\<lambda>nd. (node_base nd, node_size nd, class_of (node_dev nd))) (bus_device b)"

lemma shape_set_dev:
  "class_of d = class_of (node_dev (bus_device b ! i)) \<Longrightarrow> shape_of (set_dev i d b) = shape_of b"
  by (cases "i < length (bus_device b)")
    (auto simp: shape_of_def set_dev_def list_update_beyond nth_list_update intro!: nth_equalityI)

lemma class_Load: "device_Load d a n = Done (bs, d') \<Longrightarrow> class_of d' = class_of d"
  by (cases d)
    (auto simp: map_io_eq_Done Let_def Dram_Load_def Clint_Load_def Plic_Load_def split: if_splits io.splits)

lemma class_Store: "device_Store d a n buf = Done d' \<Longrightarrow> class_of d' = class_of d"
  by (cases d)
    (auto simp: map_io_eq_Done Let_def Dram_Store_def Clint_Store_def Plic_Store_def split: if_splits io.splits)

lemma class_Reset [simp]: "class_of (device_Reset ts d) = class_of d"
  by (cases d) (simp_all add: Dram_Reset_def Clint_Reset_def Plic_Reset_def)

lemma shape_Load: "Bus_Load b a n = Done (bs, b') \<Longrightarrow> shape_of b' = shape_of b"
  by (auto simp: Bus_Load_def Let_def map_io_eq_Done shape_set_dev class_Load split: option.splits)

lemma shape_Store: "Bus_Store b a n buf = Done b' \<Longrightarrow> shape_of b' = shape_of b"
  by (auto simp: Bus_Store_def Let_def map_io_eq_Done shape_set_dev class_Store split: option.splits)

lemma shape_Reset [simp]: "shape_of (Bus_Reset ts b) = shape_of b"
  by (simp add: shape_of_def Bus_Reset_def)

subsection \<open>The bus as a device\<close>

lemma bus_width_le: "i < length (bus_device b) \<Longrightarrow> bus_width b \<le> device_width (node_dev (bus_device b ! i))"
proof -
  have "nd \<in> set nds \<Longrightarrow> foldr min (map (device_width \<circ> node_dev) nds) 8 \<le> device_width (node_dev nd)"
    for nd nds by (induction nds) auto
  from this [OF nth_mem] show "i < length (bus_device b) \<Longrightarrow> ?thesis" by (simp only: bus_width_def)
qed

lemma bus_need_le: "i < length (bus_device b) \<Longrightarrow> device_need (node_dev (bus_device b ! i)) \<le> bus_need b"
proof -
  have "nd \<in> set nds \<Longrightarrow> device_need (node_dev nd) \<le> foldr max (map (device_need \<circ> node_dev) nds) 0"
    for nd nds by (induction nds) auto
  from this [OF nth_mem] show "i < length (bus_device b) \<Longrightarrow> ?thesis" by (simp only: bus_need_def)
qed

lemma bus_kind_set_dev:
  assumes "device_width d = device_width (node_dev (bus_device b ! i))"
    and "device_need d = device_need (node_dev (bus_device b ! i))"
  shows "bus_width (set_dev i d b) = bus_width b \<and> bus_need (set_dev i d b) = bus_need b"
proof (cases "i < length (bus_device b)")
  case True
  have "map (f \<circ> node_dev) (bus_device (set_dev i d b)) = map (f \<circ> node_dev) (bus_device b)"
    if "f d = f (node_dev (bus_device b ! i))" for f :: "device \<Rightarrow> nat"
    using True that by (auto intro!: nth_equalityI simp: set_dev_nth)
  with assms show ?thesis unfolding bus_width_def bus_need_def by simp
next
  case False
  then show ?thesis by (simp add: set_dev_def bus_width_def bus_need_def list_update_beyond)
qed

lemma bus_wf_set_dev:
  "bus_wf b \<Longrightarrow> i < length (bus_device b) \<Longrightarrow> device_wf d \<Longrightarrow> bus_wf (set_dev i d b)"
  by (auto simp: bus_wf_def set_dev_def list_all_length node_wf_def nth_list_update)

lemma bus_wf_node:
  "bus_wf b \<Longrightarrow> i < length (bus_device b) \<Longrightarrow>
   device_wf (node_dev (bus_device b ! i)) \<and> unat (node_size (bus_device b ! i)) \<le> 2 ^ 32"
  by (simp add: bus_wf_def list_all_length node_wf_def)

lemma Bus_Load_DoneE:
  assumes "Bus_Load b a n = Done (bs, b')"
  obtains i d where "GetDeviceByRange b a = Some i" and "i < length (bus_device b)"
    and "device_Load (node_dev (bus_device b ! i)) (a - node_base (bus_device b ! i)) n = Done (bs, d)"
    and "b' = set_dev i d b"
  using assms
  by (auto simp: Bus_Load_def Let_def map_io_eq_Done GetDeviceByRange_Some split: option.splits)

lemma Bus_Store_DoneE:
  assumes "Bus_Store b a n buf = Done b'"
  obtains i d where "GetDeviceByRange b a = Some i" and "i < length (bus_device b)"
    and "device_Store (node_dev (bus_device b ! i)) (a - node_base (bus_device b ! i)) n buf = Done d"
    and "b' = set_dev i d b"
  using assms
  by (auto simp: Bus_Store_def Let_def map_io_eq_Done GetDeviceByRange_Some split: option.splits)

lemma bus_offset:
  assumes "bus_wf b" and "GetDeviceByRange b a = Some i"
  shows "device_wf (node_dev (bus_device b ! i))"
    and "unat (a - node_base (bus_device b ! i)) < 2 ^ 32"
proof -
  from assms(2) have i: "i < length (bus_device b)" and h: "node_holds (bus_device b ! i) a"
    by (simp_all add: GetDeviceByRange_Some)
  from bus_wf_node [OF assms(1) i] show "device_wf (node_dev (bus_device b ! i))" by simp
  from bus_wf_node [OF assms(1) i] node_holds_offset [OF h]
  show "unat (a - node_base (bus_device b ! i)) < 2 ^ 32" by linarith
qed

text \<open>An access through the bus is memory safe at every 64-bit address.\<close>

lemma Bus_Load_safe:
  assumes "bus_wf b" and "unat n \<le> bus_width b"
  shows "Bus_Load b a n \<noteq> Stray"
proof (cases "GetDeviceByRange b a")
  case (Some i)
  then have "i < length (bus_device b)" by (simp add: GetDeviceByRange_Some)
  with device_Load_safe [OF bus_offset [OF assms(1) Some], of n] bus_width_le [of i b] assms(2)
  show ?thesis by (simp add: Bus_Load_def Some Let_def)
qed (simp add: Bus_Load_def)

lemma Bus_Store_safe:
  assumes "bus_wf b" and "unat n \<le> bus_width b" and "unat n \<le> length buf" and "bus_need b \<le> length buf"
  shows "Bus_Store b a n buf \<noteq> Stray"
proof (cases "GetDeviceByRange b a")
  case (Some i)
  then have "i < length (bus_device b)" by (simp add: GetDeviceByRange_Some)
  with device_Store_safe [OF bus_offset [OF assms(1) Some], of n buf] bus_width_le [of i b]
    bus_need_le [of i b] assms(2-)
  show ?thesis by (simp add: Bus_Store_def Some Let_def)
qed (simp add: Bus_Store_def)

lemma bus_wf_Load: "bus_wf b \<Longrightarrow> Bus_Load b a n = Done (bs, b') \<Longrightarrow> bus_wf b'"
  by (erule Bus_Load_DoneE) (auto intro!: bus_wf_set_dev dest: bus_wf_node device.load_wf)

lemma bus_wf_Store: "bus_wf b \<Longrightarrow> Bus_Store b a n buf = Done b' \<Longrightarrow> bus_wf b'"
  by (erule Bus_Store_DoneE) (auto intro!: bus_wf_set_dev dest: bus_wf_node device.store_wf)

interpretation bus: mmio_device Bus_Load Bus_Store Bus_Reset bus_wf bus_width bus_need
proof (unfold_locales, goal_cases)
  case (1 b a n bs b')
  then show ?case by (rule bus_wf_Load)
next
  case (2 b a n bs b')
  then show ?case
    by (auto elim!: Bus_Load_DoneE dest: bus_wf_node device.load_length)
next
  case (3 b a n bs b')
  then show ?case
    by (auto elim!: Bus_Load_DoneE dest!: bus_wf_node device.load_kind simp: bus_kind_set_dev)
next
  case (4 b a n buf b')
  then show ?case by (rule bus_wf_Store)
next
  case (5 b a n buf b')
  then show ?case
    by (auto elim!: Bus_Store_DoneE dest!: bus_wf_node device.store_kind simp: bus_kind_set_dev)
next
  case (6 b t)
  then show ?case
    by (auto simp: bus_wf_def Bus_Reset_def list_all_iff node_wf_def device.reset_wf)
next
  case (7 b a n)
  then show ?case by (simp add: Bus_Load_safe)
next
  case (8 b a n buf)
  then show ?case by (simp add: Bus_Store_safe)
qed

subsection \<open>Routing\<close>

text \<open>An access changes at most the node that holds the address.\<close>

lemma Bus_Store_other:
  assumes "Bus_Store b a n buf = Done b'" and "\<not> node_holds (bus_device b ! j) a"
  shows "bus_device b' ! j = bus_device b ! j"
  using assms by (auto elim!: Bus_Store_DoneE simp: set_dev_nth GetDeviceByRange_Some)

lemma Bus_Load_other:
  assumes "Bus_Load b a n = Done (bs, b')" and "\<not> node_holds (bus_device b ! j) a"
  shows "bus_device b' ! j = bus_device b ! j"
  using assms by (auto elim!: Bus_Load_DoneE simp: set_dev_nth GetDeviceByRange_Some)

text \<open>An access changes neither the number of nodes nor their ranges.\<close>

lemma set_dev_ranges:
  "map (\<lambda>nd. (node_base nd, node_size nd)) (bus_device (set_dev i d b)) =
   map (\<lambda>nd. (node_base nd, node_size nd)) (bus_device b)"
proof (cases "i < length (bus_device b)")
  case True
  then show ?thesis by (auto intro!: nth_equalityI simp: set_dev_nth)
next
  case False
  then show ?thesis by (simp add: set_dev_def list_update_beyond)
qed

text \<open>Main memory behind the bus: what was stored is read back, other bytes are untouched.\<close>

lemma Bus_dram_store_load:
  assumes "bus_wf b" and "GetDeviceByRange b a = Some i" and "node_dev (bus_device b ! i) = DevDram d"
    and "Bus_Store b a n buf = Done b'"
  shows "Bus_Load b' a n = Done (take (unat n) buf, b')"
proof -
  let ?off = "a - node_base (bus_device b ! i)"
  from assms(2) have i: "i < length (bus_device b)" by (simp add: GetDeviceByRange_Some)
  with assms(2-4) obtain d' where d': "Dram_Store d ?off n buf = Done d'"
    and b': "b' = set_dev i (DevDram d') b"
    by (auto elim!: Bus_Store_DoneE simp: map_io_eq_Done)
  from bus_wf_node [OF assms(1) i] assms(3) have "dram_wf d" by simp
  then have "Dram_Load d' ?off n = Done (take (unat n) buf, d')" using d' by (rule dram.store_load_same)
  then show ?thesis
    using i assms(2) by (simp add: Bus_Load_def b' set_dev_nth) (simp add: set_dev_def)
qed

section \<open>Properties\<close>

text \<open>C20: Whatever sequence of reads and writes the bus serves, no device is ever accessed outside
  its memory, as long as each access is at most as wide as the narrowest device register allows
  and each write has a buffer of the size the devices read: the run ends in a bus on which every
  device still keeps its invariant.\<close>

theorem bus_accesses_safe:
  assumes "bus_wf b" and "list_all (mmio_device.permitted bus_width bus_need b) xs"
  shows "\<exists>b'. mmio_device.accesses Bus_Load Bus_Store xs b = Done b' \<and> bus_wf b'"
  using assms by (rule bus.accesses_safe)

definition bus_example :: bus where
  "bus_example = \<lparr>bus_device =
     [\<lparr>node_base = 0x10000000, node_size = 0x1000, node_dev = DevUart Uart\<rparr>,
      \<lparr>node_base = 0x80000000, node_size = 4, node_dev = DevDram (DRAM 4)\<rparr>]\<rparr>"

lemma bus_example_wf: "bus_wf bus_example"
  by (simp add: bus_example_def bus_wf_def node_wf_def dram_wf_DRAM)

theorem bus_accesses_safe_witness:
  "\<exists>b'. mmio_device.accesses Bus_Load Bus_Store
     [Write 0x80000000 2 [1, 2, 3, 4], Read 0x80000000 2, Write 0x10000004 4 [65, 0, 0, 0]] bus_example = Done b'"
proof -
  have "bus_width bus_example = 8 \<and> bus_need bus_example = 0"
    by (simp add: bus_width_def bus_need_def bus_example_def)
  then show ?thesis
    using bus_accesses_safe [OF bus_example_wf,
      of "[Write 0x80000000 2 [1, 2, 3, 4], Read 0x80000000 2, Write 0x10000004 4 [65, 0, 0, 0]]"]
    by auto
qed



text \<open>Main memory behind the bus: a load of the address and width of the last store returns
  the stored bytes and changes nothing.\<close>

theorem bus_memory_roundtrip:
  assumes "bus_wf b" and "GetDeviceByRange b a = Some i" and "node_dev (bus_device b ! i) = DevDram d"
    and "Bus_Store b a n buf = Done b'"
  shows "Bus_Load b' a n = Done (take (unat n) buf, b')"
  using assms by (rule Bus_dram_store_load)

theorem bus_memory_roundtrip_witness:
  "\<exists>b'. Bus_Store bus_example 0x80000001 2 [7, 8] = Done b' \<and>
    Bus_Load b' 0x80000001 2 = Done ([7, 8], b')"
proof -
  have "\<exists>b'. Bus_Store bus_example 0x80000001 2 [7, 8] = Done b'"
    by (simp add: Bus_Store_def bus_example_def GetDeviceByRange_def node_holds_def Dram_Store_def
        DRAM_def copy_in_def)
  then obtain b' where b': "Bus_Store bus_example 0x80000001 2 [7, 8] = Done b'" by blast
  have r: "GetDeviceByRange bus_example 0x80000001 = Some 1" "node_dev (bus_device bus_example ! 1) = DevDram (DRAM 4)"
    by (simp_all add: bus_example_def GetDeviceByRange_def node_holds_def)
  from bus_memory_roundtrip [OF bus_example_wf r b'] b' show ?thesis by auto
qed

end
