(* ===== verification/Arith.thy ===== *)
theory Arith
  imports Rv_Prelude "HOL-Library.Signed_Division"
begin

text \<open>
  The arithmetic helpers (\<^verbatim>\<open>include/libs/arithmetic.h\<close>, \<^verbatim>\<open>src/libs/arithmetic.cc\<close>): the
  portable high half of an unsigned product, computed from four half-width products. It is
  shown to be the high half of the full product at every width the template admits.
\<close>

definition PortableMulUnsignedHi :: "'a::len word \<Rightarrow> 'a word \<Rightarrow> 'a word" where
  "PortableMulUnsignedHi a b =
     (let kTypeBits = LENGTH('a) div 2;
          low = take_bit kTypeBits;
          a_lo = low a; a_hi = drop_bit kTypeBits a;
          b_lo = low b; b_hi = drop_bit kTypeBits b;
          a_x_b_hi = a_hi * b_hi;
          a_x_b_mid = a_hi * b_lo;
          b_x_a_mid = b_hi * a_lo;
          a_x_b_lo = a_lo * b_lo;
          kCarryBit = drop_bit kTypeBits (low a_x_b_mid + low b_x_a_mid + drop_bit kTypeBits a_x_b_lo)
      in a_x_b_hi + drop_bit kTypeBits a_x_b_mid + drop_bit kTypeBits b_x_a_mid + kCarryBit)"

text \<open>
  On the hosts the sources name (\<^verbatim>\<open>umulh\<close>, \<^verbatim>\<open>mulq\<close>, \<^verbatim>\<open>mulhu\<close>) the wrapper is one machine
  instruction that delivers the high 64 bits of the 128-bit product; elsewhere it is the
  portable routine.
\<close>

definition MulUint64Hi :: "u64 \<Rightarrow> u64 \<Rightarrow> u64" where
  "MulUint64Hi a b = ucast (drop_bit 64 (ucast a * ucast b :: 128 word))"

text \<open>The schoolbook identity behind the routine.\<close>

lemma mul_high_split:
  fixes B :: nat
  assumes "B > 0"
  shows "(ah * B + al) * (bh * B + bl) div (B * B) =
    ah * bh + ah * bl div B + bh * al div B +
    ((ah * bl) mod B + (bh * al) mod B + al * bl div B) div B"
proof -
  have "(ah * B + al) * (bh * B + bl) = (ah * bh) * (B * B) + ((ah * bl + bh * al) * B + al * bl)"
    by (simp add: algebra_simps)
  then have "(ah * B + al) * (bh * B + bl) div (B * B) =
      ah * bh + ((ah * bl + bh * al) * B + al * bl) div (B * B)"
    using assms by simp
  also have "((ah * bl + bh * al) * B + al * bl) div (B * B) =
      (ah * bl + bh * al + al * bl div B) div B"
    using assms by (simp add: div_mult2_eq)
  also have "ah * bl + bh * al + al * bl div B =
      (ah * bl div B + bh * al div B) * B +
      ((ah * bl) mod B + (bh * al) mod B + al * bl div B)"
    by (simp add: algebra_simps)
  also have "\<dots> div B = ah * bl div B + bh * al div B +
      ((ah * bl) mod B + (bh * al) mod B + al * bl div B) div B"
    using assms by simp
  finally show ?thesis by simp
qed

lemma half_product:
  fixes B :: nat
  assumes "x < B" and "y < B"
  shows "x * y < B * B" and "x * y div B < B" and "x * y mod B < B"
proof -
  show *: "x * y < B * B" using assms by (intro mult_strict_mono) auto
  from * show "x * y div B < B" by (rule less_mult_imp_div_less)
  from assms show "x * y mod B < B" by auto
qed

lemma unat_mult_no_wrap:
  "unat (a :: 'a::len word) * unat b < 2 ^ LENGTH('a) \<Longrightarrow> unat (a * b) = unat a * unat b"
  by (simp add: unat_word_ariths)

lemma unat_plus_no_wrap:
  "unat (a :: 'a::len word) + unat b < 2 ^ LENGTH('a) \<Longrightarrow> unat (a + b) = unat a + unat b"
  by (simp add: unat_word_ariths)

lemma three_digits: "(B :: nat) \<ge> 4 \<Longrightarrow> x < B \<Longrightarrow> y < B \<Longrightarrow> z < B \<Longrightarrow> x + y + z < B * B"
  using mult_le_mono1 [of 4 B B] by linarith

lemma PortableMulUnsignedHi_unat:
  fixes a b :: "'a::len word"
  assumes even: "LENGTH('a) = 2 * n" and n: "2 \<le> n"
  shows "unat (PortableMulUnsignedHi a b) = unat a * unat b div 2 ^ LENGTH('a)"
proof -
  define B :: nat where "B = 2 ^ n"
  have W: "2 ^ LENGTH('a) = B * B" by (simp add: B_def even power_add mult_2)
  have B4: "B \<ge> 4" using n power_increasing [of 2 n "2 :: nat"] by (simp add: B_def)
  have half: "LENGTH('a) div 2 = n" using even by simp
  define al ah bl bh where "al = unat a mod B" and "ah = unat a div B"
    and "bl = unat b mod B" and "bh = unat b div B"
  note parts = al_def ah_def bl_def bh_def
  have lt: "al < B" "ah < B" "bl < B" "bh < B"
    using B4 unsigned_less [of a, where 'a = nat] unsigned_less [of b, where 'a = nat]
    by (auto simp: parts W intro!: less_mult_imp_div_less)
  have u: "unat (take_bit n a) = al" "unat (drop_bit n a) = ah"
    "unat (take_bit n b) = bl" "unat (drop_bit n b) = bh"
    by (simp_all add: unat_take_bit_mod unat_drop_bit_div parts B_def)
  have m: "unat (drop_bit n a * drop_bit n b) = ah * bh"
    "unat (drop_bit n a * take_bit n b) = ah * bl"
    "unat (drop_bit n b * take_bit n a) = bh * al"
    "unat (take_bit n a * take_bit n b) = al * bl"
    using half_product(1) [OF lt(2) lt(4)] half_product(1) [OF lt(2) lt(3)]
      half_product(1) [OF lt(4) lt(1)] half_product(1) [OF lt(1) lt(3)]
    by (simp_all add: unat_mult_no_wrap u W)
  define c where "c = (ah * bl) mod B + (bh * al) mod B + al * bl div B"
  have c: "c < B * B" unfolding c_def
    by (rule three_digits [OF B4 half_product(3) [OF lt(2) lt(3)] half_product(3) [OF lt(4) lt(1)]
          half_product(2) [OF lt(1) lt(3)]])
  have carry: "unat (take_bit n (drop_bit n a * take_bit n b) + take_bit n (drop_bit n b * take_bit n a)
      + drop_bit n (take_bit n a * take_bit n b)) = c"
    using c by (simp add: unat_plus_no_wrap unat_take_bit_mod unat_drop_bit_div m W c_def flip: B_def)
  have total: "ah * bh + ah * bl div B + bh * al div B + c div B = unat a * unat b div (B * B)"
  proof -
    have "unat a = ah * B + al" "unat b = bh * B + bl" by (simp_all add: parts)
    then show ?thesis using mul_high_split [of B ah al bh bl] B4 by (simp add: c_def)
  qed
  have "unat a * unat b < (B * B) * (B * B)"
    using half_product(1) [of "unat a" "B * B" "unat b"] unsigned_less [of a, where 'a = nat]
      unsigned_less [of b, where 'a = nat] by (simp add: W)
  then have "unat a * unat b div (B * B) < B * B" by (rule less_mult_imp_div_less)
  with total have bound: "ah * bh + ah * bl div B + bh * al div B + c div B < B * B" by simp
  from bound have "unat (PortableMulUnsignedHi a b) =
      ah * bh + ah * bl div B + bh * al div B + c div B"
    unfolding PortableMulUnsignedHi_def Let_def half
    by (simp add: unat_plus_no_wrap unat_drop_bit_div m carry W flip: B_def)
  with total show ?thesis by (simp only: W)
qed

lemma MulUint64Hi_unat: "unat (MulUint64Hi a b) = unat a * unat b div 2 ^ 64"
proof -
  have lt: "unat a * unat b < 18446744073709551616 * 18446744073709551616"
    by (rule half_product(1)) simp_all
  then have "unat (ucast a * ucast b :: 128 word) = unat a * unat b"
    by (simp add: unat_word_ariths unsigned_ucast_eq take_bit_eq_mod mod_mult_eq)
  then have "unat (drop_bit 64 (ucast a * ucast b :: 128 word)) = unat a * unat b div 2 ^ 64"
    by (simp only: unat_drop_bit_div)
  moreover from lt have "unat a * unat b div 2 ^ 64 < 18446744073709551616"
    by (simp add: less_mult_imp_div_less)
  ultimately show ?thesis by (simp add: MulUint64Hi_def unsigned_ucast_eq take_bit_eq_mod)
qed

section \<open>Properties\<close>

text \<open>C31: The portable routine is the high half of the full product at each of the three widths
  the template admits, so it agrees with the single-instruction version on 64 bits.\<close>

theorem portable_mul_high:
  "unat (PortableMulUnsignedHi (a :: u16) b) = unat a * unat b div 2 ^ 16 \<and>
   unat (PortableMulUnsignedHi (c :: u32) d) = unat c * unat d div 2 ^ 32 \<and>
   PortableMulUnsignedHi (e :: u64) f = MulUint64Hi e f"
proof (intro conjI)
  show "unat (PortableMulUnsignedHi a b) = unat a * unat b div 2 ^ 16"
    using PortableMulUnsignedHi_unat [of 8 a b] by simp
  show "unat (PortableMulUnsignedHi c d) = unat c * unat d div 2 ^ 32"
    using PortableMulUnsignedHi_unat [of 16 c d] by simp
  show "PortableMulUnsignedHi e f = MulUint64Hi e f"
    using PortableMulUnsignedHi_unat [of 32 e f] by (simp add: word_unat_eq_iff MulUint64Hi_unat)
qed

end
