(* ===== verification/Csr.thy ===== *)
theory Csr
  imports Rv_Prelude
begin

text \<open>
  The control and status registers (\<^verbatim>\<open>include/cpu/csr.h\<close>, \<^verbatim>\<open>src/cpu/csr.cc\<close>): the register
  addresses and the bit-field structs of the header, and the class \<^verbatim>\<open>State\<close>, a vector of
  4096 registers with a read and a write that give the architecturally special ones their
  meaning. The vector is a function of the address; every address an instruction or a trap
  can form is below 4096.

  The lemmas show that reads and writes of the supervisor registers are views of the machine
  registers under a mask, and that every write keeps the invariant \<open>csr_wf\<close>: read-only
  registers and reserved fields keep their values.
\<close>

section \<open>Addresses and layouts\<close>

definition kCsrCapacity :: u64 where [const_defs]: "kCsrCapacity = 4096"
definition kCsrFflags :: u64 where [const_defs]: "kCsrFflags = 0x001"
definition kCsrFrm :: u64 where [const_defs]: "kCsrFrm = 0x002"
definition kCsrFcsr :: u64 where [const_defs]: "kCsrFcsr = 0x003"
definition kCsrMVendorId :: u64 where [const_defs]: "kCsrMVendorId = 0xf11"
definition kCsrMArchId :: u64 where [const_defs]: "kCsrMArchId = 0xf12"
definition kCsrMImpId :: u64 where [const_defs]: "kCsrMImpId = 0xf13"
definition kCsrMHartId :: u64 where [const_defs]: "kCsrMHartId = 0xf14"
definition kCsrMstatus :: u64 where [const_defs]: "kCsrMstatus = 0x300"
definition kCsrSstatus :: u64 where [const_defs]: "kCsrSstatus = 0x100"
definition kCsrUstatus :: u64 where [const_defs]: "kCsrUstatus = 0x000"
definition kCsrMisa :: u64 where [const_defs]: "kCsrMisa = 0x301"
definition kCsrMedeleg :: u64 where [const_defs]: "kCsrMedeleg = 0x302"
definition kCsrMideleg :: u64 where [const_defs]: "kCsrMideleg = 0x303"
definition kCsrMie :: u64 where [const_defs]: "kCsrMie = 0x304"
definition kCsrMtvec :: u64 where [const_defs]: "kCsrMtvec = 0x305"
definition kCsrMcounteren :: u64 where [const_defs]: "kCsrMcounteren = 0x306"
definition kCsrMstatush :: u64 where [const_defs]: "kCsrMstatush = 0x310"
definition kCsrMscratch :: u64 where [const_defs]: "kCsrMscratch = 0x340"
definition kCsrMepc :: u64 where [const_defs]: "kCsrMepc = 0x341"
definition kCsrMcause :: u64 where [const_defs]: "kCsrMcause = 0x342"
definition kCsrMtval :: u64 where [const_defs]: "kCsrMtval = 0x343"
definition kCsrMip :: u64 where [const_defs]: "kCsrMip = 0x344"
definition kCsrMtinst :: u64 where [const_defs]: "kCsrMtinst = 0x34a"
definition kCsrMtval2 :: u64 where [const_defs]: "kCsrMtval2 = 0x34b"
definition kCsrMCycle :: u64 where [const_defs]: "kCsrMCycle = 0xb00"
definition kCsrMinstret :: u64 where [const_defs]: "kCsrMinstret = 0xb02"
definition kCsrMCycleH :: u64 where [const_defs]: "kCsrMCycleH = 0xb80"
definition kCsrMinstretH :: u64 where [const_defs]: "kCsrMinstretH = 0xb82"
definition kCsrSedeleg :: u64 where [const_defs]: "kCsrSedeleg = 0x102"
definition kCsrSideleg :: u64 where [const_defs]: "kCsrSideleg = 0x103"
definition kCsrSie :: u64 where [const_defs]: "kCsrSie = 0x104"
definition kCsrSip :: u64 where [const_defs]: "kCsrSip = 0x144"
definition kCsrUie :: u64 where [const_defs]: "kCsrUie = 0x004"
definition kCsrCycle :: u64 where [const_defs]: "kCsrCycle = 0xc00"
definition kCsrTime :: u64 where [const_defs]: "kCsrTime = 0xc01"
definition kCsrSepc :: u64 where [const_defs]: "kCsrSepc = 0x141"
definition kCsrUepc :: u64 where [const_defs]: "kCsrUepc = 0x041"
definition kCsrScause :: u64 where [const_defs]: "kCsrScause = 0x142"
definition kCsrUcause :: u64 where [const_defs]: "kCsrUcause = 0x042"
definition kCsrStval :: u64 where [const_defs]: "kCsrStval = 0x143"
definition kCsrUtval :: u64 where [const_defs]: "kCsrUtval = 0x043"
definition kCsrStvec :: u64 where [const_defs]: "kCsrStvec = 0x105"
definition kCsrUtvec :: u64 where [const_defs]: "kCsrUtvec = 0x005"
definition kCsrMeipMask :: u64 where [const_defs]: "kCsrMeipMask = 0x800"
definition kCsrSeipMask :: u64 where [const_defs]: "kCsrSeipMask = 0x200"
definition kCsrMInterruptMask :: u64 where [const_defs]: "kCsrMInterruptMask = 0xaaa"
definition kCsrSInterruptMask :: u64 where [const_defs]: "kCsrSInterruptMask = 0x222"
definition kCsrSExceptionMask :: u64 where [const_defs]: "kCsrSExceptionMask = 0xf7ff"
definition kCsrSatp :: u64 where [const_defs]: "kCsrSatp = 0x180"
definition kCsrTselect :: u64 where [const_defs]: "kCsrTselect = 0x7a0"
definition kCsrTdata1 :: u64 where [const_defs]: "kCsrTdata1 = 0x7a1"
definition kCsrMconfigPtr :: u64 where [const_defs]: "kCsrMconfigPtr = 0xf15"
definition kCsrScounteren :: u64 where [const_defs]: "kCsrScounteren = 0x106"
definition kCsrSscratch :: u64 where [const_defs]: "kCsrSscratch = 0x140"


definition SatpDesc :: layout where
  "SatpDesc =
     [(''ppn'', 44), (''asid'', 16), (''mode'', 4)]"

definition MstatusDesc :: layout where
  "MstatusDesc =
     [(''blank0'', 1), (''sie'', 1), (''blank1'', 1), (''mie'', 1), (''blank2'', 1),
      (''spie'', 1), (''ube'', 1), (''mpie'', 1), (''spp'', 1), (''vs'', 2), (''mpp'', 2),
      (''fs'', 2), (''xs'', 2), (''mprv'', 1), (''sum'', 1), (''mxr'', 1), (''tvm'', 1),
      (''tw'', 1), (''tsr'', 1), (''blank3'', 9), (''uxl'', 2), (''sxl'', 2), (''sbe'', 1),
      (''mbe'', 1), (''blank4'', 25), (''sd'', 1)]"

definition SstatusDesc :: layout where
  "SstatusDesc =
     [(''blank0'', 1), (''sie'', 1), (''blank1'', 3), (''spie'', 1), (''ube'', 1),
      (''blank2'', 1), (''spp'', 1), (''vs'', 2), (''blank3'', 2), (''fs'', 2), (''xs'', 2),
      (''blank4'', 1), (''sum'', 1), (''mxr'', 1), (''blank5'', 12), (''uxl'', 2),
      (''blank6'', 29), (''sd'', 1)]"

definition UstatusDesc :: layout where
  "UstatusDesc =
     [(''uie'', 1), (''blank0'', 3), (''upie'', 1), (''blank1'', 59)]"

definition MieDesc :: layout where
  "MieDesc =
     [(''usie'', 1), (''ssie'', 1), (''blank0'', 1), (''msie'', 1), (''utie'', 1),
      (''stie'', 1), (''blank1'', 1), (''mtie'', 1), (''ueie'', 1), (''seie'', 1),
      (''blank2'', 1), (''meie'', 1), (''blank3'', 52)]"

definition MipDesc :: layout where
  "MipDesc =
     [(''usip'', 1), (''ssip'', 1), (''blank0'', 1), (''msip'', 1), (''utip'', 1),
      (''stip'', 1), (''blank1'', 1), (''mtip'', 1), (''ueip'', 1), (''seip'', 1),
      (''blank2'', 1), (''meip'', 1), (''blank3'', 52)]"

definition SieDesc :: layout where
  "SieDesc =
     [(''usie'', 1), (''ssie'', 1), (''blank0'', 2), (''utie'', 1), (''stie'', 1),
      (''blank1'', 2), (''ueie'', 1), (''seie'', 1), (''blank2'', 54)]"

definition UieDesc :: layout where
  "UieDesc =
     [(''usie'', 1), (''blank0'', 3), (''utie'', 1), (''blank1'', 3), (''ueie'', 1),
      (''blank2'', 55)]"

definition CauseDesc :: layout where
  "CauseDesc =
     [(''cause'', 63), (''interrupt'', 1)]"

definition MisaDesc :: layout where
  "MisaDesc =
     [(''A'', 1), (''B'', 1), (''C'', 1), (''D'', 1), (''E'', 1), (''F'', 1), (''G'', 1),
      (''H'', 1), (''I'', 1), (''J'', 1), (''K'', 1), (''L'', 1), (''M'', 1), (''N'', 1),
      (''O'', 1), (''P'', 1), (''Q'', 1), (''R'', 1), (''S'', 1), (''T'', 1), (''U'', 1),
      (''V'', 1), (''W'', 1), (''X'', 1), (''Y'', 1), (''Z'', 1), (''blank'', 36),
      (''mxl'', 2)]"

text \<open>\<^verbatim>\<open>RiscvMXL\<close>: the encodings of the register width.\<close>

definition kRv64 :: u64 where [const_defs]: "kRv64 = 2"

lemma SatpDesc_fields [field_defs]:
  "field_of SatpDesc ''ppn'' = (0, 44)"
  "field_of SatpDesc ''asid'' = (44, 16)"
  "field_of SatpDesc ''mode'' = (60, 4)"
  by (simp_all add: field_of_def SatpDesc_def)

lemma MstatusDesc_fields [field_defs]:
  "field_of MstatusDesc ''sie'' = (1, 1)"
  "field_of MstatusDesc ''mie'' = (3, 1)"
  "field_of MstatusDesc ''spie'' = (5, 1)"
  "field_of MstatusDesc ''ube'' = (6, 1)"
  "field_of MstatusDesc ''mpie'' = (7, 1)"
  "field_of MstatusDesc ''spp'' = (8, 1)"
  "field_of MstatusDesc ''vs'' = (9, 2)"
  "field_of MstatusDesc ''mpp'' = (11, 2)"
  "field_of MstatusDesc ''fs'' = (13, 2)"
  "field_of MstatusDesc ''xs'' = (15, 2)"
  "field_of MstatusDesc ''mprv'' = (17, 1)"
  "field_of MstatusDesc ''sum'' = (18, 1)"
  "field_of MstatusDesc ''mxr'' = (19, 1)"
  "field_of MstatusDesc ''tvm'' = (20, 1)"
  "field_of MstatusDesc ''tw'' = (21, 1)"
  "field_of MstatusDesc ''tsr'' = (22, 1)"
  "field_of MstatusDesc ''uxl'' = (32, 2)"
  "field_of MstatusDesc ''sxl'' = (34, 2)"
  "field_of MstatusDesc ''sbe'' = (36, 1)"
  "field_of MstatusDesc ''mbe'' = (37, 1)"
  "field_of MstatusDesc ''sd'' = (63, 1)"
  by (simp_all add: field_of_def MstatusDesc_def)

lemma SstatusDesc_fields [field_defs]:
  "field_of SstatusDesc ''sie'' = (1, 1)"
  "field_of SstatusDesc ''spie'' = (5, 1)"
  "field_of SstatusDesc ''ube'' = (6, 1)"
  "field_of SstatusDesc ''spp'' = (8, 1)"
  "field_of SstatusDesc ''vs'' = (9, 2)"
  "field_of SstatusDesc ''fs'' = (13, 2)"
  "field_of SstatusDesc ''xs'' = (15, 2)"
  "field_of SstatusDesc ''sum'' = (18, 1)"
  "field_of SstatusDesc ''mxr'' = (19, 1)"
  "field_of SstatusDesc ''uxl'' = (32, 2)"
  "field_of SstatusDesc ''sd'' = (63, 1)"
  by (simp_all add: field_of_def SstatusDesc_def)

lemma MipDesc_fields [field_defs]:
  "field_of MipDesc ''usip'' = (0, 1)"
  "field_of MipDesc ''ssip'' = (1, 1)"
  "field_of MipDesc ''msip'' = (3, 1)"
  "field_of MipDesc ''utip'' = (4, 1)"
  "field_of MipDesc ''stip'' = (5, 1)"
  "field_of MipDesc ''mtip'' = (7, 1)"
  "field_of MipDesc ''ueip'' = (8, 1)"
  "field_of MipDesc ''seip'' = (9, 1)"
  "field_of MipDesc ''meip'' = (11, 1)"
  by (simp_all add: field_of_def MipDesc_def)

lemma CauseDesc_fields [field_defs]:
  "field_of CauseDesc ''cause'' = (0, 63)"
  "field_of CauseDesc ''interrupt'' = (63, 1)"
  by (simp_all add: field_of_def CauseDesc_def)

lemma MisaDesc_fields [field_defs]:
  "field_of MisaDesc ''A'' = (0, 1)"
  "field_of MisaDesc ''I'' = (8, 1)"
  "field_of MisaDesc ''M'' = (12, 1)"
  "field_of MisaDesc ''S'' = (18, 1)"
  "field_of MisaDesc ''U'' = (20, 1)"
  "field_of MisaDesc ''mxl'' = (62, 2)"
  by (simp_all add: field_of_def MisaDesc_def)

lemma layouts_64:
  "list_all (\<lambda>l. layout_width l = 64)
     [SatpDesc, MstatusDesc, SstatusDesc, UstatusDesc, MieDesc, MipDesc, SieDesc, UieDesc,
      CauseDesc, MisaDesc]"
  by (simp add: layout_width_def SatpDesc_def MstatusDesc_def SstatusDesc_def UstatusDesc_def
      MieDesc_def MipDesc_def SieDesc_def UieDesc_def CauseDesc_def MisaDesc_def)

section \<open>The class State\<close>

record State =
  csr_wfi :: bool
  csr :: "u64 \<Rightarrow> u64"

abbreviation set_csr :: "u64 \<Rightarrow> u64 \<Rightarrow> State \<Rightarrow> State" where
  "set_csr addr v s \<equiv> s\<lparr>csr := (csr s)(addr := v)\<rparr>"

definition State_init :: State where
  "State_init =
     (let misa = fset (field_of MisaDesc ''U'') 1
                (fset (field_of MisaDesc ''S'') 1
                (fset (field_of MisaDesc ''A'') 1
                (fset (field_of MisaDesc ''M'') 1
                (fset (field_of MisaDesc ''I'') 1
                (fset (field_of MisaDesc ''mxl'') kRv64 0)))));
          mstatus = fset (field_of MstatusDesc ''uxl'') kRv64
                   (fset (field_of MstatusDesc ''sxl'') kRv64 0)
      in \<lparr>csr_wfi = False, csr = (\<lambda>_. 0)(kCsrMisa := misa, kCsrMstatus := mstatus)\<rparr>)"

definition State_Read :: "State \<Rightarrow> u64 \<Rightarrow> u64" where
  "State_Read s addr =
     (if addr = kCsrSstatus then
        copy_fields MstatusDesc SstatusDesc
          [''sie'', ''spie'', ''ube'', ''spp'', ''vs'', ''fs'', ''xs'', ''sum'', ''mxr'', ''uxl'', ''sd'']
          (csr s kCsrMstatus) 0
      else if addr = kCsrSie then csr s kCsrMie AND kCsrSInterruptMask
      else if addr = kCsrSip then csr s kCsrMip AND kCsrSInterruptMask
      else if addr = kCsrTselect \<or> addr = kCsrTdata1 then 0
      else csr s addr)"

definition State_Write :: "u64 \<Rightarrow> u64 \<Rightarrow> State \<Rightarrow> State" where
  "State_Write addr val s =
     (if addr = kCsrSstatus then
        set_csr kCsrMstatus
          (copy_fields SstatusDesc SstatusDesc [''sie'', ''spie'', ''spp'', ''sum'', ''mxr'']
             val (csr s kCsrMstatus)) s
      else if addr = kCsrMie \<or> addr = kCsrMip then
        set_csr addr (val AND kCsrMInterruptMask) s
      else if addr = kCsrSie then
        set_csr kCsrMie
          ((csr s kCsrMie AND NOT kCsrSInterruptMask) OR (val AND kCsrSInterruptMask)) s
      else if addr = kCsrSip then
        set_csr kCsrMip
          ((csr s kCsrMip AND NOT kCsrSInterruptMask) OR (val AND kCsrSInterruptMask)) s
      else if addr = kCsrMstatus then
        set_csr kCsrMstatus
          (copy_fields MstatusDesc MstatusDesc
             [''sie'', ''mie'', ''spie'', ''mpie'', ''spp'', ''mpp'', ''mprv'', ''sum'', ''mxr'',
              ''tvm'', ''tw'', ''tsr''] val (csr s kCsrMstatus)) s
      else if addr = kCsrMideleg then set_csr addr (val AND kCsrSInterruptMask) s
      else if addr = kCsrMedeleg then set_csr addr (val AND kCsrSExceptionMask) s
      else if addr \<in> {kCsrMisa, kCsrTselect, kCsrTdata1, kCsrMVendorId, kCsrMArchId, kCsrMImpId}
      then s
      else if addr = kCsrSatp then
        let mode = field_of SatpDesc ''mode'';
            new_satp = (if fget mode val \<noteq> 0 \<and> fget mode val \<noteq> 8
                        then fset mode (fget mode (csr s addr)) val else val)
        in set_csr addr new_satp s
      else set_csr addr val s)"

definition GetWfi :: "State \<Rightarrow> bool" where
  "GetWfi s = csr_wfi s"

definition SetWfi :: "bool \<Rightarrow> State \<Rightarrow> State" where
  "SetWfi wfi s = s\<lparr>csr_wfi := wfi\<rparr>"

definition State_Reset :: "State \<Rightarrow> State" where
  "State_Reset s =
     \<lparr>csr_wfi = False,
      csr = (\<lambda>_. 0)(kCsrMisa := csr s kCsrMisa,
        kCsrMstatus := fset (field_of MstatusDesc ''uxl'') kRv64
                         (fset (field_of MstatusDesc ''sxl'') kRv64 0))\<rparr>"

section \<open>The special registers as masked views\<close>

definition mstatus_wmask :: u64 where "mstatus_wmask = 0x7e19aa"
definition sstatus_wmask :: u64 where "sstatus_wmask = 0xc0122"
definition sstatus_rmask :: u64 where "sstatus_rmask = 0x80000003000de762"

lemma State_Read_sstatus: "State_Read s kCsrSstatus = csr s kCsrMstatus AND sstatus_rmask"
proof -
  have "State_Read s kCsrSstatus = merge sstatus_rmask (csr s kCsrMstatus) 0"
    by (simp add: State_Read_def field_defs fset_fget_merge sstatus_rmask_def mask_numeral)
  then show ?thesis by (simp add: merge_def)
qed

lemma State_Write_sstatus:
  "State_Write kCsrSstatus v s = set_csr kCsrMstatus (merge sstatus_wmask v (csr s kCsrMstatus)) s"
  by (simp add: State_Write_def field_defs fset_fget_merge sstatus_wmask_def)

lemma State_Write_mstatus:
  "State_Write kCsrMstatus v s = set_csr kCsrMstatus (merge mstatus_wmask v (csr s kCsrMstatus)) s"
  by (simp add: State_Write_def field_defs fset_fget_merge mstatus_wmask_def mask_numeral const_defs)

lemma State_Write_sie:
  "State_Write kCsrSie v s = set_csr kCsrMie (merge kCsrSInterruptMask v (csr s kCsrMie)) s"
  by (simp add: State_Write_def merge_def const_defs)

lemma State_Write_sip:
  "State_Write kCsrSip v s = set_csr kCsrMip (merge kCsrSInterruptMask v (csr s kCsrMip)) s"
  by (simp add: State_Write_def merge_def const_defs)


section \<open>The invariant\<close>

text \<open>
  What no sequence of writes can change: \<open>misa\<close> and the identification registers, the fields of
  \<open>mstatus\<close> the hardware fixes (the register widths are 64 bits, no vector, float or user
  extension state, little-endian), the bits that do not exist in the interrupt and delegation
  registers, and that \<open>satp\<close> selects bare or Sv39 translation.
\<close>

definition csr_wf :: "State \<Rightarrow> bool" where
  "csr_wf s \<longleftrightarrow>
     csr s kCsrMisa = 0x8000000000141101 \<and>
     csr s kCsrMstatus AND NOT mstatus_wmask = 0xa00000000 \<and>
     csr s kCsrMie AND NOT kCsrMInterruptMask = 0 \<and>
     csr s kCsrMip AND NOT kCsrMInterruptMask = 0 \<and>
     csr s kCsrMideleg AND NOT kCsrSInterruptMask = 0 \<and>
     csr s kCsrMedeleg AND NOT kCsrSExceptionMask = 0 \<and>
     (fget (field_of SatpDesc ''mode'') (csr s kCsrSatp) = 0 \<or>
      fget (field_of SatpDesc ''mode'') (csr s kCsrSatp) = 8) \<and>
     csr s kCsrMVendorId = 0 \<and> csr s kCsrMArchId = 0 \<and> csr s kCsrMImpId = 0"

text \<open>The register a write to an address lands in.\<close>

definition csr_home :: "u64 \<Rightarrow> u64" where
  "csr_home a = (if a = kCsrSstatus then kCsrMstatus else if a = kCsrSie then kCsrMie
     else if a = kCsrSip then kCsrMip else a)"

lemma csr_home_alias [simp]:
  "csr_home kCsrSstatus = kCsrMstatus" "csr_home kCsrSie = kCsrMie" "csr_home kCsrSip = kCsrMip"
  by (simp_all add: csr_home_def const_defs)

lemma State_Write_plain:
  assumes "a \<notin> {kCsrSstatus, kCsrSie, kCsrSip}"
  shows "State_Write a v s = s \<or> (\<exists>x. State_Write a v s = set_csr a x s)"
proof -
  have cases: "State_Write a v s = s \<or> (\<exists>x. State_Write a v s = set_csr a x s)"
    if "State_Write a v s = (if P then set_csr a x1 s else if Q then set_csr kCsrMstatus x2 s
      else if R1 then set_csr a x3 s else if R2 then set_csr a x4 s else if T then s
      else if U then set_csr a x5 s else set_csr a x6 s)" and "Q \<longleftrightarrow> a = kCsrMstatus"
    for P Q R1 R2 T U x1 x2 x3 x4 x5 x6
    using that by metis
  show ?thesis
    by (rule cases [OF _ refl]) (use assms in \<open>simp only: State_Write_def Let_def insert_iff empty_iff de_Morgan_disj
        if_False simp_thms\<close>)
qed

lemma csr_Write_other:
  assumes "b \<noteq> csr_home a"
  shows "csr (State_Write a v s) b = csr s b"
proof (cases "a \<in> {kCsrSstatus, kCsrSie, kCsrSip}")
  case True
  with assms show ?thesis
    by (elim insertE) (simp_all add: State_Write_sstatus State_Write_sie State_Write_sip)
next
  case False
  with assms have "b \<noteq> a" by (simp add: csr_home_def)
  with State_Write_plain [OF False, of v s] show ?thesis by auto
qed

lemma csr_Write_wfi [simp]: "csr_wfi (State_Write a v s) = csr_wfi s"
proof (cases "a \<in> {kCsrSstatus, kCsrSie, kCsrSip}")
  case True
  then show ?thesis by (auto simp: State_Write_sstatus State_Write_sie State_Write_sip)
next
  case False
  with State_Write_plain [OF False, of v s] show ?thesis by auto
qed

lemma and_not_and [simp]: "(v AND m) AND NOT m = (0 :: 'a::len word)"
  by (rule bit_eqI) (auto simp: bit_simps)

lemma subset_bit:
  fixes m k :: "'a::len word"
  assumes "m AND NOT k = 0" and "bit m i"
  shows "bit k i"
proof -
  from assms(1) have "\<not> bit (m AND NOT k) i" by simp
  with assms(2) show ?thesis by (simp add: bit_simps bit_imp_le_length)
qed

lemma merge_keeps: "m AND NOT k = 0 \<Longrightarrow> merge m v w AND NOT k = w AND NOT k"
  by (rule bit_eqI) (auto simp: bit_merge bit_simps dest: subset_bit)

lemma merge_fixed [simp]:
  "merge sstatus_wmask v w AND NOT mstatus_wmask = w AND NOT mstatus_wmask"
  "merge mstatus_wmask v w AND NOT mstatus_wmask = w AND NOT mstatus_wmask"
  "merge kCsrSInterruptMask v w AND NOT kCsrMInterruptMask = w AND NOT kCsrMInterruptMask"
  by (rule merge_keeps, simp add: const_defs mstatus_wmask_def sstatus_wmask_def)+

lemma csr_wf_init: "csr_wf State_init"
  by (simp add: csr_wf_def State_init_def field_defs const_defs fset_def mstatus_wmask_def mask_numeral Let_def)

lemma csr_wf_Reset: "csr_wf s \<Longrightarrow> csr_wf (State_Reset s)"
  by (simp add: csr_wf_def State_Reset_def field_defs const_defs fset_def mstatus_wmask_def mask_numeral)

lemma csr_wf_SetWfi [simp]: "csr_wf (SetWfi b s) = csr_wf s"
  by (simp add: csr_wf_def SetWfi_def)


text \<open>
  The invariant only constrains a few registers, so a write is checked register by register:
  either the write does not land there, or it is one of the masked writes.
\<close>

lemma State_Write_masked:
  "State_Write kCsrMie v s = set_csr kCsrMie (v AND kCsrMInterruptMask) s"
  "State_Write kCsrMip v s = set_csr kCsrMip (v AND kCsrMInterruptMask) s"
  "State_Write kCsrMideleg v s = set_csr kCsrMideleg (v AND kCsrSInterruptMask) s"
  "State_Write kCsrMedeleg v s = set_csr kCsrMedeleg (v AND kCsrSExceptionMask) s"
  by (simp_all add: State_Write_def const_defs)

lemma State_Write_readonly:
  "a \<in> {kCsrMisa, kCsrTselect, kCsrTdata1, kCsrMVendorId, kCsrMArchId, kCsrMImpId} \<Longrightarrow>
   State_Write a v s = s"
  by (elim insertE) (simp_all add: State_Write_def const_defs)

lemma State_Write_satp:
  "State_Write kCsrSatp v s = set_csr kCsrSatp
     (if fget (60, 4) v = 0 \<or> fget (60, 4) v = 8 then v
      else fset (60, 4) (fget (60, 4) (csr s kCsrSatp)) v) s"
  by (simp add: State_Write_def field_defs const_defs Let_def)

definition csr_special :: "u64 set" where
  "csr_special = {kCsrSstatus, kCsrSie, kCsrSip, kCsrMstatus, kCsrMie, kCsrMip, kCsrMideleg,
     kCsrMedeleg, kCsrSatp, kCsrMisa, kCsrTselect, kCsrTdata1, kCsrMVendorId, kCsrMArchId, kCsrMImpId}"

lemma State_Write_ordinary: "a \<notin> csr_special \<Longrightarrow> State_Write a v s = set_csr a v s"
  by (simp add: State_Write_def csr_special_def)

lemma csr_special_cases [consumes 1, case_names status ie_ip deleg satp readonly]:
  assumes "a \<in> csr_special"
  obtains "a = kCsrSstatus \<or> a = kCsrMstatus"
    | "a = kCsrSie \<or> a = kCsrMie \<or> a = kCsrSip \<or> a = kCsrMip"
    | "a = kCsrMideleg \<or> a = kCsrMedeleg"
    | "a = kCsrSatp"
    | "a \<in> {kCsrMisa, kCsrTselect, kCsrTdata1, kCsrMVendorId, kCsrMArchId, kCsrMImpId}"
  using assms by (auto simp: csr_special_def)

definition csr_fixed :: "u64 set" where
  "csr_fixed = {kCsrMisa, kCsrMstatus, kCsrMie, kCsrMip, kCsrMideleg, kCsrMedeleg, kCsrSatp,
     kCsrMVendorId, kCsrMArchId, kCsrMImpId}"

lemma csr_wf_cong: "\<forall>a \<in> csr_fixed. csr s a = csr t a \<Longrightarrow> csr_wf s = csr_wf t"
  by (simp add: csr_wf_def csr_fixed_def)

lemma csr_wf_Write:
  assumes wf: "csr_wf s"
  shows "csr_wf (State_Write a v s)"
proof (cases "a \<in> csr_special")
  case False
  then have "a \<notin> csr_fixed" by (auto simp: csr_special_def csr_fixed_def)
  then have "\<forall>b \<in> csr_fixed. csr (State_Write a v s) b = csr s b"
    using False by (auto simp: State_Write_ordinary)
  with wf show ?thesis using csr_wf_cong by blast
next
  case True
  then show ?thesis
  proof (cases rule: csr_special_cases)
    case status
    then show ?thesis using wf
      by (elim disjE) (simp_all add: State_Write_sstatus State_Write_mstatus csr_wf_def, simp_all add: const_defs)
  next
    case ie_ip
    then show ?thesis using wf
      by (elim disjE) (simp_all add: State_Write_sie State_Write_sip State_Write_masked csr_wf_def,
        simp_all add: const_defs)
  next
    case deleg
    then show ?thesis using wf
      by (elim disjE) (simp_all add: State_Write_masked csr_wf_def, simp_all add: const_defs)
  next
    case satp
    then show ?thesis using wf
      by (simp add: State_Write_satp csr_wf_def field_defs) (simp add: const_defs)
  next
    case readonly
    then show ?thesis using wf by (simp add: State_Write_readonly)
  qed
qed


section \<open>Writes as WARL fields\<close>

text \<open>
  The abstract view of the register file: every register except \<open>satp\<close> has a mask of writable
  bits, and a write replaces exactly these.
\<close>

definition csr_wmask :: "u64 \<Rightarrow> u64" where
  "csr_wmask a =
     (if a = kCsrSstatus then sstatus_wmask
      else if a = kCsrMstatus then mstatus_wmask
      else if a = kCsrMie \<or> a = kCsrMip then kCsrMInterruptMask
      else if a = kCsrSie \<or> a = kCsrSip \<or> a = kCsrMideleg then kCsrSInterruptMask
      else if a = kCsrMedeleg then kCsrSExceptionMask
      else if a \<in> {kCsrMisa, kCsrTselect, kCsrTdata1, kCsrMVendorId, kCsrMArchId, kCsrMImpId} then 0
      else -1)"

lemma merge_0 [simp]: "merge 0 v w = w" and merge_minus_1 [simp]: "merge (-1) v w = v"
  by (simp_all add: merge_def)

lemma merge_absorb: "w AND NOT m = 0 \<Longrightarrow> merge m v w = v AND m"
  by (simp add: merge_def)

lemma merge_and: "merge m v w AND k = merge m v (w AND k)" if "m AND NOT k = 0"
  using that by (intro bit_eqI) (auto simp: bit_merge bit_simps dest: subset_bit)

abbreviation warl :: "u64 \<Rightarrow> u64 \<Rightarrow> State \<Rightarrow> bool" where
  "warl a v s \<equiv> State_Read (State_Write a v s) a = merge (csr_wmask a) v (State_Read s a)"

lemma warl_ordinary: "a \<notin> csr_special \<Longrightarrow> warl a v s"
  by (simp add: State_Write_ordinary) (simp add: csr_special_def csr_wmask_def State_Read_def)

lemma warl_status: "warl kCsrSstatus v s" "warl kCsrMstatus v s"
proof -
  have "merge sstatus_wmask v w AND sstatus_rmask = merge sstatus_wmask v (w AND sstatus_rmask)" for w
    by (rule merge_and) (simp add: sstatus_wmask_def sstatus_rmask_def)
  then show "warl kCsrSstatus v s" by (simp add: State_Read_sstatus State_Write_sstatus csr_wmask_def)
  show "warl kCsrMstatus v s" by (simp add: State_Write_mstatus) (simp add: State_Read_def csr_wmask_def const_defs)
qed

lemma warl_supervisor_interrupts: "warl kCsrSie v s" "warl kCsrSip v s"
proof -
  have "merge kCsrSInterruptMask v w AND kCsrSInterruptMask = merge kCsrSInterruptMask v (w AND kCsrSInterruptMask)" for w
    by (rule merge_and) simp
  then show "warl kCsrSie v s" "warl kCsrSip v s"
    by (simp_all add: State_Write_sie State_Write_sip) (simp_all add: State_Read_def csr_wmask_def const_defs)
qed

lemma warl_masked:
  assumes "csr_wf s"
  shows "warl kCsrMie v s" "warl kCsrMip v s" "warl kCsrMideleg v s" "warl kCsrMedeleg v s"
  using assms by (simp_all add: State_Write_masked csr_wf_def)
    (simp_all add: State_Read_def csr_wmask_def const_defs merge_absorb)

lemma csr_warl:
  assumes wf: "csr_wf s" and a: "a \<noteq> kCsrSatp"
  shows "warl a v s"
proof (cases "a \<in> csr_special")
  case True
  then show ?thesis
  proof (cases rule: csr_special_cases)
    case readonly
    then have "csr_wmask a = 0" by (elim insertE) (simp_all add: csr_wmask_def const_defs)
    with readonly show ?thesis by (simp add: State_Write_readonly)
  qed (use a warl_status warl_supervisor_interrupts warl_masked [OF wf] in auto)
qed (rule warl_ordinary)

section \<open>Properties\<close>




end
