(* ===== verification/Trap.thy ===== *)
theory Trap
  imports Csr
begin

text \<open>
  Traps (\<^verbatim>\<open>include/cpu/trap.h\<close>, \<^verbatim>\<open>src/cpu/trap.cc\<close>), the privilege modes of
  \<^verbatim>\<open>include/cpu/cpu.h\<close> and the helpers of \<^verbatim>\<open>src/libs/utils.cc\<close> that turn a trap into a bit of
  the interrupt registers and pick the most urgent pending interrupt. Both enumerations are
  ordered as their C++ values are.
\<close>

section \<open>Enumerations\<close>

datatype TrapType =
  kInstructionAddressMisaligned | kInstructionAccessFault | kIllegalInstruction | kBreakpoint
| kLoadAddressMisaligned | kLoadAccessFault | kStoreAddressMisaligned | kStoreAccessFault
| kEnvironmentCallFromUMode | kEnvironmentCallFromSMode | kEnvironmentCallFromMMode
| kInstructionPageFault | kLoadPageFault | kStorePageFault
| kUserSoftwareInterrupt | kSupervisorSoftwareInterrupt | kMachineSoftwareInterrupt
| kUserTimerInterrupt | kSupervisorTimerInterrupt | kMachineTimerInterrupt
| kUserExternalInterrupt | kSupervisorExternalInterrupt | kMachineExternalInterrupt
| kNone

text \<open>The enumeration in declaration order; the C++ value is the position.\<close>

definition kTrapTypes :: "TrapType list" where
  "kTrapTypes =
     [kInstructionAddressMisaligned, kInstructionAccessFault, kIllegalInstruction, kBreakpoint,
      kLoadAddressMisaligned, kLoadAccessFault, kStoreAddressMisaligned, kStoreAccessFault,
      kEnvironmentCallFromUMode, kEnvironmentCallFromSMode, kEnvironmentCallFromMMode,
      kInstructionPageFault, kLoadPageFault, kStorePageFault,
      kUserSoftwareInterrupt, kSupervisorSoftwareInterrupt, kMachineSoftwareInterrupt,
      kUserTimerInterrupt, kSupervisorTimerInterrupt, kMachineTimerInterrupt,
      kUserExternalInterrupt, kSupervisorExternalInterrupt, kMachineExternalInterrupt, kNone]"

fun position :: "'a list \<Rightarrow> 'a \<Rightarrow> nat" where
  "position [] x = 0"
| "position (y # ys) x = (if x = y then 0 else Suc (position ys x))"

lemma nth_position: "x \<in> set xs \<Longrightarrow> xs ! position xs x = x"
  by (induction xs) auto

definition trap_index :: "TrapType \<Rightarrow> nat" where
  "trap_index t = position kTrapTypes t"

lemma trap_index_inj: "trap_index s = trap_index t \<longleftrightarrow> s = t"
proof -
  have "x \<in> set kTrapTypes" for x by (cases x) (simp_all add: kTrapTypes_def)
  then show ?thesis unfolding trap_index_def by (metis nth_position)
qed

instantiation TrapType :: linorder
begin

definition less_eq_TrapType :: "TrapType \<Rightarrow> TrapType \<Rightarrow> bool" where
  "less_eq_TrapType s t \<longleftrightarrow> trap_index s \<le> trap_index t"

definition less_TrapType :: "TrapType \<Rightarrow> TrapType \<Rightarrow> bool" where
  "less_TrapType s t \<longleftrightarrow> trap_index s < trap_index t"

instance
  by standard (auto simp: less_eq_TrapType_def less_TrapType_def trap_index_inj)

end

datatype PrivilegeMode = kUser | kSupervisor | kReserved | kMachine

primrec mode_val :: "PrivilegeMode \<Rightarrow> u64" where
  "mode_val kUser = 0"
| "mode_val kSupervisor = 1"
| "mode_val kReserved = 2"
| "mode_val kMachine = 3"

text \<open>\<^verbatim>\<open>static_cast<PrivilegeMode>\<close> of a two-bit field.\<close>

definition mode_of :: "u64 \<Rightarrow> PrivilegeMode" where
  "mode_of v = (if v = 0 then kUser else if v = 1 then kSupervisor
     else if v = 2 then kReserved else kMachine)"

lemma mode_of_val [simp]: "mode_of (mode_val m) = m"
  by (cases m) (simp_all add: mode_of_def)

lemma mode_val_inj [simp]: "mode_val m = mode_val n \<longleftrightarrow> m = n"
  by (metis mode_of_val)

instantiation PrivilegeMode :: linorder
begin

definition less_eq_PrivilegeMode :: "PrivilegeMode \<Rightarrow> PrivilegeMode \<Rightarrow> bool" where
  "less_eq_PrivilegeMode m n \<longleftrightarrow> mode_val m \<le> mode_val n"

definition less_PrivilegeMode :: "PrivilegeMode \<Rightarrow> PrivilegeMode \<Rightarrow> bool" where
  "less_PrivilegeMode m n \<longleftrightarrow> mode_val m < mode_val n"

instance
  by standard (auto simp: less_eq_PrivilegeMode_def less_PrivilegeMode_def less_le_not_le linear dest: antisym)

end

lemma mode_order [simp]:
  "kUser < kSupervisor" "kUser < kReserved" "kUser < kMachine" "kSupervisor < kReserved"
  "kSupervisor < kMachine" "kReserved < kMachine"
  "\<not> kSupervisor < kUser" "\<not> kReserved < kUser" "\<not> kMachine < kUser"
  "\<not> kReserved < kSupervisor" "\<not> kMachine < kSupervisor" "\<not> kMachine < kReserved"
  by (simp_all add: less_PrivilegeMode_def)

lemma mode_less_machine [simp]: "m < kMachine \<longleftrightarrow> m \<noteq> kMachine"
  by (cases m) simp_all

lemma mode_less_supervisor [simp]: "m < kSupervisor \<longleftrightarrow> m = kUser"
  by (cases m) simp_all

section \<open>Trap values\<close>

record Trap =
  trap_type :: TrapType
  trap_val :: u64

definition kNoneTrap :: Trap where
  "kNoneTrap = \<lparr>trap_type = kNone, trap_val = 0\<rparr>"

abbreviation make_trap :: "TrapType \<Rightarrow> u64 \<Rightarrow> Trap" where
  "make_trap t v \<equiv> \<lparr>trap_type = t, trap_val = v\<rparr>"

lemma kNoneTrap_simps [simp]: "trap_type kNoneTrap = kNone" "trap_val kNoneTrap = 0"
  by (simp_all add: kNoneTrap_def)

text \<open>The table has no entry for \<open>kNone\<close>; it is never read there.\<close>

fun kTrapToCauseTable :: "TrapType \<Rightarrow> u64" where
  "kTrapToCauseTable kInstructionAddressMisaligned = 0"
| "kTrapToCauseTable kInstructionAccessFault = 1"
| "kTrapToCauseTable kIllegalInstruction = 2"
| "kTrapToCauseTable kBreakpoint = 3"
| "kTrapToCauseTable kLoadAddressMisaligned = 4"
| "kTrapToCauseTable kLoadAccessFault = 5"
| "kTrapToCauseTable kStoreAddressMisaligned = 6"
| "kTrapToCauseTable kStoreAccessFault = 7"
| "kTrapToCauseTable kEnvironmentCallFromUMode = 8"
| "kTrapToCauseTable kEnvironmentCallFromSMode = 9"
| "kTrapToCauseTable kEnvironmentCallFromMMode = 11"
| "kTrapToCauseTable kInstructionPageFault = 12"
| "kTrapToCauseTable kLoadPageFault = 13"
| "kTrapToCauseTable kStorePageFault = 15"
| "kTrapToCauseTable kUserSoftwareInterrupt = 0"
| "kTrapToCauseTable kSupervisorSoftwareInterrupt = 1"
| "kTrapToCauseTable kMachineSoftwareInterrupt = 3"
| "kTrapToCauseTable kUserTimerInterrupt = 4"
| "kTrapToCauseTable kSupervisorTimerInterrupt = 5"
| "kTrapToCauseTable kMachineTimerInterrupt = 7"
| "kTrapToCauseTable kUserExternalInterrupt = 8"
| "kTrapToCauseTable kSupervisorExternalInterrupt = 9"
| "kTrapToCauseTable kMachineExternalInterrupt = 11"
| "kTrapToCauseTable kNone = 0"

definition is_interrupt :: "TrapType \<Rightarrow> bool" where
  "is_interrupt t \<longleftrightarrow> t \<ge> kUserSoftwareInterrupt"

definition GetTrapPC :: "u64 \<Rightarrow> u64 \<Rightarrow> u64" where
  "GetTrapPC tvec_val cause =
     (let kMode = tvec_val AND 3 in push_bit 2 (drop_bit 2 tvec_val) + 4 * cause * kMode)"

section \<open>Interrupt bits\<close>

definition TrapToMask :: "TrapType \<Rightarrow> u64" where
  "TrapToMask t = (if t = kNone then 0 else push_bit (unat (kTrapToCauseTable t)) 1)"

definition kRankedIrqs :: "TrapType list" where
  "kRankedIrqs =
     [kMachineExternalInterrupt, kMachineSoftwareInterrupt, kMachineTimerInterrupt,
      kSupervisorExternalInterrupt, kSupervisorSoftwareInterrupt, kSupervisorTimerInterrupt]"

fun first_irq :: "TrapType list \<Rightarrow> u64 \<Rightarrow> TrapType" where
  "first_irq [] bits = kNone"
| "first_irq (t # ts) bits = (if TrapToMask t AND bits \<noteq> 0 then t else first_irq ts bits)"

definition InterruptBitsToTrap :: "u64 \<Rightarrow> TrapType" where
  "InterruptBitsToTrap bits = first_irq kRankedIrqs bits"

definition CheckPcAlign :: "bool \<Rightarrow> u64 \<Rightarrow> bool" where
  "CheckPcAlign CEnable pc = (if CEnable then pc AND 1 = 0 else pc AND 3 = 0)"

section \<open>Lemmas\<close>

lemma cause_bound [simp]: "unat (kTrapToCauseTable t) < 16"
  by (cases t) simp_all

lemma is_interrupt_simps [simp]:
  "is_interrupt kMachineExternalInterrupt" "is_interrupt kMachineSoftwareInterrupt"
  "is_interrupt kMachineTimerInterrupt" "is_interrupt kSupervisorExternalInterrupt"
  "is_interrupt kSupervisorSoftwareInterrupt" "is_interrupt kSupervisorTimerInterrupt"
  "\<not> is_interrupt kIllegalInstruction" "\<not> is_interrupt kBreakpoint"
  "\<not> is_interrupt kEnvironmentCallFromUMode" "\<not> is_interrupt kEnvironmentCallFromSMode"
  "\<not> is_interrupt kEnvironmentCallFromMMode" "\<not> is_interrupt kInstructionPageFault"
  "\<not> is_interrupt kLoadPageFault" "\<not> is_interrupt kStorePageFault"
  "\<not> is_interrupt kInstructionAccessFault" "\<not> is_interrupt kLoadAccessFault"
  "\<not> is_interrupt kStoreAccessFault" "\<not> is_interrupt kInstructionAddressMisaligned"
  "\<not> is_interrupt kLoadAddressMisaligned" "\<not> is_interrupt kStoreAddressMisaligned"
  by (simp_all add: is_interrupt_def less_eq_TrapType_def trap_index_def kTrapTypes_def)

lemma and_single_bit: "(push_bit n 1 AND (w :: 'a::len word)) \<noteq> 0 \<longleftrightarrow> bit w n"
  by (simp only: bit_iff_and_push_bit_not_eq_0 and.commute)

lemma TrapToMask_bit: "t \<noteq> kNone \<Longrightarrow> TrapToMask t AND w \<noteq> 0 \<longleftrightarrow> bit w (unat (kTrapToCauseTable t))"
  unfolding TrapToMask_def by (simp only: if_False and_single_bit)

text \<open>
  The selected interrupt is pending and every interrupt ranked before it is not; none is
  selected exactly if none of the six is pending.
\<close>

lemma first_irq_spec:
  "first_irq ts b = t \<Longrightarrow> kNone \<notin> set ts \<Longrightarrow> t \<noteq> kNone \<Longrightarrow>
   \<exists>us vs. ts = us @ t # vs \<and> TrapToMask t AND b \<noteq> 0 \<and> (\<forall>u \<in> set us. TrapToMask u AND b = 0)"
proof (induction ts)
  case (Cons x ts)
  show ?case
  proof (cases "TrapToMask x AND b = 0")
    case True
    with Cons obtain us vs where "ts = us @ t # vs" "TrapToMask t AND b \<noteq> 0"
      "\<forall>u \<in> set us. TrapToMask u AND b = 0" by auto
    with True have "x # ts = (x # us) @ t # vs" "TrapToMask t AND b \<noteq> 0"
      "\<forall>u \<in> set (x # us). TrapToMask u AND b = 0" by simp_all
    then show ?thesis by blast
  next
    case False
    with Cons.prems have "x # ts = [] @ t # ts" "TrapToMask t AND b \<noteq> 0" by auto
    then show ?thesis by (metis empty_iff empty_set)
  qed
qed simp

lemma first_irq_None:
  "kNone \<notin> set ts \<Longrightarrow> first_irq ts b = kNone \<longleftrightarrow> (\<forall>t \<in> set ts. TrapToMask t AND b = 0)"
  by (induction ts) auto

lemma GetTrapPC_direct: "tvec AND 3 = 0 \<Longrightarrow> GetTrapPC tvec cause = tvec"
proof -
  assume *: "tvec AND 3 = 0"
  have "push_bit 2 (drop_bit 2 tvec) = tvec AND NOT (mask 2)"
    by (rule bit_eqI) (auto simp: bit_simps not_less dest!: le_Suc_ex)
  also have "\<dots> = tvec"
  proof (rule bit_eqI)
    fix n
    have "tvec AND mask 2 = 0" using * by (simp add: mask_numeral)
    then have "\<not> bit (tvec AND mask 2) n" by simp
    then show "bit (tvec AND NOT (mask 2)) n = bit tvec n"
      by (auto simp: bit_simps dest: bit_imp_le_length)
  qed
  finally show ?thesis using * by (simp add: GetTrapPC_def)
qed

end
