(* ===== verification/Decode.thy ===== *)
theory Decode
  imports Rv_Prelude
begin

text \<open>
  The instruction decoder (\<^verbatim>\<open>include/cpu/decode.h\<close>, \<^verbatim>\<open>src/cpu/decode.cc\<close>): the table of
  masks and signatures, the instruction formats as bit-field structs, and the constructor of
  \<^verbatim>\<open>DecodeInfo\<close>. The constructor leaves \<open>imm\<close> and \<open>mem_size\<close> uninitialised for some opcodes,
  and reads the size table out of bounds for a load or store opcode it has no token for; the
  two values these members then have are arguments of the model.

  The lemmas show which words the table accepts for each token, and that the immediates are
  the ones of the instruction formats.
\<close>

section \<open>Opcodes and tokens\<close>

definition kUndef :: u8 where [const_defs]: "kUndef = 0b0000000"
definition kReg :: u8 where [const_defs]: "kReg = 0b0110011"
definition kImm :: u8 where [const_defs]: "kImm = 0b0010011"
definition kLui :: u8 where [const_defs]: "kLui = 0b0110111"
definition kBranch :: u8 where [const_defs]: "kBranch = 0b1100011"
definition kStore :: u8 where [const_defs]: "kStore = 0b0100011"
definition kLoad :: u8 where [const_defs]: "kLoad = 0b0000011"
definition kSystem :: u8 where [const_defs]: "kSystem = 0b1110011"
definition kAuipc :: u8 where [const_defs]: "kAuipc = 0b0010111"
definition kJal :: u8 where [const_defs]: "kJal = 0b1101111"
definition kJalr :: u8 where [const_defs]: "kJalr = 0b1100111"
definition kImm32 :: u8 where [const_defs]: "kImm32 = 0b0011011"
definition kRv32 :: u8 where [const_defs]: "kRv32 = 0b0111011"
definition kFence :: u8 where [const_defs]: "kFence = 0b0001111"
definition kAmo :: u8 where [const_defs]: "kAmo = 0b0101111"

datatype (plugins only: size) InstToken =
  I_UNKNOWN | I_LUI | I_AUIPC | I_JAL | I_JALR | I_BEQ | I_BNE | I_BLT | I_BGE | I_BLTU |
    I_BGEU | I_LB | I_LH | I_LW | I_LBU | I_LHU | I_SB | I_SH | I_SW | I_LWU | I_LD | I_SD |
    I_ADDI | I_SLTI | I_SLTIU | I_XORI | I_ORI | I_ANDI | I_ADD | I_SUB | I_SLL | I_SLT |
    I_SLTU | I_XOR | I_SRL | I_SRA | I_OR | I_AND | I_FENCE | I_FENCE_TSO | I_PAUSE | I_ECALL |
    I_EBREAK | I_SLLI | I_SRLI | I_SRAI | I_ADDIW | I_SLLIW | I_SRLIW | I_SRAIW | I_ADDW |
    I_SUBW | I_SLLW | I_SRLW | I_SRAW | I_MRET | I_WFI | I_CSRRW | I_CSRRS | I_CSRRC | I_CSRRWI |
    I_CSRRSI | I_CSRRCI | I_FENCE_I | I_MUL | I_MULH | I_MULHSU | I_MULHU | I_DIV | I_DIVU |
    I_REM | I_REMU | I_MULW | I_DIVW | I_DIVUW | I_REMW | I_REMUW | I_SRET | I_SFENCE_VMA |
    I_LR_W | I_LR_D | I_SC_W | I_SC_D | I_AMOSWAP_D | I_AMOSWAP_W | I_AMOADD_D | I_AMOADD_W |
    I_AMOXOR_D | I_AMOXOR_W | I_AMOAND_D | I_AMOAND_W | I_AMOOR_D | I_AMOOR_W | I_AMOMIN_D |
    I_AMOMIN_W | I_AMOMAX_D | I_AMOMAX_W | I_AMOMINU_D | I_AMOMINU_W | I_AMOMAXU_D | I_AMOMAXU_W

section \<open>The instruction table\<close>

record InstDesc =
  desc_mask :: u32
  desc_signature :: u32
  desc_name :: string
  desc_token :: InstToken

abbreviation inst_desc :: "u32 \<Rightarrow> u32 \<Rightarrow> string \<Rightarrow> InstToken \<Rightarrow> InstDesc" where
  "inst_desc m s n t \<equiv> \<lparr>desc_mask = m, desc_signature = s, desc_name = n, desc_token = t\<rparr>"

text \<open>The rows of the table in source order, twenty at a time.\<close>

definition kInstTable_0 :: "InstDesc list" where
  "kInstTable_0 =
     [inst_desc 0x0000707f 0x00000013 ''ADDI'' I_ADDI,
      inst_desc 0x0000707f 0x00003003 ''LD'' I_LD,
      inst_desc 0x0000707f 0x00003023 ''SD'' I_SD,
      inst_desc 0x0000707f 0x00001063 ''BNE'' I_BNE,
      inst_desc 0x0000007f 0x00000017 ''AUIPC'' I_AUIPC,
      inst_desc 0x0000007f 0x00000037 ''LUI'' I_LUI,
      inst_desc 0xfc00707f 0x00001013 ''SLLI'' I_SLLI,
      inst_desc 0x0000707f 0x0000001b ''ADDIW'' I_ADDIW,
      inst_desc 0x0000007f 0x0000006f ''JAL'' I_JAL,
      inst_desc 0xfe00707f 0x00000033 ''ADD'' I_ADD,
      inst_desc 0x0000707f 0x00000067 ''JALR'' I_JALR,
      inst_desc 0x0000707f 0x00000063 ''BEQ'' I_BEQ,
      inst_desc 0x0000707f 0x00004063 ''BLT'' I_BLT,
      inst_desc 0x0000707f 0x00005063 ''BGE'' I_BGE,
      inst_desc 0x0000707f 0x00006063 ''BLTU'' I_BLTU,
      inst_desc 0x0000707f 0x00007063 ''BGEU'' I_BGEU,
      inst_desc 0x0000707f 0x00000003 ''LB'' I_LB,
      inst_desc 0x0000707f 0x00001003 ''LH'' I_LH,
      inst_desc 0x0000707f 0x00002003 ''LW'' I_LW,
      inst_desc 0x0000707f 0x00004003 ''LBU'' I_LBU]"

definition kInstTable_1 :: "InstDesc list" where
  "kInstTable_1 =
     [inst_desc 0x0000707f 0x00005003 ''LHU'' I_LHU,
      inst_desc 0x0000707f 0x00000023 ''SB'' I_SB,
      inst_desc 0x0000707f 0x00001023 ''SH'' I_SH,
      inst_desc 0x0000707f 0x00002023 ''SW'' I_SW,
      inst_desc 0x0000707f 0x00002013 ''SLTI'' I_SLTI,
      inst_desc 0x0000707f 0x00003013 ''SLTIU'' I_SLTIU,
      inst_desc 0x0000707f 0x00004013 ''XORI'' I_XORI,
      inst_desc 0x0000707f 0x00006013 ''ORI'' I_ORI,
      inst_desc 0x0000707f 0x00007013 ''ANDI'' I_ANDI,
      inst_desc 0xfe00707f 0x40000033 ''SUB'' I_SUB,
      inst_desc 0xfe00707f 0x00001033 ''SLL'' I_SLL,
      inst_desc 0xfe00707f 0x00002033 ''SLT'' I_SLT,
      inst_desc 0xfe00707f 0x00003033 ''SLTU'' I_SLTU,
      inst_desc 0xfe00707f 0x00004033 ''XOR'' I_XOR,
      inst_desc 0xfe00707f 0x00005033 ''SRL'' I_SRL,
      inst_desc 0xfe00707f 0x40005033 ''SRA'' I_SRA,
      inst_desc 0xfe00707f 0x00006033 ''OR'' I_OR,
      inst_desc 0xfe00707f 0x00007033 ''AND'' I_AND,
      inst_desc 0x0000707f 0x0000000f ''FENCE'' I_FENCE,
      inst_desc 0xfff0707f 0x8330000f ''FENCE.TSO'' I_FENCE_TSO]"

definition kInstTable_2 :: "InstDesc list" where
  "kInstTable_2 =
     [inst_desc 0xffffffff 0x100000f ''PAUSE'' I_PAUSE,
      inst_desc 0xffffffff 0x00000073 ''ECALL'' I_ECALL,
      inst_desc 0xffffffff 0x00100073 ''EBREAK'' I_EBREAK,
      inst_desc 0x0000707f 0x00006003 ''LWU'' I_LWU,
      inst_desc 0xfc00707f 0x00005013 ''SRLI'' I_SRLI,
      inst_desc 0xfc00707f 0x40005013 ''SRAI'' I_SRAI,
      inst_desc 0xfe00707f 0x0000101b ''SLLIW'' I_SLLIW,
      inst_desc 0xfc00707f 0x0000501b ''SRLIW'' I_SRLIW,
      inst_desc 0xfc00707f 0x4000501b ''SRAIW'' I_SRAIW,
      inst_desc 0xfe00707f 0x0000003b ''ADDW'' I_ADDW,
      inst_desc 0xfe00707f 0x4000003b ''SUBW'' I_SUBW,
      inst_desc 0xfe00707f 0x0000103b ''SLLW'' I_SLLW,
      inst_desc 0xfe00707f 0x0000503b ''SRLW'' I_SRLW,
      inst_desc 0xfe00707f 0x4000503b ''SRAW'' I_SRAW,
      inst_desc 0xffffffff 0x30200073 ''MRET'' I_MRET,
      inst_desc 0xffffffff 0x10500073 ''WFI'' I_WFI,
      inst_desc 0x0000707f 0x00001073 ''CSRRW'' I_CSRRW,
      inst_desc 0x0000707f 0x00002073 ''CSRRS'' I_CSRRS,
      inst_desc 0x0000707f 0x00003073 ''CSRRC'' I_CSRRC,
      inst_desc 0x0000707f 0x00005073 ''CSRRWI'' I_CSRRWI]"

definition kInstTable_3 :: "InstDesc list" where
  "kInstTable_3 =
     [inst_desc 0x0000707f 0x00006073 ''CSRRSI'' I_CSRRSI,
      inst_desc 0x0000707f 0x00007073 ''CSRRCI'' I_CSRRCI,
      inst_desc 0x0000707f 0x0000100f ''FENCE.I'' I_FENCE_I,
      inst_desc 0xfe00707f 0x2000033 ''MUL'' I_MUL,
      inst_desc 0xfe00707f 0x2001033 ''MULH'' I_MULH,
      inst_desc 0xfe00707f 0x2002033 ''MULHSU'' I_MULHSU,
      inst_desc 0xfe00707f 0x2003033 ''MULHU'' I_MULHU,
      inst_desc 0xfe00707f 0x2004033 ''DIV'' I_DIV,
      inst_desc 0xfe00707f 0x2005033 ''DIVU'' I_DIVU,
      inst_desc 0xfe00707f 0x2006033 ''REM'' I_REM,
      inst_desc 0xfe00707f 0x2007033 ''REMU'' I_REMU,
      inst_desc 0xfe00707f 0x200003b ''MULW'' I_MULW,
      inst_desc 0xfe00707f 0x200403b ''DIVW'' I_DIVW,
      inst_desc 0xfe00707f 0x200503b ''DIVUW'' I_DIVUW,
      inst_desc 0xfe00707f 0x200603b ''REMW'' I_REMW,
      inst_desc 0xfe00707f 0x200703b ''REMUW'' I_REMUW,
      inst_desc 0xffffffff 0x10200073 ''SRET'' I_SRET,
      inst_desc 0xfe007fff 0x12000073 ''SFENCE.VMA'' I_SFENCE_VMA,
      inst_desc 0xf9f0707f 0x1000202f ''LR.W'' I_LR_W,
      inst_desc 0xf9f0707f 0x1000302f ''LR.D'' I_LR_D]"

definition kInstTable_4 :: "InstDesc list" where
  "kInstTable_4 =
     [inst_desc 0xf800707f 0x1800202f ''SC.W'' I_SC_W,
      inst_desc 0xf800707f 0x1800302f ''SC.D'' I_SC_D,
      inst_desc 0xf800707f 0x800302f ''AMOSWAP.D'' I_AMOSWAP_D,
      inst_desc 0xf800707f 0x800202f ''AMOSWAP.W'' I_AMOSWAP_W,
      inst_desc 0xf800707f 0x302f ''AMOADD.D'' I_AMOADD_D,
      inst_desc 0xf800707f 0x202f ''AMOADD.W'' I_AMOADD_W,
      inst_desc 0xf800707f 0x2000302f ''AMOXOR.D'' I_AMOXOR_D,
      inst_desc 0xf800707f 0x2000202f ''AMOXOR.W'' I_AMOXOR_W,
      inst_desc 0xf800707f 0x6000302f ''AMOAND.D'' I_AMOAND_D,
      inst_desc 0xf800707f 0x6000202f ''AMOAND.W'' I_AMOAND_W,
      inst_desc 0xf800707f 0x4000302f ''AMOOR.D'' I_AMOOR_D,
      inst_desc 0xf800707f 0x4000202f ''AMOOR.W'' I_AMOOR_W,
      inst_desc 0xf800707f 0x8000302f ''AMOMIN.D'' I_AMOMIN_D,
      inst_desc 0xf800707f 0x8000202f ''AMOMIN.W'' I_AMOMIN_W,
      inst_desc 0xf800707f 0xa000302f ''AMOMAX.D'' I_AMOMAX_D,
      inst_desc 0xf800707f 0xa000202f ''AMOMAX.W'' I_AMOMAX_W,
      inst_desc 0xf800707f 0xc000302f ''AMOMINU.D'' I_AMOMINU_D,
      inst_desc 0xf800707f 0xc000202f ''AMOMINU.W'' I_AMOMINU_W,
      inst_desc 0xf800707f 0xe000302f ''AMOMAXU.D'' I_AMOMAXU_D,
      inst_desc 0xf800707f 0xe000202f ''AMOMAXU.W'' I_AMOMAXU_W]"

definition kInstTable :: "InstDesc list" where
  "kInstTable = kInstTable_0 @ kInstTable_1 @ kInstTable_2 @ kInstTable_3 @ kInstTable_4"

lemmas kInstTable_defs = kInstTable_def kInstTable_0_def kInstTable_1_def kInstTable_2_def
  kInstTable_3_def kInstTable_4_def

section \<open>Instruction formats\<close>

definition BTypeDesc :: layout where
  "BTypeDesc =
     [(''opcode'', 7), (''imm11'', 1), (''imm4_1'', 4), (''funct3'', 3), (''rs1'', 5),
      (''rs2'', 5), (''imm10_5'', 6), (''imm12'', 1)]"

definition JTypeDesc :: layout where
  "JTypeDesc =
     [(''opcode'', 7), (''rd'', 5), (''imm19_12'', 8), (''imm11'', 1), (''imm10_1'', 10),
      (''imm20'', 1)]"

definition STypeDesc :: layout where
  "STypeDesc =
     [(''opcode'', 7), (''imm4_0'', 5), (''funct3'', 3), (''rs1'', 5), (''rs2'', 5),
      (''imm11_5'', 7)]"

definition CsrTypeDesc :: layout where
  "CsrTypeDesc =
     [(''opcode'', 7), (''rd'', 5), (''funct3'', 3), (''rs1'', 5), (''imm'', 12)]"

definition UTypeDesc :: layout where
  "UTypeDesc =
     [(''opcode'', 7), (''rd'', 5), (''imm_31_12'', 20)]"

definition RTypeDesc :: layout where
  "RTypeDesc =
     [(''opcode'', 7), (''rd'', 5), (''funct3'', 3), (''rs1'', 5), (''rs2'', 5), (''funct7'', 7)]"

definition ITypeDesc :: layout where
  "ITypeDesc =
     [(''opcode'', 7), (''rd'', 5), (''funct3'', 3), (''rs1'', 5), (''imm'', 12)]"

definition AmoTypeDesc :: layout where
  "AmoTypeDesc =
     [(''opcode'', 7), (''rd'', 5), (''funct3'', 3), (''rs1'', 5), (''rs2'', 5),
      (''release'', 1), (''acquire'', 1), (''funct5'', 5)]"

lemma BTypeDesc_fields [field_defs]:
  "field_of BTypeDesc ''opcode'' = (0, 7)"
  "field_of BTypeDesc ''imm11'' = (7, 1)"
  "field_of BTypeDesc ''imm4_1'' = (8, 4)"
  "field_of BTypeDesc ''funct3'' = (12, 3)"
  "field_of BTypeDesc ''rs1'' = (15, 5)"
  "field_of BTypeDesc ''rs2'' = (20, 5)"
  "field_of BTypeDesc ''imm10_5'' = (25, 6)"
  "field_of BTypeDesc ''imm12'' = (31, 1)"
  by (simp_all add: field_of_def BTypeDesc_def)

lemma JTypeDesc_fields [field_defs]:
  "field_of JTypeDesc ''opcode'' = (0, 7)"
  "field_of JTypeDesc ''rd'' = (7, 5)"
  "field_of JTypeDesc ''imm19_12'' = (12, 8)"
  "field_of JTypeDesc ''imm11'' = (20, 1)"
  "field_of JTypeDesc ''imm10_1'' = (21, 10)"
  "field_of JTypeDesc ''imm20'' = (31, 1)"
  by (simp_all add: field_of_def JTypeDesc_def)

lemma STypeDesc_fields [field_defs]:
  "field_of STypeDesc ''opcode'' = (0, 7)"
  "field_of STypeDesc ''imm4_0'' = (7, 5)"
  "field_of STypeDesc ''funct3'' = (12, 3)"
  "field_of STypeDesc ''rs1'' = (15, 5)"
  "field_of STypeDesc ''rs2'' = (20, 5)"
  "field_of STypeDesc ''imm11_5'' = (25, 7)"
  by (simp_all add: field_of_def STypeDesc_def)

lemma CsrTypeDesc_fields [field_defs]:
  "field_of CsrTypeDesc ''opcode'' = (0, 7)"
  "field_of CsrTypeDesc ''rd'' = (7, 5)"
  "field_of CsrTypeDesc ''funct3'' = (12, 3)"
  "field_of CsrTypeDesc ''rs1'' = (15, 5)"
  "field_of CsrTypeDesc ''imm'' = (20, 12)"
  by (simp_all add: field_of_def CsrTypeDesc_def)

lemma UTypeDesc_fields [field_defs]:
  "field_of UTypeDesc ''opcode'' = (0, 7)"
  "field_of UTypeDesc ''rd'' = (7, 5)"
  "field_of UTypeDesc ''imm_31_12'' = (12, 20)"
  by (simp_all add: field_of_def UTypeDesc_def)

lemma RTypeDesc_fields [field_defs]:
  "field_of RTypeDesc ''opcode'' = (0, 7)"
  "field_of RTypeDesc ''rd'' = (7, 5)"
  "field_of RTypeDesc ''funct3'' = (12, 3)"
  "field_of RTypeDesc ''rs1'' = (15, 5)"
  "field_of RTypeDesc ''rs2'' = (20, 5)"
  "field_of RTypeDesc ''funct7'' = (25, 7)"
  by (simp_all add: field_of_def RTypeDesc_def)

lemma ITypeDesc_fields [field_defs]:
  "field_of ITypeDesc ''opcode'' = (0, 7)"
  "field_of ITypeDesc ''rd'' = (7, 5)"
  "field_of ITypeDesc ''funct3'' = (12, 3)"
  "field_of ITypeDesc ''rs1'' = (15, 5)"
  "field_of ITypeDesc ''imm'' = (20, 12)"
  by (simp_all add: field_of_def ITypeDesc_def)

section \<open>Immediates\<close>

definition GetImm_B :: "u32 \<Rightarrow> u32" where
  "GetImm_B desc =
     push_bit 12 (fgets (field_of BTypeDesc ''imm12'') desc) OR
     push_bit 11 (fget (field_of BTypeDesc ''imm11'') desc) OR
     push_bit 5 (fget (field_of BTypeDesc ''imm10_5'') desc) OR
     push_bit 1 (fget (field_of BTypeDesc ''imm4_1'') desc)"

definition GetImm_J :: "u32 \<Rightarrow> u32" where
  "GetImm_J desc =
     push_bit 20 (fgets (field_of JTypeDesc ''imm20'') desc) OR
     push_bit 12 (fget (field_of JTypeDesc ''imm19_12'') desc) OR
     push_bit 11 (fget (field_of JTypeDesc ''imm11'') desc) OR
     push_bit 1 (fget (field_of JTypeDesc ''imm10_1'') desc)"

definition GetImm_I :: "u32 \<Rightarrow> u32" where
  "GetImm_I desc = fgets (field_of ITypeDesc ''imm'') desc"

definition GetImm_S :: "u32 \<Rightarrow> u32" where
  "GetImm_S desc =
     push_bit 5 (fgets (field_of STypeDesc ''imm11_5'') desc) OR
     fget (field_of STypeDesc ''imm4_0'') desc"

definition GetImm_U :: "u32 \<Rightarrow> u32" where
  "GetImm_U desc = push_bit 12 (fgets (field_of UTypeDesc ''imm_31_12'') desc)"

definition GetImm_Csr :: "u32 \<Rightarrow> u32" where
  "GetImm_Csr desc = fget (field_of CsrTypeDesc ''imm'') desc"

definition GetShamt :: "u32 \<Rightarrow> bool \<Rightarrow> u8" where
  "GetShamt desc is_rv32 =
     ucast (fgets (field_of ITypeDesc ''imm'') desc AND (if is_rv32 then 0x1f else 0x3f))"

section \<open>Decoding\<close>

fun first_match :: "InstDesc list \<Rightarrow> u32 \<Rightarrow> InstToken" where
  "first_match [] word = I_UNKNOWN"
| "first_match (inst # insts) word =
     (if word AND desc_mask inst = desc_signature inst then desc_token inst
      else first_match insts word)"

definition GetToken :: "u32 \<Rightarrow> InstToken" where
  "GetToken word = first_match kInstTable word"

text \<open>
  The access size of the load and store tokens; the table's first ten entries are 0 and an
  index past its end, such as the one of \<open>UNKNOWN\<close>, is an out-of-bounds read.
\<close>

definition kAccessMemBytes :: "InstToken \<Rightarrow> u8 option" where
  "kAccessMemBytes t =
     (if t \<in> {I_LB, I_LBU, I_SB} then Some 1
      else if t \<in> {I_LH, I_LHU, I_SH} then Some 2
      else if t \<in> {I_LW, I_LWU, I_SW} then Some 4
      else if t \<in> {I_LD, I_SD} then Some 8
      else if t \<in> {I_LUI, I_AUIPC, I_JAL, I_JALR, I_BEQ, I_BNE, I_BLT, I_BGE, I_BLTU, I_BGEU} then Some 0
      else None)"

record DecodeInfo =
  word :: u32
  op :: u8
  rd :: u8
  rs1 :: u8
  rs2 :: u8
  pc :: u64
  imm :: u32
  token :: InstToken
  inst_size :: u8
  mem_size :: u8
  br_target :: u8

text \<open>The immediate of a word, \<open>indet\<close> where the constructor leaves the member unset.\<close>

definition decode_imm :: "u32 \<Rightarrow> u32 \<Rightarrow> u32" where
  "decode_imm indet w =
     (let op = ucast (fget (field_of RTypeDesc ''opcode'') w); token = GetToken w
      in if op = kStore then GetImm_S w
         else if op = kBranch then GetImm_B w
         else if op = kAuipc \<or> op = kLui then GetImm_U w
         else if op = kJal then GetImm_J w
         else if op = kImm \<or> op = kImm32 \<or> op = kJalr \<or> op = kLoad then
           (if token = I_SLLI then ucast (GetShamt w False)
            else if token = I_SRLI \<or> token = I_SRAI then ucast (GetShamt w False)
            else if token = I_SLLIW \<or> token = I_SRLIW \<or> token = I_SRAIW then ucast (GetShamt w True)
            else GetImm_I w)
         else if op = kSystem then
           (if token \<in> {I_CSRRW, I_CSRRS, I_CSRRC, I_CSRRWI, I_CSRRSI, I_CSRRCI}
            then GetImm_Csr w else indet)
         else indet)"

definition decode_mem_size :: "u8 \<Rightarrow> u32 \<Rightarrow> u8" where
  "decode_mem_size indet w =
     (let op = ucast (fget (field_of RTypeDesc ''opcode'') w)
      in if op = kAmo then push_bit (unat (fget (field_of RTypeDesc ''funct3'') w)) 1
         else if op = kLoad \<or> op = kStore then
           (case kAccessMemBytes (GetToken w) of Some n \<Rightarrow> n | None \<Rightarrow> indet)
         else indet)"

definition DecodeInfo_ctor :: "u32 \<Rightarrow> u8 \<Rightarrow> u32 \<Rightarrow> u64 \<Rightarrow> DecodeInfo" where
  "DecodeInfo_ctor indet_imm indet_mem_size inst_word addr =
     \<lparr>word = inst_word,
      op = ucast (fget (field_of RTypeDesc ''opcode'') inst_word),
      rd = ucast (fget (field_of RTypeDesc ''rd'') inst_word),
      rs1 = ucast (fget (field_of RTypeDesc ''rs1'') inst_word),
      rs2 = ucast (fget (field_of RTypeDesc ''rs2'') inst_word),
      pc = addr,
      imm = decode_imm indet_imm inst_word,
      token = GetToken inst_word,
      inst_size = 4,
      mem_size = decode_mem_size indet_mem_size inst_word,
      br_target = 0\<rparr>"

end
