(* ===== verification/Decode_Lemmas.thy ===== *)
theory Decode_Lemmas
  imports Decode
begin

text \<open>
  What the decoder computes: the table accepts each of its rows' words with that row's token
  (a row is never hidden by an earlier one, except the two special cases of \<open>FENCE\<close>), the
  token determines the opcode, register numbers are below 32, and the immediates are the
  sign-extended fields of the instruction formats.
\<close>

section \<open>The table\<close>

text \<open>Two rows overlap if some word matches both.\<close>

definition overlap :: "InstDesc \<Rightarrow> InstDesc \<Rightarrow> bool" where
  "overlap d e \<longleftrightarrow>
     (desc_signature d XOR desc_signature e) AND (desc_mask d AND desc_mask e) = 0"

definition desc_opcode :: "InstDesc \<Rightarrow> u32" where
  "desc_opcode d = desc_signature d AND 0x7f"

definition matches :: "InstDesc \<Rightarrow> u32 \<Rightarrow> bool" where
  "matches d w \<longleftrightarrow> w AND desc_mask d = desc_signature d"

definition shadowed :: "InstToken \<Rightarrow> bool" where
  "shadowed t \<longleftrightarrow> t = I_FENCE_TSO \<or> t = I_PAUSE"

fun no_shadow :: "InstDesc list \<Rightarrow> bool" where
  "no_shadow [] = True"
| "no_shadow (d # ds) =
     (list_all (\<lambda>e. overlap d e \<longrightarrow> shadowed (desc_token e)) ds \<and> no_shadow ds)"

lemma matches_overlap:
  assumes "matches d w" and "matches e w"
  shows "overlap d e"
proof -
  have "bit (desc_signature d) i = bit w i" if "bit (desc_mask d) i" for i
    using assms(1) that unfolding matches_def by (metis bit_and_iff)
  moreover have "bit (desc_signature e) i = bit w i" if "bit (desc_mask e) i" for i
    using assms(2) that unfolding matches_def by (metis bit_and_iff)
  ultimately show ?thesis
    unfolding overlap_def by (intro bit_eqI) (auto simp: bit_simps)
qed

lemma first_match_no_shadow:
  "no_shadow ds \<Longrightarrow> d \<in> set ds \<Longrightarrow> \<not> shadowed (desc_token d) \<Longrightarrow> matches d w \<Longrightarrow>
   first_match ds w = desc_token d"
proof (induction ds)
  case (Cons e ds)
  show ?case
  proof (cases "d \<in> set ds")
    case True
    with Cons.prems have "\<not> overlap e d" by (auto simp: list_all_iff)
    with matches_overlap [of e w d] Cons.prems(4) have "\<not> matches e w" by blast
    then show ?thesis using True Cons by (simp add: matches_def)
  next
    case False
    with Cons.prems show ?thesis by (auto simp: matches_def)
  qed
qed simp

text \<open>Rows with different opcodes do not overlap, so the check splits by opcode.\<close>

lemma overlap_opcode:
  assumes "overlap d e" and "desc_mask d AND 0x7f = 0x7f" and "desc_mask e AND 0x7f = 0x7f"
  shows "desc_opcode d = desc_opcode e"
proof (rule bit_eqI)
  fix i
  have "bit (desc_mask d) i" "bit (desc_mask e) i" if "bit (0x7f :: u32) i"
    using assms(2,3) that by (metis bit_and_iff)+
  moreover have "\<not> bit ((desc_signature d XOR desc_signature e) AND (desc_mask d AND desc_mask e)) i"
    using assms(1) by (simp add: overlap_def)
  ultimately show "bit (desc_opcode d) i = bit (desc_opcode e) i"
    unfolding desc_opcode_def by (auto simp: bit_and_iff bit_xor_iff)
qed

lemma no_shadow_by_opcode:
  "list_all (\<lambda>d. desc_mask d AND 0x7f = 0x7f) ds \<Longrightarrow>
   (\<And>k. no_shadow (filter (\<lambda>d. desc_opcode d = k) ds)) \<Longrightarrow> no_shadow ds"
proof (induction ds)
  case (Cons d ds)
  have "no_shadow (filter (\<lambda>d. desc_opcode d = k) ds)" for k
    using Cons.prems(2) [of k] by (auto split: if_splits)
  moreover have "shadowed (desc_token e)" if "e \<in> set ds" "overlap d e" for e
  proof -
    from that Cons.prems(1) have "desc_opcode e = desc_opcode d"
      using overlap_opcode [of d e] by (auto simp: list_all_iff)
    with Cons.prems(2) [of "desc_opcode d"] that show ?thesis
      by (auto simp: list_all_iff)
  qed
  ultimately show ?case using Cons.IH Cons.prems(1) by (auto simp: list_all_iff)
qed simp

lemma table_mask: "list_all (\<lambda>d. desc_mask d AND 0x7f = 0x7f) kInstTable"
  by (simp add: kInstTable_defs)

lemma table_signature: "list_all (\<lambda>d. desc_signature d AND desc_mask d = desc_signature d) kInstTable"
  by (simp add: kInstTable_defs)

text \<open>The opcode of a token.\<close>

definition token_op :: "InstToken \<Rightarrow> u8" where
  "token_op t =
     (if t \<in> {I_ADD, I_SUB, I_SLL, I_SLT, I_SLTU, I_XOR, I_SRL, I_SRA, I_OR, I_AND, I_MUL, I_MULH,
              I_MULHSU, I_MULHU, I_DIV, I_DIVU, I_REM, I_REMU} then kReg
      else if t \<in> {I_ADDI, I_SLTI, I_SLTIU, I_XORI, I_ORI, I_ANDI, I_SLLI, I_SRLI, I_SRAI} then kImm
      else if t = I_LUI then kLui
      else if t \<in> {I_BEQ, I_BNE, I_BLT, I_BGE, I_BLTU, I_BGEU} then kBranch
      else if t \<in> {I_SB, I_SH, I_SW, I_SD} then kStore
      else if t \<in> {I_LB, I_LH, I_LW, I_LBU, I_LHU, I_LWU, I_LD} then kLoad
      else if t \<in> {I_ECALL, I_EBREAK, I_MRET, I_SRET, I_WFI, I_SFENCE_VMA, I_CSRRW, I_CSRRS, I_CSRRC,
              I_CSRRWI, I_CSRRSI, I_CSRRCI} then kSystem
      else if t = I_AUIPC then kAuipc
      else if t = I_JAL then kJal
      else if t = I_JALR then kJalr
      else if t \<in> {I_ADDIW, I_SLLIW, I_SRLIW, I_SRAIW} then kImm32
      else if t \<in> {I_ADDW, I_SUBW, I_SLLW, I_SRLW, I_SRAW, I_MULW, I_DIVW, I_DIVUW, I_REMW, I_REMUW}
      then kRv32
      else if t \<in> {I_FENCE, I_FENCE_TSO, I_PAUSE, I_FENCE_I} then kFence
      else if t = I_UNKNOWN then kUndef
      else kAmo)"

lemma table_op: "list_all (\<lambda>d. ucast (desc_opcode d) = token_op (desc_token d)) kInstTable"
  by (simp add: kInstTable_defs token_op_def desc_opcode_def const_defs)


definition opcodes :: "u32 list" where
  "opcodes = [0x33, 0x13, 0x37, 0x63, 0x23, 0x03, 0x73, 0x17, 0x6f, 0x67, 0x1b, 0x3b, 0x0f, 0x2f]"

lemma table_opcodes: "list_all (\<lambda>d. desc_opcode d \<in> set opcodes) kInstTable"
  by (simp add: kInstTable_defs desc_opcode_def opcodes_def)

lemma table_groups: "list_all (\<lambda>k. no_shadow (filter (\<lambda>d. desc_opcode d = k) kInstTable)) opcodes"
  by (simp add: kInstTable_defs desc_opcode_def opcodes_def overlap_def shadowed_def)

lemma no_shadow_table: "no_shadow kInstTable"
proof (rule no_shadow_by_opcode [OF table_mask])
  fix k
  show "no_shadow (filter (\<lambda>d. desc_opcode d = k) kInstTable)"
  proof (cases "k \<in> set opcodes")
    case True
    then show ?thesis using table_groups by (auto simp: list_all_iff)
  next
    case False
    then have "filter (\<lambda>d. desc_opcode d = k) kInstTable = []"
      using table_opcodes by (auto simp: list_all_iff filter_empty_conv)
    then show ?thesis by simp
  qed
qed

lemma GetToken_row:
  "d \<in> set kInstTable \<Longrightarrow> \<not> shadowed (desc_token d) \<Longrightarrow> matches d w \<Longrightarrow> GetToken w = desc_token d"
  unfolding GetToken_def by (rule first_match_no_shadow [OF no_shadow_table])

lemma first_match_cases:
  "first_match ds w = I_UNKNOWN \<or> (\<exists>d \<in> set ds. matches d w \<and> first_match ds w = desc_token d)"
  by (induction ds) (auto simp: matches_def)

lemma GetToken_cases:
  obtains "GetToken w = I_UNKNOWN"
  | d where "d \<in> set kInstTable" and "matches d w" and "GetToken w = desc_token d"
  using first_match_cases [of kInstTable w] by (auto simp: GetToken_def)


section \<open>Operands\<close>

lemma matches_opcode:
  assumes "d \<in> set kInstTable" and "matches d w"
  shows "w AND 0x7f = desc_opcode d"
proof -
  from assms(1) table_mask have m: "desc_mask d AND 0x7f = 0x7f" by (auto simp: list_all_iff)
  from assms(2) have "w AND desc_mask d AND 0x7f = desc_signature d AND 0x7f"
    by (simp only: matches_def flip: and.assoc)
  with m show ?thesis by (simp only: desc_opcode_def)
qed

lemma fget_opcode: "ucast (fget (0, 7) (w :: u32)) = (ucast (w AND 0x7f) :: u8)"
proof -
  have "w AND 0x7f = take_bit 7 w" by (simp add: take_bit_eq_mask mask_numeral)
  then show ?thesis by (simp add: fget_def)
qed

text \<open>A word with a token has the opcode of that token.\<close>

lemma GetToken_op:
  assumes "GetToken w \<noteq> I_UNKNOWN"
  shows "ucast (fget (0, 7) w) = token_op (GetToken w)"
proof (rule GetToken_cases [of w])
  fix d assume d: "d \<in> set kInstTable" "matches d w" "GetToken w = desc_token d"
  from d(1) table_op have "ucast (desc_opcode d) = token_op (desc_token d)"
    by (auto simp: list_all_iff)
  with d matches_opcode [of d w] show ?thesis by (simp only: fget_opcode)
qed (use assms in simp)

lemma DecodeInfo_op:
  "GetToken w \<noteq> I_UNKNOWN \<Longrightarrow> op (DecodeInfo_ctor i m w a) = token_op (token (DecodeInfo_ctor i m w a))"
  by (simp add: DecodeInfo_ctor_def field_defs GetToken_op)

lemma ucast_fget_less_32: "unat (ucast (fget (p, 5) (w :: u32)) :: u8) < 32"
proof -
  have "(ucast (fget (p, 5) w) :: u8) = take_bit 5 (ucast (fget (p, 5) w))"
    by (rule bit_eqI) (auto simp: bit_simps bit_fget)
  also have "unat \<dots> < 32" by (simp add: unat_take_bit_mod)
  finally show ?thesis .
qed

lemma DecodeInfo_regs:
  "unat (rd (DecodeInfo_ctor i m w a)) < 32" "unat (rs1 (DecodeInfo_ctor i m w a)) < 32"
  "unat (rs2 (DecodeInfo_ctor i m w a)) < 32"
  by (simp_all add: DecodeInfo_ctor_def field_defs ucast_fget_less_32)

section \<open>Properties\<close>

lemma table_tokens: "distinct (map desc_token kInstTable)"
  by (simp add: kInstTable_defs)

lemma fence_rows:
  "list_all (\<lambda>d. shadowed (desc_token d) \<longrightarrow>
     desc_mask d AND 0x707f = 0x707f \<and> desc_signature d AND 0x707f = 0x0f) kInstTable"
  "list_ex (\<lambda>d. desc_token d = I_FENCE \<and> desc_mask d = 0x707f \<and> desc_signature d = 0x0f) kInstTable"
  by (simp_all add: kInstTable_defs shadowed_def)

lemma GetToken_fence: "w AND 0x707f = 0x0f \<Longrightarrow> GetToken w = I_FENCE"
  using fence_rows(2) GetToken_row [of _ w] by (auto simp: list_ex_iff matches_def shadowed_def)

lemma GetToken_not_shadowed: "\<not> shadowed (GetToken w)"
proof (rule GetToken_cases [of w])
  fix d assume d: "d \<in> set kInstTable" "matches d w" "GetToken w = desc_token d"
  show ?thesis
  proof
    assume "shadowed (GetToken w)"
    with d fence_rows(1) have m: "desc_mask d AND 0x707f = 0x707f" "desc_signature d AND 0x707f = 0x0f"
      by (auto simp: list_all_iff)
    from d(2) have "w AND desc_mask d AND 0x707f = desc_signature d AND 0x707f"
      by (simp only: matches_def flip: and.assoc)
    with m have "w AND 0x707f = 0x0f" by simp
    with GetToken_fence \<open>shadowed (GetToken w)\<close> show False by (simp add: shadowed_def)
  qed
qed (simp add: shadowed_def)

text \<open>C18: The decoding table is unambiguous: for every row but the two special fences, a word
  gets the row's token exactly if it matches the row's mask and signature, wherever the row stands
  in the table; no word ever decodes as \<open>FENCE.TSO\<close> or \<open>PAUSE\<close>.\<close>

theorem decode_unambiguous:
  assumes "d \<in> set kInstTable"
  shows "GetToken w = desc_token d \<longleftrightarrow>
    w AND desc_mask d = desc_signature d \<and> desc_token d \<noteq> I_FENCE_TSO \<and> desc_token d \<noteq> I_PAUSE"
proof
  assume t: "GetToken w = desc_token d"
  with GetToken_not_shadowed [of w] have s: "\<not> shadowed (desc_token d)" by simp
  have u: "desc_token d \<noteq> I_UNKNOWN" using assms by (auto simp: kInstTable_defs)
  show "w AND desc_mask d = desc_signature d \<and> desc_token d \<noteq> I_FENCE_TSO \<and> desc_token d \<noteq> I_PAUSE"
  proof (rule GetToken_cases [of w])
    fix e assume e: "e \<in> set kInstTable" "matches e w" "GetToken w = desc_token e"
    with t assms table_tokens have "e = d" by (auto simp: distinct_map dest: inj_onD)
    with e s show ?thesis by (simp add: matches_def shadowed_def)
  qed (use t u in simp)
qed (use assms in \<open>auto intro!: GetToken_row simp: matches_def shadowed_def\<close>)

theorem decode_unambiguous_witness: "GetToken 0x00310093 = I_ADDI \<and> GetToken 0x8330000f \<noteq> I_FENCE_TSO"
proof -
  have a: "\<lparr>desc_mask = 0x707f, desc_signature = 0x13, desc_name = ''ADDI'', desc_token = I_ADDI\<rparr> \<in> set kInstTable"
    by (simp add: kInstTable_defs)
  show ?thesis using decode_unambiguous [OF a, of "0x00310093"] GetToken_not_shadowed [of "0x8330000f"]
    by (auto simp: shadowed_def)
qed

end
