(* ===== verification/Encode.thy ===== *)
theory Encode
  imports Decode_Lemmas
begin

text \<open>
  The other direction: the instruction encodings of the RISC-V manual (opcode, minor opcodes
  and operand formats of RV64IMA with the privileged instructions), written independently of
  the decoder's table, and the round trip: decoding an encoded instruction gives back its
  token, its registers and its immediate.
\<close>

section \<open>Formats\<close>

datatype format = FmtR | FmtI | FmtS | FmtB | FmtU | FmtJ | FmtShamt6 | FmtShamt5 | FmtCsr
  | FmtLr | FmtSfence | FmtNone

text \<open>The operands of each format put into an instruction word.\<close>

primrec place :: "format \<Rightarrow> u32 \<Rightarrow> u32 \<Rightarrow> u32 \<Rightarrow> u32 \<Rightarrow> u32 \<Rightarrow> u32" where
  "place FmtR d s1 s2 i w = fset (7, 5) d (fset (15, 5) s1 (fset (20, 5) s2 w))"
| "place FmtI d s1 s2 i w = fset (7, 5) d (fset (15, 5) s1 (fset (20, 12) i w))"
| "place FmtS d s1 s2 i w =
     fset (7, 5) i (fset (15, 5) s1 (fset (20, 5) s2 (fset (25, 7) (drop_bit 5 i) w)))"
| "place FmtB d s1 s2 i w =
     fset (7, 1) (drop_bit 11 i) (fset (8, 4) (drop_bit 1 i) (fset (15, 5) s1 (fset (20, 5) s2
       (fset (25, 6) (drop_bit 5 i) (fset (31, 1) (drop_bit 12 i) w)))))"
| "place FmtU d s1 s2 i w = fset (7, 5) d (fset (12, 20) (drop_bit 12 i) w)"
| "place FmtJ d s1 s2 i w =
     fset (7, 5) d (fset (12, 8) (drop_bit 12 i) (fset (20, 1) (drop_bit 11 i)
       (fset (21, 10) (drop_bit 1 i) (fset (31, 1) (drop_bit 20 i) w))))"
| "place FmtShamt6 d s1 s2 i w = fset (7, 5) d (fset (15, 5) s1 (fset (20, 6) i w))"
| "place FmtShamt5 d s1 s2 i w = fset (7, 5) d (fset (15, 5) s1 (fset (20, 5) i w))"
| "place FmtCsr d s1 s2 i w = fset (7, 5) d (fset (15, 5) s1 (fset (20, 12) i w))"
| "place FmtLr d s1 s2 i w = fset (7, 5) d (fset (15, 5) s1 w)"
| "place FmtSfence d s1 s2 i w = fset (15, 5) s1 (fset (20, 5) s2 w)"
| "place FmtNone d s1 s2 i w = w"

text \<open>The bits of the word the operands occupy.\<close>

primrec place_mask :: "format \<Rightarrow> u32" where
  "place_mask FmtR = 0x1ff8f80"
| "place_mask FmtI = 0xffff8f80"
| "place_mask FmtS = 0xffff8f80"
| "place_mask FmtB = 0xffff8f80"
| "place_mask FmtU = 0xffffff80"
| "place_mask FmtJ = 0xffffff80"
| "place_mask FmtShamt6 = 0x3ff8f80"
| "place_mask FmtShamt5 = 0x1ff8f80"
| "place_mask FmtCsr = 0xffff8f80"
| "place_mask FmtLr = 0xf8f80"
| "place_mask FmtSfence = 0x1ff8000"
| "place_mask FmtNone = 0"

text \<open>The immediates a format can express.\<close>

fun imm_ok :: "format \<Rightarrow> u32 \<Rightarrow> bool" where
  "imm_ok FmtI i = (signed_take_bit 11 i = i)"
| "imm_ok FmtS i = (signed_take_bit 11 i = i)"
| "imm_ok FmtB i = (signed_take_bit 12 i = i \<and> \<not> bit i 0)"
| "imm_ok FmtU i = (take_bit 12 i = 0)"
| "imm_ok FmtJ i = (signed_take_bit 20 i = i \<and> \<not> bit i 0)"
| "imm_ok FmtShamt6 i = (take_bit 6 i = i)"
| "imm_ok FmtShamt5 i = (take_bit 5 i = i)"
| "imm_ok FmtCsr i = (take_bit 12 i = i)"
| "imm_ok _ i = True"

text \<open>Bits outside the operand fields are those of the base word.\<close>

lemma and_subset_0:
  fixes m k f :: "'a::len word"
  assumes "m AND k = 0" and "f AND NOT k = 0"
  shows "m AND f = 0"
proof (rule bit_eqI)
  fix i
  have "\<not> bit (m AND k) i" "\<not> bit (f AND NOT k) i" using assms by simp_all
  then show "bit (m AND f) i = bit 0 i" by (auto simp: bit_simps dest: bit_imp_le_length)
qed

lemma place_outside:
  assumes "m AND place_mask f = 0"
  shows "place f d s1 s2 i w AND m = w AND m"
proof -
  have *: "fset (p, n) v x AND m = x AND m"
    if "push_bit p (mask n) AND NOT (place_mask f) = 0" for p n v x
    using and_subset_0 [OF assms that] by (rule fset_outside)
  show ?thesis
    by (cases f) (simp_all add: * mask_numeral)
qed

text \<open>The operands are read back from their fields.\<close>

lemma place_rd:
  "f \<in> {FmtR, FmtI, FmtU, FmtJ, FmtShamt6, FmtShamt5, FmtCsr, FmtLr} \<Longrightarrow>
   fget (7, 5) (place f d s1 s2 i w) = take_bit 5 d"
  by (elim insertE) simp_all

lemma place_rs1:
  "f \<in> {FmtR, FmtI, FmtS, FmtB, FmtShamt6, FmtShamt5, FmtCsr, FmtLr, FmtSfence} \<Longrightarrow>
   fget (15, 5) (place f d s1 s2 i w) = take_bit 5 s1"
  by (elim insertE) simp_all

lemma place_rs2:
  "f \<in> {FmtR, FmtS, FmtB, FmtSfence} \<Longrightarrow> fget (20, 5) (place f d s1 s2 i w) = take_bit 5 s2"
  by (elim insertE) simp_all

text \<open>A 32-bit word is determined by its 32 bits, checked one by one.\<close>

lemma all_less_32: "(\<forall>k < 32. P k) \<longleftrightarrow>
  P 0 \<and> P 1 \<and> P 2 \<and> P 3 \<and> P 4 \<and> P 5 \<and> P 6 \<and> P 7 \<and> P 8 \<and> P 9 \<and> P 10 \<and> P 11 \<and> P 12 \<and> P 13 \<and>
  P 14 \<and> P 15 \<and> P 16 \<and> P 17 \<and> P 18 \<and> P 19 \<and> P 20 \<and> P 21 \<and> P 22 \<and> P 23 \<and> P 24 \<and> P 25 \<and> P 26 \<and>
  P 27 \<and> P 28 \<and> P 29 \<and> P 30 \<and> P (31 :: nat)"
  by (simp add: numeral_eq_Suc All_less_Suc conj_ac)

lemma u32_eqI: "\<forall>k < 32. bit v k = bit w k \<Longrightarrow> v = (w :: u32)"
  by (rule bit_eqI) simp

lemma signed_bit:
  assumes "signed_take_bit n i = i" and "n < k" and "k < 32"
  shows "bit (i :: u32) k = bit i n"
proof -
  have "bit i k = bit (signed_take_bit n i) k" using assms(1) by simp
  also have "\<dots> = bit i n" using assms(2,3) by (simp add: bit_signed_take_bit_iff)
  finally show ?thesis .
qed

lemma low_bit_0: "take_bit n i = (0 :: u32) \<Longrightarrow> k < n \<Longrightarrow> \<not> bit i k"
  by (metis bit_0_eq bit_take_bit_iff bot_apply bot_bool_def)

lemma GetImm_I_place: "imm_ok FmtI i \<Longrightarrow> GetImm_I (place FmtI d s1 s2 i w) = i"
  by (simp add: GetImm_I_def field_defs)

lemma GetImm_Csr_place: "imm_ok FmtCsr i \<Longrightarrow> GetImm_Csr (place FmtCsr d s1 s2 i w) = i"
  by (simp add: GetImm_Csr_def field_defs)

lemma GetImm_S_place:
  assumes "imm_ok FmtS i"
  shows "GetImm_S (place FmtS d s1 s2 i w) = i"
proof -
  from assms have "signed_take_bit 11 i = i" by simp
  note sign = signed_bit [OF this]
  show ?thesis
    by (rule u32_eqI) (simp add: all_less_32 GetImm_S_def field_defs bit_simps sign)
qed

lemma bit_GetImm_B:
  "bit (GetImm_B w) k \<longleftrightarrow> k < 32 \<and>
     ((12 \<le> k \<and> bit w 31) \<or> (11 \<le> k \<and> k - 11 < 1 \<and> bit w (7 + (k - 11))) \<or>
      (5 \<le> k \<and> k - 5 < 6 \<and> bit w (25 + (k - 5))) \<or> (1 \<le> k \<and> k - 1 < 4 \<and> bit w (8 + (k - 1))))"
  unfolding GetImm_B_def field_defs bit_or_iff bit_push_bit_iff bit_fget
  by (subst bit_fgets) (auto dest: bit_imp_le_length)

lemma bit_GetImm_J:
  "bit (GetImm_J w) k \<longleftrightarrow> k < 32 \<and>
     ((20 \<le> k \<and> bit w 31) \<or> (12 \<le> k \<and> k - 12 < 8 \<and> bit w (12 + (k - 12))) \<or>
      (11 \<le> k \<and> k - 11 < 1 \<and> bit w (20 + (k - 11))) \<or> (1 \<le> k \<and> k - 1 < 10 \<and> bit w (21 + (k - 1))))"
  unfolding GetImm_J_def field_defs bit_or_iff bit_push_bit_iff bit_fget
  by (subst bit_fgets) (auto dest: bit_imp_le_length)

lemma GetImm_B_place:
  assumes "imm_ok FmtB i"
  shows "GetImm_B (place FmtB d s1 s2 i w) = i"
proof -
  from assms have "signed_take_bit 12 i = i" and even: "\<not> bit i 0" by simp_all
  note sign = signed_bit [OF this(1)]
  show ?thesis
    by (rule u32_eqI) (use even in \<open>simp add: all_less_32 bit_GetImm_B bit_fset bit_drop_bit_eq sign\<close>,
      simp add: numeral_2_eq_2 numeral_3_eq_3)
qed

lemma GetImm_J_place:
  assumes "imm_ok FmtJ i"
  shows "GetImm_J (place FmtJ d s1 s2 i w) = i"
proof -
  from assms have "signed_take_bit 20 i = i" and even: "\<not> bit i 0" by simp_all
  note sign = signed_bit [OF this(1)]
  show ?thesis
    by (rule u32_eqI) (use even in \<open>simp add: all_less_32 bit_GetImm_J bit_fset bit_drop_bit_eq sign\<close>,
      simp add: numeral_2_eq_2 numeral_3_eq_3)
qed

lemma GetImm_U_place:
  assumes "imm_ok FmtU i"
  shows "GetImm_U (place FmtU d s1 s2 i w) = i"
proof -
  from assms have "take_bit 12 i = 0" by simp
  note low = low_bit_0 [OF this]
  show ?thesis
    by (rule u32_eqI) (simp add: all_less_32 GetImm_U_def field_defs bit_simps low)
qed


lemma GetShamt_place:
  "imm_ok FmtShamt6 i \<Longrightarrow> ucast (GetShamt (place FmtShamt6 d s1 s2 i w) False) = i"
  "imm_ok FmtShamt5 i \<Longrightarrow> ucast (GetShamt (place FmtShamt5 d s1 s2 i w) True) = i"
proof -
  have mask: "(0x3f :: u32) = mask 6" "(0x1f :: u32) = mask 5" by (simp_all add: mask_numeral)
  assume "imm_ok FmtShamt6 i"
  then have t: "take_bit 6 i = i" by simp
  show "ucast (GetShamt (place FmtShamt6 d s1 s2 i w) False) = i"
  proof (rule bit_eqI)
    fix k assume "possible_bit TYPE(32 word) k"
    show "bit (ucast (GetShamt (place FmtShamt6 d s1 s2 i w) False) :: u32) k = bit i k"
      by (subst (2) t [symmetric]) (auto simp: GetShamt_def field_defs mask bit_simps bit_fgets bit_fset)
  qed
next
  have mask: "(0x3f :: u32) = mask 6" "(0x1f :: u32) = mask 5" by (simp_all add: mask_numeral)
  assume "imm_ok FmtShamt5 i"
  then have t: "take_bit 5 i = i" by simp
  show "ucast (GetShamt (place FmtShamt5 d s1 s2 i w) True) = i"
  proof (rule bit_eqI)
    fix k assume "possible_bit TYPE(32 word) k"
    show "bit (ucast (GetShamt (place FmtShamt5 d s1 s2 i w) True) :: u32) k = bit i k"
      by (subst (2) t [symmetric]) (auto simp: GetShamt_def field_defs mask bit_simps bit_fgets bit_fset)
  qed
qed

section \<open>The encodings of the manual\<close>

text \<open>The fixed bits of an instruction: major opcode, \<open>funct3\<close> and the bits from 20 upwards.\<close>

definition fixed :: "u32 \<Rightarrow> u32 \<Rightarrow> u32 \<Rightarrow> u32" where
  "fixed opc f3 f12 = opc OR push_bit 12 f3 OR push_bit 20 f12"

definition isa_table :: "(InstToken \<times> format \<times> u32) list" where
  "isa_table =
     [(I_ADDI, FmtI, fixed 0x13 0 0), (I_LD, FmtI, fixed 0x03 3 0), (I_SD, FmtS, fixed 0x23 3 0),
      (I_BNE, FmtB, fixed 0x63 1 0), (I_AUIPC, FmtU, fixed 0x17 0 0),
      (I_LUI, FmtU, fixed 0x37 0 0), (I_SLLI, FmtShamt6, fixed 0x13 1 0),
      (I_ADDIW, FmtI, fixed 0x1b 0 0), (I_JAL, FmtJ, fixed 0x6f 0 0),
      (I_ADD, FmtR, fixed 0x33 0 0), (I_JALR, FmtI, fixed 0x67 0 0), (I_BEQ, FmtB, fixed 0x63 0 0),
      (I_BLT, FmtB, fixed 0x63 4 0), (I_BGE, FmtB, fixed 0x63 5 0), (I_BLTU, FmtB, fixed 0x63 6 0),
      (I_BGEU, FmtB, fixed 0x63 7 0), (I_LB, FmtI, fixed 0x03 0 0), (I_LH, FmtI, fixed 0x03 1 0),
      (I_LW, FmtI, fixed 0x03 2 0), (I_LBU, FmtI, fixed 0x03 4 0), (I_LHU, FmtI, fixed 0x03 5 0),
      (I_SB, FmtS, fixed 0x23 0 0), (I_SH, FmtS, fixed 0x23 1 0), (I_SW, FmtS, fixed 0x23 2 0),
      (I_SLTI, FmtI, fixed 0x13 2 0), (I_SLTIU, FmtI, fixed 0x13 3 0),
      (I_XORI, FmtI, fixed 0x13 4 0), (I_ORI, FmtI, fixed 0x13 6 0),
      (I_ANDI, FmtI, fixed 0x13 7 0), (I_SUB, FmtR, fixed 0x33 0 0x400),
      (I_SLL, FmtR, fixed 0x33 1 0), (I_SLT, FmtR, fixed 0x33 2 0), (I_SLTU, FmtR, fixed 0x33 3 0),
      (I_XOR, FmtR, fixed 0x33 4 0), (I_SRL, FmtR, fixed 0x33 5 0),
      (I_SRA, FmtR, fixed 0x33 5 0x400), (I_OR, FmtR, fixed 0x33 6 0),
      (I_AND, FmtR, fixed 0x33 7 0), (I_FENCE, FmtNone, fixed 0x0f 0 0xff),
      (I_ECALL, FmtNone, fixed 0x73 0 0), (I_EBREAK, FmtNone, fixed 0x73 0 0x1),
      (I_LWU, FmtI, fixed 0x03 6 0), (I_SRLI, FmtShamt6, fixed 0x13 5 0),
      (I_SRAI, FmtShamt6, fixed 0x13 5 0x400), (I_SLLIW, FmtShamt5, fixed 0x1b 1 0),
      (I_SRLIW, FmtShamt5, fixed 0x1b 5 0), (I_SRAIW, FmtShamt5, fixed 0x1b 5 0x400),
      (I_ADDW, FmtR, fixed 0x3b 0 0), (I_SUBW, FmtR, fixed 0x3b 0 0x400),
      (I_SLLW, FmtR, fixed 0x3b 1 0), (I_SRLW, FmtR, fixed 0x3b 5 0),
      (I_SRAW, FmtR, fixed 0x3b 5 0x400), (I_MRET, FmtNone, fixed 0x73 0 0x302),
      (I_WFI, FmtNone, fixed 0x73 0 0x105), (I_CSRRW, FmtCsr, fixed 0x73 1 0),
      (I_CSRRS, FmtCsr, fixed 0x73 2 0), (I_CSRRC, FmtCsr, fixed 0x73 3 0),
      (I_CSRRWI, FmtCsr, fixed 0x73 5 0), (I_CSRRSI, FmtCsr, fixed 0x73 6 0),
      (I_CSRRCI, FmtCsr, fixed 0x73 7 0), (I_FENCE_I, FmtNone, fixed 0x0f 1 0),
      (I_MUL, FmtR, fixed 0x33 0 0x20), (I_MULH, FmtR, fixed 0x33 1 0x20),
      (I_MULHSU, FmtR, fixed 0x33 2 0x20), (I_MULHU, FmtR, fixed 0x33 3 0x20),
      (I_DIV, FmtR, fixed 0x33 4 0x20), (I_DIVU, FmtR, fixed 0x33 5 0x20),
      (I_REM, FmtR, fixed 0x33 6 0x20), (I_REMU, FmtR, fixed 0x33 7 0x20),
      (I_MULW, FmtR, fixed 0x3b 0 0x20), (I_DIVW, FmtR, fixed 0x3b 4 0x20),
      (I_DIVUW, FmtR, fixed 0x3b 5 0x20), (I_REMW, FmtR, fixed 0x3b 6 0x20),
      (I_REMUW, FmtR, fixed 0x3b 7 0x20), (I_SRET, FmtNone, fixed 0x73 0 0x102),
      (I_SFENCE_VMA, FmtSfence, fixed 0x73 0 0x120), (I_LR_W, FmtLr, fixed 0x2f 2 0x100),
      (I_LR_D, FmtLr, fixed 0x2f 3 0x100), (I_SC_W, FmtR, fixed 0x2f 2 0x180),
      (I_SC_D, FmtR, fixed 0x2f 3 0x180), (I_AMOSWAP_D, FmtR, fixed 0x2f 3 0x80),
      (I_AMOSWAP_W, FmtR, fixed 0x2f 2 0x80), (I_AMOADD_D, FmtR, fixed 0x2f 3 0),
      (I_AMOADD_W, FmtR, fixed 0x2f 2 0), (I_AMOXOR_D, FmtR, fixed 0x2f 3 0x200),
      (I_AMOXOR_W, FmtR, fixed 0x2f 2 0x200), (I_AMOAND_D, FmtR, fixed 0x2f 3 0x600),
      (I_AMOAND_W, FmtR, fixed 0x2f 2 0x600), (I_AMOOR_D, FmtR, fixed 0x2f 3 0x400),
      (I_AMOOR_W, FmtR, fixed 0x2f 2 0x400), (I_AMOMIN_D, FmtR, fixed 0x2f 3 0x800),
      (I_AMOMIN_W, FmtR, fixed 0x2f 2 0x800), (I_AMOMAX_D, FmtR, fixed 0x2f 3 0xa00),
      (I_AMOMAX_W, FmtR, fixed 0x2f 2 0xa00), (I_AMOMINU_D, FmtR, fixed 0x2f 3 0xc00),
      (I_AMOMINU_W, FmtR, fixed 0x2f 2 0xc00), (I_AMOMAXU_D, FmtR, fixed 0x2f 3 0xe00),
      (I_AMOMAXU_W, FmtR, fixed 0x2f 2 0xe00)]"

lemma isa_table_length: "length isa_table = 98"
  by (simp add: isa_table_def)

text \<open>Each encoding of the manual is accepted by a row of the decoder's table.\<close>

definition row_accepts :: "InstDesc \<Rightarrow> InstToken \<times> format \<times> u32 \<Rightarrow> bool" where
  "row_accepts d e \<longleftrightarrow> (case e of (t, f, b) \<Rightarrow> desc_token d = t \<and> \<not> shadowed t \<and>
     desc_mask d AND place_mask f = 0 \<and> b AND desc_mask d = desc_signature d)"

lemma isa_rows:
  "list_all2 row_accepts (filter (\<lambda>d. \<not> shadowed (desc_token d)) kInstTable) isa_table"
  by (simp add: isa_table_def fixed_def kInstTable_defs row_accepts_def shadowed_def)


definition encode :: "InstToken \<Rightarrow> u32 \<Rightarrow> u32 \<Rightarrow> u32 \<Rightarrow> u32 \<Rightarrow> u32 option" where
  "encode t d s1 s2 i =
     (case map_of isa_table t of Some (f, b) \<Rightarrow> Some (place f d s1 s2 i b) | None \<Rightarrow> None)"

lemma isa_table_row:
  assumes "(t, f, b) \<in> set isa_table"
  obtains d where "d \<in> set kInstTable" and "row_accepts d (t, f, b)"
proof -
  from assms obtain k where "k < length isa_table" "isa_table ! k = (t, f, b)"
    by (auto simp: in_set_conv_nth)
  then have "row_accepts (filter (\<lambda>d. \<not> shadowed (desc_token d)) kInstTable ! k) (t, f, b)"
    and "k < length (filter (\<lambda>d. \<not> shadowed (desc_token d)) kInstTable)"
    using list_all2_nthD2 [OF isa_rows, of k] list_all2_lengthD [OF isa_rows] by simp_all
  with nth_mem [OF this(2)] show ?thesis by (auto intro: that)
qed

lemma GetToken_place:
  assumes "(t, f, b) \<in> set isa_table"
  shows "GetToken (place f d s1 s2 i b) = t"
proof -
  from assms obtain r where r: "r \<in> set kInstTable" "row_accepts r (t, f, b)" by (rule isa_table_row)
  then have "matches r (place f d s1 s2 i b)"
    by (simp add: matches_def row_accepts_def place_outside)
  with r show ?thesis by (auto simp: row_accepts_def intro!: GetToken_row)
qed

lemma isa_table_tokens: "list_all (\<lambda>(t, f, b). t \<noteq> I_UNKNOWN) isa_table"
  by (simp add: isa_table_def)

text \<open>The immediate the constructor takes from a word, by the format of its token.\<close>

fun format_imm :: "format \<Rightarrow> u32 \<Rightarrow> u32 \<Rightarrow> u32" where
  "format_imm FmtI j w = GetImm_I w"
| "format_imm FmtS j w = GetImm_S w"
| "format_imm FmtB j w = GetImm_B w"
| "format_imm FmtU j w = GetImm_U w"
| "format_imm FmtJ j w = GetImm_J w"
| "format_imm FmtShamt6 j w = ucast (GetShamt w False)"
| "format_imm FmtShamt5 j w = ucast (GetShamt w True)"
| "format_imm FmtCsr j w = GetImm_Csr w"
| "format_imm _ j w = j"

lemma decode_imm_formats:
  "list_all (\<lambda>(t, f, b). GetToken w = t \<longrightarrow> ucast (fget (0, 7) w) = token_op t \<longrightarrow>
     decode_imm j w = format_imm f j w) isa_table"
  by (simp add: isa_table_def decode_imm_def field_defs token_op_def const_defs)

lemma decode_imm_format:
  assumes "(t, f, b) \<in> set isa_table" and "GetToken w = t"
  shows "decode_imm j w = format_imm f j w"
proof -
  from assms isa_table_tokens have "GetToken w \<noteq> I_UNKNOWN" by (auto simp: list_all_iff)
  from GetToken_op [OF this] assms decode_imm_formats [of w j] show ?thesis
    by (auto simp: list_all_iff)
qed

fun has_imm :: "format \<Rightarrow> bool" where
  "has_imm f = (f \<in> {FmtI, FmtS, FmtB, FmtU, FmtJ, FmtShamt6, FmtShamt5, FmtCsr})"

lemma format_imm_place:
  "imm_ok f i \<Longrightarrow> has_imm f \<Longrightarrow> format_imm f j (place f d s1 s2 i b) = i"
  by (cases f) (simp_all only: format_imm.simps GetImm_I_place GetImm_S_place GetImm_B_place
      GetImm_U_place GetImm_J_place GetShamt_place GetImm_Csr_place has_imm.simps insert_iff empty_iff
      format.distinct simp_thms)

lemma field_of_reg:
  fixes r :: u8
  assumes "unat r < 32"
  shows "ucast (take_bit 5 (ucast r :: u32)) = r"
proof -
  have "take_bit 5 r = r" using assms by (simp add: word_unat_eq_iff unat_take_bit_mod)
  then have "bit r k \<Longrightarrow> k < 5" for k by (metis bit_take_bit_iff)
  then show ?thesis by (intro bit_eqI) (auto simp: bit_simps)
qed

text \<open>
  Decoding an encoded instruction: the token, the opcode and every operand the format has
  come back, whatever the uninitialised members are.
\<close>

lemma decode_encode_fields:
  fixes j :: u32 and m :: u8 and a :: u64
  assumes "map_of isa_table t = Some (f, b)" and "unat d < 32" and "unat s1 < 32" and "unat s2 < 32"
    and "imm_ok f i" and w: "encode t (ucast d) (ucast s1) (ucast s2) i = Some w"
  defines "info \<equiv> DecodeInfo_ctor j m w a"
  shows "token info = t" and "op info = token_op t"
    and "f \<in> {FmtR, FmtI, FmtU, FmtJ, FmtShamt6, FmtShamt5, FmtCsr, FmtLr} \<Longrightarrow> rd info = d"
    and "f \<in> {FmtR, FmtI, FmtS, FmtB, FmtShamt6, FmtShamt5, FmtCsr, FmtLr, FmtSfence} \<Longrightarrow> rs1 info = s1"
    and "f \<in> {FmtR, FmtS, FmtB, FmtSfence} \<Longrightarrow> rs2 info = s2"
    and "has_imm f \<Longrightarrow> imm info = i"
proof -
  from assms(1) have isa: "(t, f, b) \<in> set isa_table" by (rule map_of_SomeD)
  from w assms(1) have w: "w = place f (ucast d) (ucast s1) (ucast s2) i b" by (simp add: encode_def)
  have tok: "GetToken w = t" unfolding w by (rule GetToken_place [OF isa])
  show "token info = t" by (simp add: info_def DecodeInfo_ctor_def tok)
  from isa isa_table_tokens have "t \<noteq> I_UNKNOWN" by (auto simp: list_all_iff)
  with tok DecodeInfo_op [of w j m a] show "op info = token_op t"
    by (simp add: info_def) (simp add: DecodeInfo_ctor_def)
  show "rd info = d" if "f \<in> {FmtR, FmtI, FmtU, FmtJ, FmtShamt6, FmtShamt5, FmtCsr, FmtLr}"
    using place_rd [OF that] field_of_reg [OF assms(2)]
    by (simp add: info_def DecodeInfo_ctor_def field_defs w del: place.simps)
  show "rs1 info = s1"
    if "f \<in> {FmtR, FmtI, FmtS, FmtB, FmtShamt6, FmtShamt5, FmtCsr, FmtLr, FmtSfence}"
    using place_rs1 [OF that] field_of_reg [OF assms(3)]
    by (simp add: info_def DecodeInfo_ctor_def field_defs w del: place.simps)
  show "rs2 info = s2" if "f \<in> {FmtR, FmtS, FmtB, FmtSfence}"
    using place_rs2 [OF that] field_of_reg [OF assms(4)]
    by (simp add: info_def DecodeInfo_ctor_def field_defs w del: place.simps)
  show "imm info = i" if "has_imm f"
    using decode_imm_format [OF isa tok] format_imm_place [OF assms(5) that]
    by (simp add: info_def DecodeInfo_ctor_def w del: place.simps has_imm.simps)
qed

section \<open>Properties\<close>

text \<open>C4: Decoding is a left inverse of the manual's encoding: for each of the 98 instructions,
  all registers and every immediate the format can express, the decoder recovers the token, the
  opcode and each operand the format has, whatever its uninitialised members held.\<close>

theorem decode_encode:
  assumes "map_of isa_table t = Some (f, b)" and "unat d < 32" and "unat s1 < 32" and "unat s2 < 32"
    and "imm_ok f i" and "encode t (ucast d) (ucast s1) (ucast s2) i = Some w"
  shows "let info = DecodeInfo_ctor j m w a in
    token info = t \<and> op info = token_op t \<and>
    (f \<in> {FmtR, FmtI, FmtU, FmtJ, FmtShamt6, FmtShamt5, FmtCsr, FmtLr} \<longrightarrow> rd info = d) \<and>
    (f \<in> {FmtR, FmtI, FmtS, FmtB, FmtShamt6, FmtShamt5, FmtCsr, FmtLr, FmtSfence} \<longrightarrow> rs1 info = s1) \<and>
    (f \<in> {FmtR, FmtS, FmtB, FmtSfence} \<longrightarrow> rs2 info = s2) \<and>
    (has_imm f \<longrightarrow> imm info = i)"
  unfolding Let_def by (intro conjI impI decode_encode_fields [OF assms])

theorem decode_encode_witness:
  "let info = DecodeInfo_ctor 0 0 0xffb10093 0x80000000 in
    token info = I_ADDI \<and> rd info = 1 \<and> rs1 info = 2 \<and> imm info = - 5"
proof -
  have t: "map_of isa_table I_ADDI = Some (FmtI, fixed 0x13 0 0)" by (simp add: isa_table_def)
  have i: "imm_ok FmtI (- 5)" by code_simp
  have w: "encode I_ADDI (ucast (1 :: u8)) (ucast (2 :: u8)) (ucast (0 :: u8)) (- 5) = Some 0xffb10093"
    by (simp add: encode_def t) code_simp
  from decode_encode [where j = 0 and m = 0 and a = "0x80000000", OF t _ _ _ i w] show ?thesis by (simp add: Let_def)
qed

section \<open>Bounds\<close>

lemma sint_range:
  assumes "signed_take_bit n (w :: u32) = w" and "n < 31"
  shows "- (2 ^ n) \<le> sint w" and "sint w < 2 ^ n"
proof -
  have "sint w = signed_take_bit n (sint w)"
  proof (rule bit_eqI)
    fix k
    show "bit (sint w) k = bit (signed_take_bit n (sint w)) k"
    proof (cases "n < k")
      case True
      then have "bit w (min k 31) = bit w n" using signed_bit [OF assms(1), of "min k 31"] assms(2) by simp
      with True assms(2) show ?thesis
        by (cases "k \<le> 31") (auto simp: bit_sint_iff bit_signed_take_bit_iff min_def dest: bit_imp_le_length)
    qed (simp add: bit_signed_take_bit_iff)
  qed
  then show "- (2 ^ n) \<le> sint w" "sint w < 2 ^ n"
    by (metis signed_take_bit_int_greater_eq_minus_exp, metis signed_take_bit_int_less_exp)
qed

lemma signed_take_bitI:
  assumes "\<And>k. n < k \<Longrightarrow> k < 32 \<Longrightarrow> bit w k = bit w n"
  shows "signed_take_bit n (w :: u32) = w"
proof (rule bit_eqI)
  fix k
  assume "possible_bit TYPE(32 word) k"
  with assms [of k] show "bit (signed_take_bit n w) k = bit w k"
    by (cases "n < k") (simp_all add: bit_signed_take_bit_iff min_def)
qed

lemma GetImm_signed:
  "signed_take_bit 11 (GetImm_I w) = GetImm_I w" "signed_take_bit 11 (GetImm_S w) = GetImm_S w"
  "signed_take_bit 12 (GetImm_B w) = GetImm_B w" "signed_take_bit 20 (GetImm_J w) = GetImm_J w"
proof -
  show "signed_take_bit 11 (GetImm_I w) = GetImm_I w"
    by (rule signed_take_bitI) (simp add: GetImm_I_def field_defs bit_fgets min_def)
  show "signed_take_bit 11 (GetImm_S w) = GetImm_S w"
    by (rule signed_take_bitI) (auto simp: GetImm_S_def field_defs bit_fgets bit_fget bit_simps min_def)
  show "signed_take_bit 12 (GetImm_B w) = GetImm_B w"
    by (rule signed_take_bitI) (auto simp: bit_GetImm_B)
  show "signed_take_bit 20 (GetImm_J w) = GetImm_J w"
    by (rule signed_take_bitI) (auto simp: bit_GetImm_J)
qed

lemma GetImm_low: "even (sint (GetImm_B w))" "even (sint (GetImm_J w))" "take_bit 12 (GetImm_U w) = 0"
proof -
  have "\<not> bit (GetImm_B w) 0" "\<not> bit (GetImm_J w) 0" by (simp_all add: bit_GetImm_B bit_GetImm_J)
  then have "\<not> bit (sint (GetImm_B w)) 0" "\<not> bit (sint (GetImm_J w)) 0" by (simp_all add: bit_sint_iff)
  then show "even (sint (GetImm_B w))" "even (sint (GetImm_J w))" by (simp_all add: bit_0)
  show "take_bit 12 (GetImm_U w) = 0" by (simp add: GetImm_U_def take_bit_push_bit)
qed

lemma GetShamt_range: "sint (ucast (GetShamt w False) :: u32) \<in> {0..<64}" "sint (ucast (GetShamt w True) :: u32) \<in> {0..<32}"
proof -
  have mask: "(0x3f :: u32) = mask 6" "(0x1f :: u32) = mask 5" by (simp_all add: mask_numeral)
  have t: "(ucast (GetShamt w False) :: u32) = take_bit 6 (fgets (field_of ITypeDesc ''imm'') w)"
    "(ucast (GetShamt w True) :: u32) = take_bit 5 (fgets (field_of ITypeDesc ''imm'') w)"
    unfolding GetShamt_def if_True if_False mask by (rule bit_eqI; auto simp: bit_simps simp del: mask_numeral)+
  have "sint (take_bit n v :: u32) \<in> {0..<2 ^ n}" if "n < 31" for n and v :: u32
  proof -
    have u: "uint (take_bit n v) = take_bit n (uint v)" by (rule unsigned_take_bit_eq)
    then have "uint (take_bit n v) < 2 ^ n" by simp
    moreover have "(2 :: int) ^ n \<le> 2 ^ 31" using that by (intro power_increasing) simp_all
    ultimately have "uint (take_bit n v) < 2 ^ 31" by linarith
    then have "sint (take_bit n v) = uint (take_bit n v)"
      unfolding sint_uint by (intro signed_take_bit_int_eq_self) (simp_all add: order_trans [OF _ uint_ge_0])
    with u show ?thesis by simp
  qed
  from this [of 6] this [of 5] show "sint (ucast (GetShamt w False) :: u32) \<in> {0..<64}" "sint (ucast (GetShamt w True) :: u32) \<in> {0..<32}"
    unfolding t by simp_all
qed

text \<open>The immediate by opcode.\<close>

abbreviation opcode_of :: "u32 \<Rightarrow> u8" where
  "opcode_of w \<equiv> ucast (fget (field_of RTypeDesc ''opcode'') w)"

lemma decode_imm_op:
  "opcode_of w = kBranch \<Longrightarrow> decode_imm i w = GetImm_B w"
  "opcode_of w = kJal \<Longrightarrow> decode_imm i w = GetImm_J w"
  "opcode_of w = kLui \<Longrightarrow> decode_imm i w = GetImm_U w"
  "opcode_of w = kAuipc \<Longrightarrow> decode_imm i w = GetImm_U w"
  "opcode_of w = kStore \<Longrightarrow> decode_imm i w = GetImm_S w"
  "opcode_of w \<in> {kImm, kImm32, kJalr, kLoad} \<Longrightarrow> decode_imm i w =
     (if GetToken w \<in> {I_SLLI, I_SRLI, I_SRAI} then ucast (GetShamt w False)
      else if GetToken w \<in> {I_SLLIW, I_SRLIW, I_SRAIW} then ucast (GetShamt w True) else GetImm_I w)"
  by (simp_all add: decode_imm_def Let_def const_defs) (elim disjE; simp add: const_defs)

lemma decode_imm_12:
  assumes "opcode_of w \<in> {kImm, kImm32, kJalr, kLoad, kStore}"
  shows "- (2 ^ 11) \<le> sint (decode_imm i w)" and "sint (decode_imm i w) < 2 ^ 11"
proof -
  have "decode_imm i w \<in> {GetImm_S w, GetImm_I w, ucast (GetShamt w False), ucast (GetShamt w True)}"
    using assms decode_imm_op(5,6) [of w i] by (auto split: if_splits)
  moreover have "sint (GetImm_I w) \<in> {- (2 ^ 11)..<2 ^ 11}" "sint (GetImm_S w) \<in> {- (2 ^ 11)..<2 ^ 11}"
    using sint_range [OF GetImm_signed(1), of w] sint_range [OF GetImm_signed(2), of w] by simp_all
  ultimately have "sint (decode_imm i w) \<in> {- (2 ^ 11)..<2 ^ 11}" using GetShamt_range [of w] by auto
  then show "- (2 ^ 11) \<le> sint (decode_imm i w)" "sint (decode_imm i w) < 2 ^ 11" by simp_all
qed

lemma shift_opcode:
  assumes "GetToken w \<in> {I_SLLI, I_SRLI, I_SRAI, I_SLLIW, I_SRLIW, I_SRAIW}"
  shows "opcode_of w \<in> {kImm, kImm32, kJalr, kLoad}"
proof -
  from assms have "GetToken w \<noteq> I_UNKNOWN" by auto
  note op = GetToken_op [OF this]
  from assms have "token_op (GetToken w) \<in> {kImm, kImm32}" by (elim insertE emptyE) (simp_all add: token_op_def)
  then show ?thesis unfolding field_defs op by blast
qed

text \<open>C32: Whatever the word, the registers of a decoded instruction are below 32, and the immediate is
  in the range of its format: 12 signed bits for register-immediate instructions, loads, stores and
  indirect jumps, an even offset of 13 signed bits for branches and of 21 for direct jumps, a multiple of 2 ^ 12
  for the upper-immediate instructions, and a shift amount below the width of the shift.\<close>

theorem decode_bounds:
  "let d = DecodeInfo_ctor i m w a; v = sint (imm d)
   in unat (rd d) < 32 \<and> unat (rs1 d) < 32 \<and> unat (rs2 d) < 32 \<and>
      (op d \<in> {kImm, kImm32, kJalr, kLoad, kStore} \<longrightarrow> - (2 ^ 11) \<le> v \<and> v < 2 ^ 11) \<and>
      (op d = kBranch \<longrightarrow> - (2 ^ 12) \<le> v \<and> v < 2 ^ 12 \<and> even v) \<and>
      (op d = kJal \<longrightarrow> - (2 ^ 20) \<le> v \<and> v < 2 ^ 20 \<and> even v) \<and>
      (op d \<in> {kLui, kAuipc} \<longrightarrow> take_bit 12 (imm d) = 0) \<and>
      (token d \<in> {I_SLLI, I_SRLI, I_SRAI} \<longrightarrow> v \<in> {0..<64}) \<and>
      (token d \<in> {I_SLLIW, I_SRLIW, I_SRAIW} \<longrightarrow> v \<in> {0..<32})"
proof -
  let ?d = "DecodeInfo_ctor i m w a"
  have d: "op ?d = opcode_of w" "imm ?d = decode_imm i w" "token ?d = GetToken w" by (simp_all add: DecodeInfo_ctor_def)
  note B = sint_range [OF GetImm_signed(3), of w] GetImm_low(1) [of w] and J = sint_range [OF GetImm_signed(4), of w] GetImm_low(2) [of w]
  have "op ?d \<in> {kImm, kImm32, kJalr, kLoad, kStore} \<longrightarrow> - (2 ^ 11) \<le> sint (imm ?d) \<and> sint (imm ?d) < 2 ^ 11"
    unfolding d using decode_imm_12 by blast
  moreover have "op ?d = kBranch \<longrightarrow> - (2 ^ 12) \<le> sint (imm ?d) \<and> sint (imm ?d) < 2 ^ 12 \<and> even (sint (imm ?d))"
    unfolding d using decode_imm_op(1) [of w i] B by simp
  moreover have "op ?d = kJal \<longrightarrow> - (2 ^ 20) \<le> sint (imm ?d) \<and> sint (imm ?d) < 2 ^ 20 \<and> even (sint (imm ?d))"
    unfolding d using decode_imm_op(2) [of w i] J by simp
  moreover have "op ?d \<in> {kLui, kAuipc} \<longrightarrow> take_bit 12 (imm ?d) = 0"
    unfolding d using decode_imm_op(3,4) [of w i] GetImm_low(3) [of w] by auto
  moreover have "token ?d \<in> {I_SLLI, I_SRLI, I_SRAI} \<longrightarrow> sint (imm ?d) \<in> {0..<64}"
    unfolding d using decode_imm_op(6) [OF shift_opcode, of w i] GetShamt_range(1) [of w] by auto
  moreover have "token ?d \<in> {I_SLLIW, I_SRLIW, I_SRAIW} \<longrightarrow> sint (imm ?d) \<in> {0..<32}"
    unfolding d using decode_imm_op(6) [OF shift_opcode, of w i] GetShamt_range(2) [of w] by auto
  ultimately show ?thesis unfolding Let_def using DecodeInfo_regs [of i m w a] by blast
qed

theorem decode_bounds_witness:
  "let d = DecodeInfo_ctor 0 0 0xfe000ee3 0x80000000 in op d = kBranch \<and> - 4096 \<le> sint (imm d) \<and> sint (imm d) < 4096"
proof -
  have "opcode_of 0xfe000ee3 = kBranch" by code_simp
  then have "op (DecodeInfo_ctor 0 0 0xfe000ee3 0x80000000) = kBranch" by (simp add: DecodeInfo_ctor_def)
  with decode_bounds [of 0 0 "0xfe000ee3" "0x80000000"] show ?thesis by (simp add: Let_def)
qed

end
