(* ===== verification/Mmu.thy ===== *)
theory Mmu
  imports Bus Trap
begin

text \<open>
  Address translation (\<^verbatim>\<open>include/cpu/mmu.h\<close>, \<^verbatim>\<open>src/cpu/mmu.cc\<close>): the class \<^verbatim>\<open>Sv39\<close> with its
  two-entry TLB and page table walk, and the class \<^verbatim>\<open>Mmu\<close> that checks permissions and
  performs the access. The processor's mode and registers, which \<^verbatim>\<open>Mmu\<close> reads through its
  back pointer, are arguments. \<open>sv39_ub\<close> records that some access left its device's storage
  (undefined behaviour of the C++); once set it stays set.

  The buffer of an access is the list of its bytes, empty when a trap is returned.
\<close>

section \<open>Entries and addresses\<close>

record Sv39TlbEntry =
  tlb_ppn :: u64
  tlb_tag :: u64
  tlb_asid :: u64
  tlb_R :: bool
  tlb_W :: bool
  tlb_X :: bool
  tlb_U :: bool
  tlb_G :: bool
  tlb_A :: bool
  tlb_D :: bool
  tlb_page_size :: u64

definition Sv39PageTableEntry :: layout where
  "Sv39PageTableEntry =
     [(''V'', 1), (''R'', 1), (''W'', 1), (''X'', 1), (''U'', 1), (''G'', 1), (''A'', 1), (''D'', 1),
      (''rsw'', 2), (''ppn_0'', 9), (''ppn_1'', 9), (''ppn_2'', 26), (''reserved'', 7), (''pbmt'', 2),
      (''N'', 1)]"

definition Sv39VirtualAddress :: layout where
  "Sv39VirtualAddress =
     [(''offset'', 12), (''vpn_0'', 9), (''vpn_1'', 9), (''vpn_2'', 9), (''blank'', 25)]"

definition Sv39PhysicalAddress :: layout where
  "Sv39PhysicalAddress =
     [(''offset'', 12), (''ppn_0'', 9), (''ppn_1'', 9), (''ppn_2'', 26), (''blank'', 8)]"

lemma Sv39PageTableEntry_fields [field_defs]:
  "field_of Sv39PageTableEntry ''V'' = (0, 1)"
  "field_of Sv39PageTableEntry ''R'' = (1, 1)"
  "field_of Sv39PageTableEntry ''W'' = (2, 1)"
  "field_of Sv39PageTableEntry ''X'' = (3, 1)"
  "field_of Sv39PageTableEntry ''U'' = (4, 1)"
  "field_of Sv39PageTableEntry ''G'' = (5, 1)"
  "field_of Sv39PageTableEntry ''A'' = (6, 1)"
  "field_of Sv39PageTableEntry ''D'' = (7, 1)"
  "field_of Sv39PageTableEntry ''ppn_0'' = (10, 9)"
  "field_of Sv39PageTableEntry ''ppn_1'' = (19, 9)"
  "field_of Sv39PageTableEntry ''ppn_2'' = (28, 26)"
  "field_of Sv39PageTableEntry ''reserved'' = (54, 7)"
  "field_of Sv39PageTableEntry ''pbmt'' = (61, 2)"
  by (simp_all add: field_of_def Sv39PageTableEntry_def)

lemma Sv39VirtualAddress_fields [field_defs]:
  "field_of Sv39VirtualAddress ''offset'' = (0, 12)"
  "field_of Sv39VirtualAddress ''vpn_0'' = (12, 9)"
  "field_of Sv39VirtualAddress ''vpn_1'' = (21, 9)"
  "field_of Sv39VirtualAddress ''vpn_2'' = (30, 9)"
  by (simp_all add: field_of_def Sv39VirtualAddress_def)

lemma Sv39PhysicalAddress_fields [field_defs]:
  "field_of Sv39PhysicalAddress ''offset'' = (0, 12)"
  "field_of Sv39PhysicalAddress ''ppn_0'' = (12, 9)"
  "field_of Sv39PhysicalAddress ''ppn_1'' = (21, 9)"
  "field_of Sv39PhysicalAddress ''ppn_2'' = (30, 26)"
  by (simp_all add: field_of_def Sv39PhysicalAddress_def)

abbreviation pte_get :: "string \<Rightarrow> u64 \<Rightarrow> u64" where
  "pte_get f pte \<equiv> fget (field_of Sv39PageTableEntry f) pte"

abbreviation satp_get :: "string \<Rightarrow> u64 \<Rightarrow> u64" where
  "satp_get f satp \<equiv> fget (field_of SatpDesc f) satp"

abbreviation mstatus_get :: "string \<Rightarrow> u64 \<Rightarrow> u64" where
  "mstatus_get f ms \<equiv> fget (field_of MstatusDesc f) ms"

definition MapVirtualAddress :: "Sv39TlbEntry \<Rightarrow> u64 \<Rightarrow> u64" where
  "MapVirtualAddress entry vaddr =
     (let bits = push_bit (unat (tlb_page_size entry * 9)) 8 in tlb_ppn entry + vaddr mod bits)"

definition GetPpnByPageTableEntry :: "u64 \<Rightarrow> u64" where
  "GetPpnByPageTableEntry entry =
     fset (field_of Sv39VirtualAddress ''vpn_2'') (pte_get ''ppn_2'' entry)
    (fset (field_of Sv39VirtualAddress ''vpn_1'') (pte_get ''ppn_1'' entry)
    (fset (field_of Sv39VirtualAddress ''vpn_0'') (pte_get ''ppn_0'' entry) 0))"

definition GetTlbTag :: "u64 \<Rightarrow> u64 \<Rightarrow> u64" where
  "GetTlbTag vaddr page_size = drop_bit (unat (page_size * 9)) (drop_bit 3 vaddr)"

definition kSv39Mode :: u64 where [const_defs]: "kSv39Mode = 8"
definition kTlbSize :: nat where [const_defs]: "kTlbSize = 2"

section \<open>The class Sv39\<close>

record sv39 =
  sv39_index :: nat
  sv39_cache_hit :: u64
  sv39_cache_miss :: u64
  sv39_tlb :: "Sv39TlbEntry list"
  sv39_bus :: bus
  sv39_ub :: bool

definition Sv39TlbEntry_zero :: Sv39TlbEntry where
  "Sv39TlbEntry_zero =
     \<lparr>tlb_ppn = 0, tlb_tag = 0, tlb_asid = 0, tlb_R = False, tlb_W = False, tlb_X = False,
      tlb_U = False, tlb_G = False, tlb_A = False, tlb_D = False, tlb_page_size = 0\<rparr>"

definition Sv39 :: "bus \<Rightarrow> sv39" where
  "Sv39 b =
     \<lparr>sv39_index = 0, sv39_cache_hit = 0, sv39_cache_miss = 0,
      sv39_tlb = replicate kTlbSize Sv39TlbEntry_zero, sv39_bus = b, sv39_ub = False\<rparr>"

definition Sv39_Load :: "sv39 \<Rightarrow> u64 \<Rightarrow> u64 \<Rightarrow> u8 list option \<times> sv39" where
  "Sv39_Load s addr bytes =
     (case Bus_Load (sv39_bus s) addr bytes of
        Done (bs, b) \<Rightarrow> (Some bs, s\<lparr>sv39_bus := b\<rparr>)
      | Fail \<Rightarrow> (None, s)
      | Stray \<Rightarrow> (None, s\<lparr>sv39_ub := True\<rparr>))"

definition Sv39_Store :: "sv39 \<Rightarrow> u64 \<Rightarrow> u64 \<Rightarrow> u8 list \<Rightarrow> bool \<times> sv39" where
  "Sv39_Store s addr bytes buffer =
     (case Bus_Store (sv39_bus s) addr bytes buffer of
        Done b \<Rightarrow> (True, s\<lparr>sv39_bus := b\<rparr>)
      | Fail \<Rightarrow> (False, s)
      | Stray \<Rightarrow> (False, s\<lparr>sv39_ub := True\<rparr>))"

definition tlb_match :: "u64 \<Rightarrow> u64 \<Rightarrow> Sv39TlbEntry \<Rightarrow> bool" where
  "tlb_match satp vaddr entry \<longleftrightarrow>
     (tlb_asid entry = satp_get ''asid'' satp \<or> tlb_G entry) \<and>
     tlb_page_size entry > 0 \<and> GetTlbTag vaddr (tlb_page_size entry) = tlb_tag entry"

definition LookUpTlb :: "sv39 \<Rightarrow> u64 \<Rightarrow> u64 \<Rightarrow> Sv39TlbEntry option" where
  "LookUpTlb s satp vaddr = find (tlb_match satp vaddr) (sv39_tlb s)"

text \<open>The body of the walk's loop for one table entry: an error, the next table, or a leaf.\<close>

datatype walk_step = WalkFail | WalkNext u64 | WalkLeaf

definition walk_entry :: "nat \<Rightarrow> u64 \<Rightarrow> walk_step" where
  "walk_entry i pte =
     (if pte_get ''V'' pte = 0 \<or> (pte_get ''R'' pte = 0 \<and> pte_get ''W'' pte \<noteq> 0) \<or>
         pte_get ''reserved'' pte \<noteq> 0 \<or> pte_get ''pbmt'' pte \<noteq> 0 then WalkFail
      else if pte_get ''R'' pte = 0 \<and> pte_get ''W'' pte = 0 \<and> pte_get ''X'' pte = 0 then
        WalkNext
          (fset (field_of Sv39PhysicalAddress ''ppn_2'') (pte_get ''ppn_2'' pte)
          (fset (field_of Sv39PhysicalAddress ''ppn_1'') (pte_get ''ppn_1'' pte)
          (fset (field_of Sv39PhysicalAddress ''ppn_0'') (pte_get ''ppn_0'' pte) 0)))
      else if (i = 2 \<and> (pte_get ''ppn_1'' pte \<noteq> 0 \<or> pte_get ''ppn_0'' pte \<noteq> 0)) \<or>
              (i = 1 \<and> pte_get ''ppn_0'' pte \<noteq> 0) then WalkFail
      else WalkLeaf)"

definition vpn :: "nat \<Rightarrow> u64 \<Rightarrow> u64" where
  "vpn i vaddr =
     (if i = 2 then fget (field_of Sv39VirtualAddress ''vpn_2'') vaddr
      else if i = 1 then fget (field_of Sv39VirtualAddress ''vpn_1'') vaddr
      else fget (field_of Sv39VirtualAddress ''vpn_0'') vaddr)"

fun walk_levels :: "nat list \<Rightarrow> u64 \<Rightarrow> u64 \<Rightarrow> sv39 \<Rightarrow> (u64 \<times> u64) option \<times> sv39" where
  "walk_levels [] vaddr page_table_addr s = (None, s)"
| "walk_levels (i # is) vaddr page_table_addr s =
     (case Sv39_Load s (page_table_addr + vpn i vaddr * 8) 8 of
        (None, s1) \<Rightarrow> (None, s1)
      | (Some bs, s1) \<Rightarrow>
          let sv39_pte = le_word bs in
          (case walk_entry i sv39_pte of
             WalkFail \<Rightarrow> (None, s1)
           | WalkNext next_addr \<Rightarrow> walk_levels is vaddr next_addr s1
           | WalkLeaf \<Rightarrow> (Some (sv39_pte, of_nat (i + 1)), s1)))"

definition PageTableWalk :: "sv39 \<Rightarrow> u64 \<Rightarrow> u64 \<Rightarrow> (u64 \<times> u64) option \<times> sv39" where
  "PageTableWalk s satp vaddr =
     (if satp_get ''mode'' satp \<noteq> kSv39Mode then (None, s)
      else walk_levels [2, 1, 0] vaddr (push_bit 12 (satp_get ''ppn'' satp)) s)"

definition fill_entry :: "u64 \<Rightarrow> u64 \<Rightarrow> u64 \<Rightarrow> u64 \<Rightarrow> Sv39TlbEntry" where
  "fill_entry satp vaddr pte out_size =
     \<lparr>tlb_ppn = GetPpnByPageTableEntry pte,
      tlb_tag = GetTlbTag vaddr out_size,
      tlb_asid = satp_get ''asid'' satp,
      tlb_R = (pte_get ''R'' pte \<noteq> 0), tlb_W = (pte_get ''W'' pte \<noteq> 0),
      tlb_X = (pte_get ''X'' pte \<noteq> 0), tlb_U = (pte_get ''U'' pte \<noteq> 0),
      tlb_G = (pte_get ''G'' pte \<noteq> 0), tlb_A = (pte_get ''A'' pte \<noteq> 0),
      tlb_D = (pte_get ''D'' pte \<noteq> 0), tlb_page_size = out_size\<rparr>"

definition sv39_canonical :: "u64 \<Rightarrow> bool" where
  "sv39_canonical vaddr \<longleftrightarrow> vaddr \<le> 0x0000003fffffffff \<or> 0xffffffc000000000 \<le> vaddr"

definition GetTlbEntry :: "sv39 \<Rightarrow> u64 \<Rightarrow> u64 \<Rightarrow> Sv39TlbEntry option \<times> sv39" where
  "GetTlbEntry s satp vaddr =
     (if \<not> sv39_canonical vaddr then (None, s)
      else case LookUpTlb s satp vaddr of
        Some tlb_entry \<Rightarrow> (Some tlb_entry, s\<lparr>sv39_cache_hit := sv39_cache_hit s + 1\<rparr>)
      | None \<Rightarrow>
          (case PageTableWalk (s\<lparr>sv39_cache_miss := sv39_cache_miss s + 1\<rparr>) satp vaddr of
             (None, s1) \<Rightarrow> (None, s1)
           | (Some (pte, out_size), s1) \<Rightarrow>
               let e = fill_entry satp vaddr pte out_size
               in (Some e, s1\<lparr>sv39_tlb := (sv39_tlb s1)[sv39_index s1 := e],
                             sv39_index := (sv39_index s1 + 1) mod kTlbSize\<rparr>)))"

definition flush_entry :: "u64 \<Rightarrow> u64 \<Rightarrow> Sv39TlbEntry \<Rightarrow> Sv39TlbEntry" where
  "flush_entry vaddr asid entry =
     (if asid = 0 \<or> tlb_asid entry = asid then
        (if vaddr = 0 then entry\<lparr>tlb_page_size := 0\<rparr>
         else if tlb_page_size entry > 0 \<and> tlb_tag entry = GetTlbTag vaddr (tlb_page_size entry)
         then entry\<lparr>tlb_page_size := 0\<rparr> else entry)
      else entry)"

definition Sv39_FlushTlb :: "u64 \<Rightarrow> u64 \<Rightarrow> sv39 \<Rightarrow> sv39" where
  "Sv39_FlushTlb vaddr asid s = s\<lparr>sv39_tlb := map (flush_entry vaddr asid) (sv39_tlb s)\<rparr>"

definition Sv39_Reset :: "u64 \<Rightarrow> sv39 \<Rightarrow> sv39" where
  "Sv39_Reset ts s =
     s\<lparr>sv39_index := 0, sv39_tlb := replicate kTlbSize Sv39TlbEntry_zero,
       sv39_bus := Bus_Reset ts (sv39_bus s)\<rparr>"

section \<open>The class Mmu\<close>

text \<open>An \<^verbatim>\<open>Mmu\<close> owns its \<^verbatim>\<open>Sv39\<close> and passes flushes and resets on to it.\<close>

definition Mmu_FlushTlb :: "u64 \<Rightarrow> u64 \<Rightarrow> sv39 \<Rightarrow> sv39" where
  [simp]: "Mmu_FlushTlb vaddr asid s = Sv39_FlushTlb vaddr asid s"

definition Mmu_Reset :: "u64 \<Rightarrow> sv39 \<Rightarrow> sv39" where
  [simp]: "Mmu_Reset ts s = Sv39_Reset ts s"

definition UsePhysAddr :: "PrivilegeMode \<Rightarrow> u64 \<Rightarrow> u64 \<Rightarrow> bool" where
  "UsePhysAddr mode satp ms \<longleftrightarrow>
     satp_get ''mode'' satp = 0 \<or>
     (mode = kMachine \<and> (mstatus_get ''mprv'' ms = 0 \<or> mstatus_get ''mpp'' ms = mode_val kMachine))"

definition phys_load :: "sv39 \<Rightarrow> u64 \<Rightarrow> u64 \<Rightarrow> Trap \<Rightarrow> Trap \<times> u8 list \<times> sv39" where
  "phys_load s addr bytes access_trap =
     (case Sv39_Load s addr bytes of
        (Some bs, s1) \<Rightarrow> (kNoneTrap, bs, s1)
      | (None, s1) \<Rightarrow> (access_trap, [], s1))"

definition Mmu_Fetch :: "PrivilegeMode \<Rightarrow> State \<Rightarrow> sv39 \<Rightarrow> u64 \<Rightarrow> u64 \<Rightarrow> Trap \<times> u8 list \<times> sv39" where
  "Mmu_Fetch mode st s addr bytes =
     (let satp = State_Read st kCsrSatp;
          kInstructionAccessTrap = make_trap kInstructionAccessFault addr;
          page_fault = make_trap kInstructionPageFault addr
      in if mode = kMachine \<or> satp_get ''mode'' satp = 0
         then phys_load s addr bytes kInstructionAccessTrap
         else case GetTlbEntry s satp addr of
           (None, s1) \<Rightarrow> (page_fault, [], s1)
         | (Some e, s1) \<Rightarrow>
             if \<not> tlb_A e \<or> \<not> tlb_X e then (page_fault, [], s1)
             else if (mode = kUser \<and> \<not> tlb_U e) \<or> (mode = kSupervisor \<and> tlb_U e)
             then (page_fault, [], s1)
             else phys_load s1 (MapVirtualAddress e addr) bytes kInstructionAccessTrap)"

definition Mmu_Load :: "PrivilegeMode \<Rightarrow> State \<Rightarrow> sv39 \<Rightarrow> u64 \<Rightarrow> u64 \<Rightarrow> Trap \<times> u8 list \<times> sv39" where
  "Mmu_Load mode st s addr bytes =
     (let satp = State_Read st kCsrSatp; ms = State_Read st kCsrMstatus;
          kLoadAccessTrap = make_trap kLoadAccessFault addr;
          page_fault = make_trap kLoadPageFault addr
      in if UsePhysAddr mode satp ms
         then phys_load s addr bytes kLoadAccessTrap
         else case GetTlbEntry s satp addr of
           (None, s1) \<Rightarrow> (page_fault, [], s1)
         | (Some e, s1) \<Rightarrow>
             if \<not> tlb_A e \<or> (\<not> tlb_R e \<and> \<not> (mstatus_get ''mxr'' ms \<noteq> 0 \<and> tlb_X e))
             then (page_fault, [], s1)
             else phys_load s1 (MapVirtualAddress e addr) bytes kLoadAccessTrap)"

definition phys_store :: "sv39 \<Rightarrow> u64 \<Rightarrow> u64 \<Rightarrow> u8 list \<Rightarrow> Trap \<Rightarrow> Trap \<times> sv39" where
  "phys_store s addr bytes buffer access_trap =
     (case Sv39_Store s addr bytes buffer of
        (kSucc, s1) \<Rightarrow> (if kSucc then kNoneTrap else access_trap, s1))"

definition Mmu_Store :: "PrivilegeMode \<Rightarrow> State \<Rightarrow> sv39 \<Rightarrow> u64 \<Rightarrow> u64 \<Rightarrow> u8 list \<Rightarrow> Trap \<times> sv39" where
  "Mmu_Store mode st s addr bytes buffer =
     (let satp = State_Read st kCsrSatp; ms = State_Read st kCsrMstatus;
          kStoreAccessTrap = make_trap kStoreAccessFault addr;
          page_fault = make_trap kStorePageFault addr
      in if UsePhysAddr mode satp ms
         then phys_store s addr bytes buffer kStoreAccessTrap
         else case GetTlbEntry s satp addr of
           (None, s1) \<Rightarrow> (page_fault, s1)
         | (Some e, s1) \<Rightarrow>
             if \<not> tlb_A e \<or> \<not> tlb_W e \<or> \<not> tlb_D e then (page_fault, s1)
             else phys_store s1 (MapVirtualAddress e addr) bytes buffer kStoreAccessTrap)"

end
