(* ===== verification/Executor.thy ===== *)
theory Executor
  imports Mmu Decode Arith
begin

text \<open>
  The executor (\<^verbatim>\<open>include/cpu/executor.h\<close>, \<^verbatim>\<open>src/cpu/executor.cc\<close>) and the part of the class
  \<^verbatim>\<open>CPU\<close> it works on. One function per \<^verbatim>\<open>*TypeExec\<close> method: it takes the decoded instruction
  and the processor and returns the trap and the processor afterwards. Where a method
  computes a value in a \<^verbatim>\<open>switch\<close> over the token, the value is a function of its own that is
  undefined (\<open>None\<close>) where the method returns an illegal-instruction trap.

  Integers have the behaviour of the x86-64 build: signed arithmetic wraps and a shift uses
  the low six (five) bits of its count, as the machine instructions do; the C++ standard
  leaves both undefined. The floating-point register file is never read or written and is
  left out.

  \<open>env\<close> holds what a step reads from outside the machine: whether the unit-test checks are
  compiled in, the guest time stamp, and the values of uninitialised decoder members.
\<close>

section \<open>The processor\<close>

record AmoReservation =
  res_addr :: u64
  res_size :: u32
  res_valid :: bool
  res_hart_id :: u32

record cpu =
  cpu_pc :: u64
  cpu_instret :: u64
  cpu_hart_id :: u32
  cpu_state :: State
  cpu_xregs :: "u8 \<Rightarrow> u64"
  cpu_fregs :: "u8 \<Rightarrow> u32"
  cpu_priv_mode :: PrivilegeMode
  cpu_reservation :: AmoReservation
  cpu_mmu :: sv39

record env =
  env_unit_test :: bool
  env_guest_ts :: u64
  env_imm :: u32
  env_mem_size :: u8

abbreviation xreg :: "cpu \<Rightarrow> u8 \<Rightarrow> u64" where
  "xreg c r \<equiv> cpu_xregs c r"

abbreviation set_xreg :: "u8 \<Rightarrow> u64 \<Rightarrow> cpu \<Rightarrow> cpu" where
  "set_xreg r v c \<equiv> c\<lparr>cpu_xregs := (cpu_xregs c)(r := v)\<rparr>"

abbreviation ill_trap :: "DecodeInfo \<Rightarrow> Trap" where
  "ill_trap info \<equiv> make_trap kIllegalInstruction (ucast (word info))"

text \<open>\<^verbatim>\<open>CPU::Load\<close>, \<^verbatim>\<open>CPU::Store\<close>, \<^verbatim>\<open>CPU::Fetch\<close> and \<^verbatim>\<open>CPU::FlushTlb\<close>.\<close>

definition CPU_Load :: "cpu \<Rightarrow> u64 \<Rightarrow> u64 \<Rightarrow> Trap \<times> u8 list \<times> cpu" where
  "CPU_Load c addr bytes =
     (case Mmu_Load (cpu_priv_mode c) (cpu_state c) (cpu_mmu c) addr bytes of
        (t, bs, m) \<Rightarrow> (t, bs, c\<lparr>cpu_mmu := m\<rparr>))"

definition CPU_Store :: "cpu \<Rightarrow> u64 \<Rightarrow> u64 \<Rightarrow> u8 list \<Rightarrow> Trap \<times> cpu" where
  "CPU_Store c addr bytes buffer =
     (case Mmu_Store (cpu_priv_mode c) (cpu_state c) (cpu_mmu c) addr bytes buffer of
        (t, m) \<Rightarrow> (t, c\<lparr>cpu_mmu := m\<rparr>))"

definition CPU_Fetch :: "cpu \<Rightarrow> u64 \<Rightarrow> u64 \<Rightarrow> Trap \<times> u8 list \<times> cpu" where
  "CPU_Fetch c addr bytes =
     (case Mmu_Fetch (cpu_priv_mode c) (cpu_state c) (cpu_mmu c) addr bytes of
        (t, bs, m) \<Rightarrow> (t, bs, c\<lparr>cpu_mmu := m\<rparr>))"

definition CPU_FlushTlb :: "u64 \<Rightarrow> u64 \<Rightarrow> cpu \<Rightarrow> cpu" where
  "CPU_FlushTlb vaddr asid c = c\<lparr>cpu_mmu := Mmu_FlushTlb vaddr asid (cpu_mmu c)\<rparr>"

section \<open>Integer computations\<close>

definition INT64_MIN :: u64 where "INT64_MIN = push_bit 63 1"
definition INT32_MIN :: u32 where "INT32_MIN = push_bit 31 1"

abbreviation bool64 :: "bool \<Rightarrow> u64" where
  "bool64 b \<equiv> (if b then 1 else 0)"

definition abs64 :: "u64 \<Rightarrow> u64" where
  "abs64 v = (if v <s 0 then - v else v)"

text \<open>Signed division and remainder of machine integers, rounding towards zero.\<close>

definition word_sdiv :: "'a::len word \<Rightarrow> 'a word \<Rightarrow> 'a word" where
  "word_sdiv v w = word_of_int (sint v sdiv sint w)"

definition word_smod :: "'a::len word \<Rightarrow> 'a word \<Rightarrow> 'a word" where
  "word_smod v w = word_of_int (sint v smod sint w)"

definition reg_val :: "InstToken \<Rightarrow> u64 \<Rightarrow> u64 \<Rightarrow> u64 option" where
  "reg_val tok kRs1Val kRs2Val =
     (if tok = I_ADD then Some (kRs1Val + kRs2Val)
      else if tok = I_SUB then Some (kRs1Val - kRs2Val)
      else if tok = I_SLL then Some (push_bit (unat kRs2Val mod 64) kRs1Val)
      else if tok = I_SLT then Some (bool64 (kRs1Val <s kRs2Val))
      else if tok = I_SLTU then Some (bool64 (kRs1Val < kRs2Val))
      else if tok = I_XOR then Some (kRs1Val XOR kRs2Val)
      else if tok = I_SRL then Some (drop_bit (unat kRs2Val mod 64) kRs1Val)
      else if tok = I_SRA then Some (signed_drop_bit (unat kRs2Val mod 64) kRs1Val)
      else if tok = I_OR then Some (kRs1Val OR kRs2Val)
      else if tok = I_AND then Some (kRs1Val AND kRs2Val)
      else if tok = I_MUL then Some (kRs1Val * kRs2Val)
      else if tok = I_MULH then
        (let kNegativeRes = ((kRs1Val <s 0) \<noteq> (kRs2Val <s 0));
             kRes = MulUint64Hi (abs64 kRs1Val) (abs64 kRs2Val)
         in Some (if kNegativeRes then NOT kRes + bool64 (kRs1Val * kRs2Val = 0) else kRes))
      else if tok = I_MULHSU then
        Some (if kRs1Val = 0 \<or> kRs2Val = 0 then 0
              else if kRs1Val <s 0 then NOT (MulUint64Hi (abs64 kRs1Val) kRs2Val)
              else MulUint64Hi kRs1Val kRs2Val)
      else if tok = I_MULHU then Some (MulUint64Hi kRs1Val kRs2Val)
      else if tok = I_DIV then
        Some (if kRs2Val = 0 then - 1
              else if kRs1Val = INT64_MIN \<and> kRs2Val = - 1 then INT64_MIN
              else word_sdiv kRs1Val kRs2Val)
      else if tok = I_DIVU then Some (if kRs2Val = 0 then - 1 else kRs1Val div kRs2Val)
      else if tok = I_REM then
        Some (if kRs2Val = 0 then kRs1Val
              else if kRs1Val = INT64_MIN \<and> kRs2Val = - 1 then 0
              else word_smod kRs1Val kRs2Val)
      else if tok = I_REMU then Some (if kRs2Val = 0 then kRs1Val else kRs1Val mod kRs2Val)
      else None)"

text \<open>The 32-bit results are sign-extended when they are assigned to the 64-bit \<^verbatim>\<open>val\<close>.\<close>

definition rv32_val :: "InstToken \<Rightarrow> u32 \<Rightarrow> u32 \<Rightarrow> u64 option" where
  "rv32_val tok kRs1Val kRs2Val =
     (if tok = I_ADDW then Some (scast (kRs1Val + kRs2Val))
      else if tok = I_SUBW then Some (scast (kRs1Val - kRs2Val))
      else if tok = I_SLLW then Some (scast (push_bit (unat kRs2Val mod 32) kRs1Val))
      else if tok = I_SRLW then Some (scast (drop_bit (unat kRs2Val mod 32) kRs1Val))
      else if tok = I_SRAW then Some (scast (signed_drop_bit (unat kRs2Val mod 32) kRs1Val))
      else if tok = I_MULW then Some (scast (kRs1Val * kRs2Val))
      else if tok = I_DIVW then
        Some (if kRs2Val = 0 then - 1
              else if kRs1Val = INT32_MIN \<and> kRs2Val = - 1 then scast INT32_MIN
              else scast (word_sdiv kRs1Val kRs2Val))
      else if tok = I_DIVUW then
        Some (if kRs2Val = 0 then - 1 else scast (kRs1Val div kRs2Val))
      else if tok = I_REMW then
        Some (if kRs2Val = 0 then scast kRs1Val
              else if kRs1Val = INT32_MIN \<and> kRs2Val = - 1 then 0
              else scast (word_smod kRs1Val kRs2Val))
      else if tok = I_REMUW then
        Some (scast (if kRs2Val = 0 then kRs1Val else kRs1Val mod kRs2Val))
      else None)"

definition imm_val :: "InstToken \<Rightarrow> u64 \<Rightarrow> u32 \<Rightarrow> u64 option" where
  "imm_val tok kRs1Val kImmVal =
     (if tok = I_ADDI then Some (kRs1Val + scast kImmVal)
      else if tok = I_SLTI then Some (bool64 (kRs1Val <s scast kImmVal))
      else if tok = I_SLTIU then Some (bool64 (kRs1Val < scast kImmVal))
      else if tok = I_XORI then Some (kRs1Val XOR scast kImmVal)
      else if tok = I_ORI then Some (kRs1Val OR scast kImmVal)
      else if tok = I_ANDI then Some (kRs1Val AND scast kImmVal)
      else if tok = I_SLLI then Some (push_bit (unat kImmVal mod 64) kRs1Val)
      else if tok = I_SRLI then Some (drop_bit (unat kImmVal mod 64) kRs1Val)
      else if tok = I_SRAI then Some (signed_drop_bit (unat kImmVal mod 64) kRs1Val)
      else None)"

definition imm32_val :: "InstToken \<Rightarrow> u32 \<Rightarrow> u32 \<Rightarrow> u64 option" where
  "imm32_val tok kRs1Val kImmVal =
     (if tok = I_ADDIW then Some (scast (kRs1Val + kImmVal))
      else if tok = I_SLLIW then Some (scast (push_bit (unat kImmVal mod 32) kRs1Val))
      else if tok = I_SRLIW then Some (scast (drop_bit (unat kImmVal mod 32) kRs1Val))
      else if tok = I_SRAIW then Some (scast (signed_drop_bit (unat kImmVal mod 32) kRs1Val))
      else None)"

text \<open>\<^verbatim>\<open>xregs[rd] = val\<close> if the switch found the token, an illegal-instruction trap otherwise.\<close>

definition write_back :: "DecodeInfo \<Rightarrow> u64 option \<Rightarrow> cpu \<Rightarrow> Trap \<times> cpu" where
  "write_back info res c =
     (case res of Some val \<Rightarrow> (kNoneTrap, set_xreg (rd info) val c) | None \<Rightarrow> (ill_trap info, c))"

definition RegTypeExec :: "DecodeInfo \<Rightarrow> cpu \<Rightarrow> Trap \<times> cpu" where
  "RegTypeExec info c = write_back info (reg_val (token info) (xreg c (rs1 info)) (xreg c (rs2 info))) c"

definition Rv32TypeExec :: "DecodeInfo \<Rightarrow> cpu \<Rightarrow> Trap \<times> cpu" where
  "Rv32TypeExec info c =
     write_back info (rv32_val (token info) (ucast (xreg c (rs1 info))) (ucast (xreg c (rs2 info)))) c"

definition ImmTypeExec :: "DecodeInfo \<Rightarrow> cpu \<Rightarrow> Trap \<times> cpu" where
  "ImmTypeExec info c = write_back info (imm_val (token info) (xreg c (rs1 info)) (imm info)) c"

definition Imm32TypeExec :: "DecodeInfo \<Rightarrow> cpu \<Rightarrow> Trap \<times> cpu" where
  "Imm32TypeExec info c =
     write_back info (imm32_val (token info) (ucast (xreg c (rs1 info))) (imm info)) c"

definition LuiTypeExec :: "DecodeInfo \<Rightarrow> cpu \<Rightarrow> Trap \<times> cpu" where
  "LuiTypeExec info c = (kNoneTrap, set_xreg (rd info) (scast (imm info)) c)"

definition AuipcTypeExec :: "DecodeInfo \<Rightarrow> cpu \<Rightarrow> Trap \<times> cpu" where
  "AuipcTypeExec info c = (kNoneTrap, set_xreg (rd info) (pc info + scast (imm info)) c)"


section \<open>Control transfer\<close>

text \<open>The alignment check of a jump target is compiled only into the unit tests.\<close>

definition check_misalign_instr :: "env \<Rightarrow> u64 \<Rightarrow> (Trap \<times> cpu) \<Rightarrow> cpu \<Rightarrow> Trap \<times> cpu" where
  "check_misalign_instr env target res c =
     (if env_unit_test env \<and> \<not> CheckPcAlign False target
      then (make_trap kInstructionAddressMisaligned target, c) else res)"

definition JalTypeExec :: "env \<Rightarrow> DecodeInfo \<Rightarrow> cpu \<Rightarrow> Trap \<times> cpu" where
  "JalTypeExec env info c =
     (let kNewPC = pc info + scast (imm info)
      in check_misalign_instr env kNewPC
           (kNoneTrap, set_xreg (rd info) (pc info + ucast (inst_size info)) (c\<lparr>cpu_pc := kNewPC\<rparr>)) c)"

definition JalrTypeExec :: "env \<Rightarrow> DecodeInfo \<Rightarrow> cpu \<Rightarrow> Trap \<times> cpu" where
  "JalrTypeExec env info c =
     (let kNewPC = (scast (imm info) + xreg c (rs1 info)) AND 0xfffffffffffffffe
      in check_misalign_instr env kNewPC
           (kNoneTrap, set_xreg (rd info) (pc info + ucast (inst_size info)) (c\<lparr>cpu_pc := kNewPC\<rparr>)) c)"

definition branch_taken :: "InstToken \<Rightarrow> u64 \<Rightarrow> u64 \<Rightarrow> bool option" where
  "branch_taken tok kRs1Val kRs2Val =
     (if tok = I_BEQ then Some (kRs1Val = kRs2Val)
      else if tok = I_BNE then Some (kRs1Val \<noteq> kRs2Val)
      else if tok = I_BLT then Some (kRs1Val <s kRs2Val)
      else if tok = I_BGE then Some (kRs2Val \<le>s kRs1Val)
      else if tok = I_BLTU then Some (kRs1Val < kRs2Val)
      else if tok = I_BGEU then Some (kRs1Val \<ge> kRs2Val)
      else None)"

definition BranchTypeExec :: "env \<Rightarrow> DecodeInfo \<Rightarrow> cpu \<Rightarrow> Trap \<times> cpu" where
  "BranchTypeExec env info c =
     (case branch_taken (token info) (xreg c (rs1 info)) (xreg c (rs2 info)) of
        None \<Rightarrow> (ill_trap info, c)
      | Some taken \<Rightarrow>
          let kPredictedPC = pc info + scast (imm info);
              new_pc = (if taken then kPredictedPC else pc info + ucast (inst_size info))
          in check_misalign_instr env new_pc (kNoneTrap, c\<lparr>cpu_pc := new_pc\<rparr>) c)"

section \<open>Loads and stores\<close>

definition load_val :: "InstToken \<Rightarrow> u64 \<Rightarrow> u64 option" where
  "load_val tok data =
     (if tok = I_LB then Some (scast (ucast data :: u8))
      else if tok = I_LH then Some (scast (ucast data :: u16))
      else if tok = I_LW then Some (scast (ucast data :: u32))
      else if tok \<in> {I_LD, I_LBU, I_LHU, I_LWU} then Some data
      else None)"

definition LoadTypeExec :: "DecodeInfo \<Rightarrow> cpu \<Rightarrow> Trap \<times> cpu" where
  "LoadTypeExec info c =
     (let kTargetAddr = xreg c (rs1 info) + scast (imm info)
      in case CPU_Load c kTargetAddr (ucast (mem_size info)) of
           (kLoadTrap, bs, c1) \<Rightarrow>
             if trap_type kLoadTrap \<noteq> kNone then (kLoadTrap, c1)
             else write_back info (load_val (token info) (le_word bs)) c1)"

definition StoreTypeExec :: "DecodeInfo \<Rightarrow> cpu \<Rightarrow> Trap \<times> cpu" where
  "StoreTypeExec info c =
     (let kTargetAddr = xreg c (rs1 info) + scast (imm info)
      in case CPU_Store c kTargetAddr (ucast (mem_size info)) (le_bytes 8 (xreg c (rs2 info))) of
           (kStoreTrap, c1) \<Rightarrow>
             if trap_type kStoreTrap \<noteq> kNone then (kStoreTrap, c1) else (kNoneTrap, c1))"

section \<open>System instructions\<close>

definition kAllowedCsrs :: "u64 list" where
  "kAllowedCsrs =
     [kCsrMVendorId, kCsrMArchId, kCsrMcause, kCsrMVendorId, kCsrMCycle, kCsrMedeleg, kCsrMepc,
      kCsrMHartId, kCsrMideleg, kCsrMie, kCsrMip, kCsrMisa, kCsrMstatus, kCsrMtval, kCsrMtvec,
      kCsrMscratch, kCsrMImpId, kCsrMinstret, kCsrMcounteren, kCsrSatp, kCsrScause, kCsrSepc,
      kCsrSie, kCsrSip, kCsrSstatus, kCsrStval, kCsrStvec, kCsrTdata1, kCsrTselect,
      kCsrMconfigPtr, kCsrScounteren, kCsrSscratch, kCsrTime]"

definition mstatus_of :: "cpu \<Rightarrow> u64" where
  "mstatus_of c = State_Read (cpu_state c) kCsrMstatus"

text \<open>\<^verbatim>\<open>CHECK_CSR_ACCESS_PRIVILEGE\<close>: the access is refused.\<close>

definition csr_access_denied :: "u64 \<Rightarrow> bool \<Rightarrow> PrivilegeMode \<Rightarrow> bool" where
  "csr_access_denied index wr mode \<longleftrightarrow>
     \<not> mode_of (drop_bit 8 index AND 3) \<le> mode \<or> (wr \<and> drop_bit 10 index = 3)"

definition csr_new_val :: "InstToken \<Rightarrow> u64 \<Rightarrow> u64 \<Rightarrow> u8 \<Rightarrow> u64 option" where
  "csr_new_val tok kCsrVal kRs1Val r1 =
     (if tok = I_CSRRW then Some kRs1Val
      else if tok = I_CSRRS then Some (kRs1Val OR kCsrVal)
      else if tok = I_CSRRC then Some (kCsrVal AND NOT kRs1Val)
      else if tok = I_CSRRWI then Some (ucast r1)
      else if tok = I_CSRRSI then Some (kCsrVal OR ucast r1)
      else if tok = I_CSRRCI then Some (kCsrVal AND NOT (ucast r1))
      else None)"

definition CsrTypeExec :: "env \<Rightarrow> DecodeInfo \<Rightarrow> cpu \<Rightarrow> Trap \<times> cpu" where
  "CsrTypeExec env info c =
     (let kImmVal = ucast (imm info) in
      if \<not> env_unit_test env \<and> kImmVal \<notin> set kAllowedCsrs then (ill_trap info, c)
      else if kImmVal = kCsrSatp \<and> cpu_priv_mode c = kSupervisor \<and> mstatus_get ''tvm'' (mstatus_of c) \<noteq> 0
      then (ill_trap info, c)
      else
        let c1 = (if kImmVal = kCsrTime
                  then c\<lparr>cpu_state := State_Write kImmVal (env_guest_ts env) (cpu_state c)\<rparr> else c);
            writable = (token info = I_CSRRW \<or> token info = I_CSRRWI \<or> rs1 info \<noteq> 0)
        in if env_unit_test env \<and> csr_access_denied kImmVal writable (cpu_priv_mode c1)
           then (ill_trap info, c1)
           else
             let kCsrVal = State_Read (cpu_state c1) kImmVal; kRs1Val = xreg c1 (rs1 info)
             in case csr_new_val (token info) kCsrVal kRs1Val (rs1 info) of
                  None \<Rightarrow> (ill_trap info, c1)
                | Some new_csr_val \<Rightarrow>
                    let c2 = set_xreg (rd info) kCsrVal c1
                    in (kNoneTrap,
                        if writable then c2\<lparr>cpu_state := State_Write kImmVal new_csr_val (cpu_state c2)\<rparr>
                        else c2))"

definition ECallExec :: "DecodeInfo \<Rightarrow> cpu \<Rightarrow> Trap \<times> cpu" where
  "ECallExec info c =
     (make_trap
        (case cpu_priv_mode c of
           kUser \<Rightarrow> kEnvironmentCallFromUMode
         | kSupervisor \<Rightarrow> kEnvironmentCallFromSMode
         | kMachine \<Rightarrow> kEnvironmentCallFromMMode
         | kReserved \<Rightarrow> kNone)
        (pc info + ucast (inst_size info)), c)"

definition SfenceVmaExec :: "DecodeInfo \<Rightarrow> cpu \<Rightarrow> Trap \<times> cpu" where
  "SfenceVmaExec info c =
     (if cpu_priv_mode c < kSupervisor \<or>
         (cpu_priv_mode c = kSupervisor \<and> mstatus_get ''tvm'' (mstatus_of c) \<noteq> 0)
      then (ill_trap info, c)
      else (kNoneTrap, CPU_FlushTlb (xreg c (rs1 info)) (xreg c (rs2 info) AND 0xffff) c))"

abbreviation mstatus_set :: "string \<Rightarrow> u64 \<Rightarrow> u64 \<Rightarrow> u64" where
  "mstatus_set f v ms \<equiv> fset (field_of MstatusDesc f) v ms"

definition MRetExec :: "DecodeInfo \<Rightarrow> cpu \<Rightarrow> Trap \<times> cpu" where
  "MRetExec info c =
     (let old = mstatus_of c in
      if cpu_priv_mode c < kMachine then (ill_trap info, c)
      else
        let mpp = mode_of (mstatus_get ''mpp'' old);
            new = mstatus_set ''mprv'' (if mpp < kMachine then 0 else mstatus_get ''mprv'' old)
                 (mstatus_set ''mie'' (mstatus_get ''mpie'' old)
                 (mstatus_set ''mpie'' 1 (mstatus_set ''mpp'' 0 old)));
            st = State_Write kCsrMstatus new (cpu_state c)
        in (kNoneTrap, c\<lparr>cpu_state := st, cpu_priv_mode := mpp, cpu_pc := State_Read st kCsrMepc\<rparr>))"

definition SRetExec :: "DecodeInfo \<Rightarrow> cpu \<Rightarrow> Trap \<times> cpu" where
  "SRetExec info c =
     (let old = mstatus_of c in
      if cpu_priv_mode c < kSupervisor \<or> mstatus_get ''tsr'' old \<noteq> 0 then (ill_trap info, c)
      else
        let spp = mode_of (mstatus_get ''spp'' old);
            new = mstatus_set ''mprv'' (if spp < kMachine then 0 else mstatus_get ''mprv'' old)
                 (mstatus_set ''sie'' (mstatus_get ''spie'' old)
                 (mstatus_set ''spie'' 1 (mstatus_set ''spp'' 0 old)));
            st = State_Write kCsrMstatus new (cpu_state c)
        in (kNoneTrap, c\<lparr>cpu_state := st, cpu_priv_mode := spp, cpu_pc := State_Read st kCsrSepc\<rparr>))"

definition SystemTypeExec :: "env \<Rightarrow> DecodeInfo \<Rightarrow> cpu \<Rightarrow> Trap \<times> cpu" where
  "SystemTypeExec env info c =
     (if token info \<in> {I_CSRRW, I_CSRRS, I_CSRRC, I_CSRRWI, I_CSRRSI, I_CSRRCI} then CsrTypeExec env info c
      else if token info = I_EBREAK then (make_trap kBreakpoint 0, c)
      else if token info = I_ECALL then ECallExec info c
      else if token info = I_WFI then
        (kNoneTrap, if mstatus_get ''tw'' (mstatus_of c) \<noteq> 0
                    then c\<lparr>cpu_state := SetWfi True (cpu_state c)\<rparr> else c)
      else if token info = I_SFENCE_VMA then SfenceVmaExec info c
      else if token info = I_MRET then MRetExec info c
      else if token info = I_SRET then SRetExec info c
      else (ill_trap info, c))"

definition FenceTypeExec :: "DecodeInfo \<Rightarrow> cpu \<Rightarrow> Trap \<times> cpu" where
  "FenceTypeExec info c = (kNoneTrap, c)"


section \<open>Atomic instructions\<close>

definition AmoLrExec :: "DecodeInfo \<Rightarrow> cpu \<Rightarrow> Trap \<times> cpu" where
  "AmoLrExec info c =
     (let addr = xreg c (rs1 info); size = ucast (mem_size info) :: u64 in
      if xreg c (rs2 info) \<noteq> 0 then (ill_trap info, c)
      else if addr mod size \<noteq> 0 then (make_trap kLoadAddressMisaligned (pc info), c)
      else
        let c1 = c\<lparr>cpu_reservation :=
                     \<lparr>res_addr = addr, res_size = take_bit 7 (ucast (mem_size info)), res_valid = True,
                      res_hart_id = cpu_hart_id c\<rparr>\<rparr>
        in case CPU_Load c1 addr size of
             (kLrTrap, bs, c2) \<Rightarrow>
               if trap_type kLrTrap \<noteq> kNone then (kLrTrap, c2)
               else let val = le_word bs :: u64
                    in (kNoneTrap, set_xreg (rd info)
                          (if token info = I_LR_W then scast (ucast val :: u32) else val) c2))"

definition AmoScExec :: "DecodeInfo \<Rightarrow> cpu \<Rightarrow> Trap \<times> cpu" where
  "AmoScExec info c =
     (let addr = xreg c (rs1 info); size = ucast (mem_size info) :: u64; r = cpu_reservation c in
      if addr mod size \<noteq> 0 then (make_trap kStoreAddressMisaligned (pc info), c)
      else if res_addr r = addr \<and> res_size r = ucast (mem_size info) \<and> res_valid r \<and>
              res_hart_id r = cpu_hart_id c
      then (case CPU_Store (c\<lparr>cpu_reservation := r\<lparr>res_valid := False\<rparr>\<rparr>) addr size
                   (le_bytes 8 (xreg c (rs2 info))) of
              (kScTrap, c1) \<Rightarrow>
                if trap_type kScTrap \<noteq> kNone then (kScTrap, c1)
                else (kNoneTrap, set_xreg (rd info) 0 c1))
      else
        let c1 = (if res_hart_id r = cpu_hart_id c
                  then c\<lparr>cpu_reservation := r\<lparr>res_valid := False\<rparr>\<rparr> else c)
        in (kNoneTrap, set_xreg (rd info) 1 c1))"

definition amo_val :: "InstToken \<Rightarrow> u64 \<Rightarrow> u64 \<Rightarrow> u64 option" where
  "amo_val tok kRs2Val mem_rs1 =
     (let rw = scast (ucast kRs2Val :: u32) :: u64; mw = scast (ucast mem_rs1 :: u32) :: u64 in
      if tok = I_AMOSWAP_W then Some rw
      else if tok = I_AMOSWAP_D then Some kRs2Val
      else if tok = I_AMOADD_W then Some (rw + mw)
      else if tok = I_AMOADD_D then Some (kRs2Val + mem_rs1)
      else if tok = I_AMOXOR_W then Some (rw XOR mw)
      else if tok = I_AMOXOR_D then Some (kRs2Val XOR mem_rs1)
      else if tok = I_AMOAND_W then Some (rw AND mw)
      else if tok = I_AMOAND_D then Some (kRs2Val AND mem_rs1)
      else if tok = I_AMOOR_W then Some (rw OR mw)
      else if tok = I_AMOOR_D then Some (kRs2Val OR mem_rs1)
      else if tok = I_AMOMIN_W then Some (if mw <s rw then mw else rw)
      else if tok = I_AMOMIN_D then Some (if mem_rs1 <s kRs2Val then mem_rs1 else kRs2Val)
      else if tok = I_AMOMAX_W then Some (if rw <s mw then mw else rw)
      else if tok = I_AMOMAX_D then Some (if kRs2Val <s mem_rs1 then mem_rs1 else kRs2Val)
      else if tok = I_AMOMINU_W then Some (ucast (min (ucast kRs2Val :: u32) (ucast mem_rs1)))
      else if tok = I_AMOMINU_D then Some (min kRs2Val mem_rs1)
      else if tok = I_AMOMAXU_W then Some (ucast (max (ucast kRs2Val :: u32) (ucast mem_rs1)))
      else if tok = I_AMOMAXU_D then Some (max kRs2Val mem_rs1)
      else None)"

definition AmoTypeExec :: "DecodeInfo \<Rightarrow> cpu \<Rightarrow> Trap \<times> cpu" where
  "AmoTypeExec info c =
     (if token info = I_LR_W \<or> token info = I_LR_D then AmoLrExec info c
      else if token info = I_SC_W \<or> token info = I_SC_D then AmoScExec info c
      else
        let addr = xreg c (rs1 info); kRs2Val = xreg c (rs2 info); size = ucast (mem_size info) :: u64 in
        if addr mod size \<noteq> 0 then (make_trap kLoadAddressMisaligned (pc info), c)
        else case CPU_Load c addr size of
          (kLoadTrap, bs, c1) \<Rightarrow>
            if trap_type kLoadTrap \<noteq> kNone then (kLoadTrap, c1)
            else
              let mem_rs1 = le_word bs :: u64
              in case amo_val (token info) kRs2Val mem_rs1 of
                   None \<Rightarrow> (ill_trap info, c1)
                 | Some target_val \<Rightarrow>
                     (case CPU_Store c1 addr size (le_bytes 8 target_val) of
                        (kStoreTrap, c2) \<Rightarrow>
                          if trap_type kStoreTrap \<noteq> kNone then (kStoreTrap, c2)
                          else (kNoneTrap, set_xreg (rd info)
                                  (if mem_size info = 8 then mem_rs1
                                   else scast (ucast mem_rs1 :: u32)) c2)))"

section \<open>Dispatch\<close>

definition Exec :: "env \<Rightarrow> DecodeInfo \<Rightarrow> cpu \<Rightarrow> Trap \<times> cpu" where
  "Exec env info c =
     (if op info = kReg then RegTypeExec info c
      else if op info = kImm then ImmTypeExec info c
      else if op info = kLui then LuiTypeExec info c
      else if op info = kBranch then BranchTypeExec env info c
      else if op info = kStore then StoreTypeExec info c
      else if op info = kLoad then LoadTypeExec info c
      else if op info = kSystem then SystemTypeExec env info c
      else if op info = kAuipc then AuipcTypeExec info c
      else if op info = kJal then JalTypeExec env info c
      else if op info = kJalr then JalrTypeExec env info c
      else if op info = kImm32 then Imm32TypeExec info c
      else if op info = kRv32 then Rv32TypeExec info c
      else if op info = kFence then FenceTypeExec info c
      else if op info = kAmo then AmoTypeExec info c
      else (ill_trap info, c))"

end
