(* ===== verification/Cpu.thy ===== *)
theory Cpu
  imports Executor
begin

text \<open>
  The processor's cycle (\<^verbatim>\<open>include/cpu/cpu.h\<close>, \<^verbatim>\<open>src/cpu/cpu.cc\<close>): fetch, decode and execute
  one instruction, then take the exception it raised, then take a pending interrupt, then
  count the instruction.
\<close>

section \<open>Construction\<close>

text \<open>A register group starts zeroed, and resetting it zeroes it again. A floating-point register is its 32 bits;
  no instruction of the decoder's table names one.\<close>

definition RegGroup_zero :: "u8 \<Rightarrow> 'a::len word" where
  [simp]: "RegGroup_zero = (\<lambda>_. 0)"

definition RegGroup_Reset :: "(u8 \<Rightarrow> 'a::len word) \<Rightarrow> (u8 \<Rightarrow> 'a word)" where
  [simp]: "RegGroup_Reset regs = (\<lambda>_. 0)"

definition RegFile_Reset :: "cpu \<Rightarrow> cpu" where
  [simp]: "RegFile_Reset c =
     c\<lparr>cpu_xregs := RegGroup_Reset (cpu_xregs c), cpu_fregs := RegGroup_Reset (cpu_fregs c)\<rparr>"

text \<open>The constructor; \<^verbatim>\<open>hart_id\<close> is the static counter of processors built so far.\<close>

definition CPU :: "u32 \<Rightarrow> sv39 \<Rightarrow> cpu" where
  "CPU hart_id mmu =
     \<lparr>cpu_pc = 0, cpu_instret = 0, cpu_hart_id = hart_id, cpu_state = State_init,
      cpu_xregs = RegGroup_zero(10 := ucast hart_id), cpu_fregs = RegGroup_zero, cpu_priv_mode = kMachine,
      cpu_reservation = \<lparr>res_addr = 0, res_size = 0, res_valid = False, res_hart_id = 0\<rparr>,
      cpu_mmu = mmu\<rparr>"

definition CPU_Reset :: "u64 \<Rightarrow> cpu \<Rightarrow> cpu" where
  "CPU_Reset ts c =
     (RegFile_Reset c)\<lparr>cpu_instret := 0, cpu_priv_mode := kMachine, cpu_pc := 0,
       cpu_mmu := Mmu_Reset ts (cpu_mmu c), cpu_state := State_Reset (cpu_state c)\<rparr>"

section \<open>Traps and interrupts\<close>

fun kCauseReg :: "PrivilegeMode \<Rightarrow> u64" where
  "kCauseReg kUser = kCsrUcause"
| "kCauseReg kSupervisor = kCsrScause"
| "kCauseReg kReserved = - 1"
| "kCauseReg kMachine = kCsrMcause"

fun kEpcReg :: "PrivilegeMode \<Rightarrow> u64" where
  "kEpcReg kUser = kCsrUepc"
| "kEpcReg kSupervisor = kCsrSepc"
| "kEpcReg kReserved = - 1"
| "kEpcReg kMachine = kCsrMepc"

fun kTvalReg :: "PrivilegeMode \<Rightarrow> u64" where
  "kTvalReg kUser = kCsrUtval"
| "kTvalReg kSupervisor = kCsrStval"
| "kTvalReg kReserved = - 1"
| "kTvalReg kMachine = kCsrMtval"

fun kTvecReg :: "PrivilegeMode \<Rightarrow> u64" where
  "kTvecReg kUser = kCsrUtvec"
| "kTvecReg kSupervisor = kCsrStvec"
| "kTvecReg kReserved = - 1"
| "kTvecReg kMachine = kCsrMtvec"

text \<open>The \<^verbatim>\<open>CauseDesc\<close> value of a trap, and whether it is delegated to supervisor mode.\<close>

definition cause_bits :: "TrapType \<Rightarrow> u64" where
  "cause_bits t =
     fset (field_of CauseDesc ''interrupt'') (if is_interrupt t then 1 else 0)
       (fset (field_of CauseDesc ''cause'') (kTrapToCauseTable t) 0)"

definition trap_to_s :: "TrapType \<Rightarrow> cpu \<Rightarrow> bool" where
  "trap_to_s t c \<longleftrightarrow>
     cpu_priv_mode c \<noteq> kMachine \<and>
     State_Read (cpu_state c) (if is_interrupt t then kCsrMideleg else kCsrMedeleg)
       AND push_bit (unat (kTrapToCauseTable t)) 1 \<noteq> 0"

definition HandleTrap :: "Trap \<Rightarrow> u64 \<Rightarrow> cpu \<Rightarrow> cpu" where
  "HandleTrap trap epc c =
     (if trap_type trap = kNone then c
      else
        let to_s = trap_to_s (trap_type trap) c;
            kNewPM = (if to_s then kSupervisor else kMachine);
            kCsrStatusAddr = (if to_s then kCsrSstatus else kCsrMstatus);
            kStatus = State_Read (cpu_state c) kCsrStatusAddr;
            kTrapPc = GetTrapPC (State_Read (cpu_state c) (kTvecReg kNewPM))
                        (kTrapToCauseTable (trap_type trap));
            st = State_Write (kTvalReg kNewPM) (trap_val trap)
                   (State_Write (kCauseReg kNewPM) (cause_bits (trap_type trap))
                     (State_Write (kEpcReg kNewPM) epc (cpu_state c)));
            kOriginPM = mode_val (cpu_priv_mode c);
            new = (if to_s
                   then fset (field_of SstatusDesc ''spp'') kOriginPM
                       (fset (field_of SstatusDesc ''sie'') 0
                       (fset (field_of SstatusDesc ''spie'') (fget (field_of SstatusDesc ''sie'') kStatus)
                          kStatus))
                   else mstatus_set ''mpp'' kOriginPM
                       (mstatus_set ''mie'' 0
                       (mstatus_set ''mpie'' (mstatus_get ''mie'' kStatus) kStatus)))
        in c\<lparr>cpu_pc := kTrapPc, cpu_state := State_Write kCsrStatusAddr new st,
             cpu_priv_mode := kNewPM\<rparr>)"

text \<open>Which interrupt is taken.\<close>

definition select_interrupt :: "cpu \<Rightarrow> TrapType" where
  "select_interrupt c =
     (let kMip = State_Read (cpu_state c) kCsrMip;
          kMie = State_Read (cpu_state c) kCsrMie;
          kMsVal = State_Read (cpu_state c) kCsrMstatus;
          kMidelegVal = State_Read (cpu_state c) kCsrMideleg;
          kCurPM = cpu_priv_mode c;
          kInterruptBits = kMip AND kMie
      in if kCurPM = kMachine then
           let kMmodeIntBits = kInterruptBits AND NOT kMidelegVal
           in if kMmodeIntBits \<noteq> 0 \<and> mstatus_get ''mie'' kMsVal \<noteq> 0
              then InterruptBitsToTrap kMmodeIntBits else kNone
         else
           let kInterruptType = InterruptBitsToTrap kInterruptBits
           in if TrapToMask kInterruptType AND kMidelegVal \<noteq> 0 then
                (if mstatus_get ''sie'' kMsVal \<noteq> 0 \<or> kCurPM < kSupervisor then kInterruptType else kNone)
              else (if mstatus_get ''mie'' kMsVal \<noteq> 0 \<or> kCurPM < kMachine then kInterruptType else kNone))"

definition HandleInterrupt :: "u64 \<Rightarrow> cpu \<Rightarrow> cpu" where
  "HandleInterrupt inst_addr c =
     (let kMip = State_Read (cpu_state c) kCsrMip;
          final_interrupt = make_trap (select_interrupt c) (cpu_pc c);
          kCsrMipMask = TrapToMask (trap_type final_interrupt);
          c1 = HandleTrap final_interrupt inst_addr c;
          st = State_Write kCsrMip (kMip AND NOT kCsrMipMask) (cpu_state c1)
      in c1\<lparr>cpu_state := (if kCsrMipMask \<noteq> 0 then SetWfi False st else st)\<rparr>)"

section \<open>The cycle\<close>

definition TickOperate :: "env \<Rightarrow> cpu \<Rightarrow> Trap \<times> cpu" where
  "TickOperate env c =
     (if GetWfi (cpu_state c) then
        let kMie = State_Read (cpu_state c) kCsrMie; kMip = State_Read (cpu_state c) kCsrMip
        in (kNoneTrap, if kMie AND kMip \<noteq> 0 then c\<lparr>cpu_state := SetWfi False (cpu_state c)\<rparr> else c)
      else
        case CPU_Fetch c (cpu_pc c) 4 of
          (kFetchTrap, bs, c1) \<Rightarrow>
            if trap_type kFetchTrap \<noteq> kNone then (kFetchTrap, c1)
            else
              let w = le_word bs;
                  info = DecodeInfo_ctor (env_imm env) (env_mem_size env) w (cpu_pc c1);
                  c2 = c1\<lparr>cpu_pc := cpu_pc c1 + ucast (inst_size info)\<rparr>
              in if token info = I_UNKNOWN then (make_trap kIllegalInstruction (ucast w), c2)
                 else case Exec env info c2 of
                        (kExecTrap, c3) \<Rightarrow> (kExecTrap, set_xreg 0 0 c3))"

text \<open>The interrupt lines copied into \<open>mip\<close> when the caller asks for it.\<close>

definition update_mip :: "bool \<Rightarrow> bool \<Rightarrow> bool \<Rightarrow> bool \<Rightarrow> cpu \<Rightarrow> cpu" where
  "update_mip meip seip msip mtip c =
     (let bit_val = (\<lambda>b. if b then 1 else 0);
          mip_val = State_Read (cpu_state c) kCsrMip;
          mip_new = fset (field_of MipDesc ''mtip'') (bit_val mtip)
                   (fset (field_of MipDesc ''msip'') (bit_val msip)
                   (fset (field_of MipDesc ''seip'') (bit_val seip)
                   (fset (field_of MipDesc ''meip'') (bit_val meip) mip_val)))
      in c\<lparr>cpu_state := State_Write kCsrMip mip_new (cpu_state c)\<rparr>)"

definition CPU_Tick :: "env \<Rightarrow> bool \<Rightarrow> bool \<Rightarrow> bool \<Rightarrow> bool \<Rightarrow> bool \<Rightarrow> cpu \<Rightarrow> cpu" where
  "CPU_Tick env meip seip msip mtip update c =
     (let c0 = (if update then update_mip meip seip msip mtip c else c);
          kEpc = cpu_pc c0
      in case TickOperate env c0 of
           (kTrap, c1) \<Rightarrow>
             let c2 = HandleTrap kTrap kEpc c1;
                 c3 = HandleInterrupt (cpu_pc c2) c2;
                 n = cpu_instret c3 + 1
             in c3\<lparr>cpu_instret := n, cpu_state := State_Write kCsrMinstret n (cpu_state c3)\<rparr>)"

definition CPU_Tick0 :: "env \<Rightarrow> cpu \<Rightarrow> cpu" where
  "CPU_Tick0 env = CPU_Tick env False False False False False"

definition GetInstret :: "cpu \<Rightarrow> u64" where
  "GetInstret c = cpu_instret c"

end
