(* ===== verification/Alu.thy ===== *)
theory Alu
  imports Executor
begin

text \<open>
  The integer instructions against the RISC-V manual: the multiply instructions deliver the
  high half of the exact product, division and remainder satisfy the division identity with
  the prescribed results at zero and at overflow, and the 32-bit forms compute on the low
  halves and sign-extend.
\<close>

section \<open>High halves of products\<close>

lemma MulUint64Hi_uint: "uint (MulUint64Hi a b) = uint a * uint b div 2 ^ 64"
proof -
  have "uint (MulUint64Hi a b) = int (unat (MulUint64Hi a b))" by simp
  also have "\<dots> = int (unat a) * int (unat b) div 2 ^ 64"
    unfolding MulUint64Hi_unat by (simp add: zdiv_int)
  finally show ?thesis by simp
qed

lemma sless_0: "(a :: u64) <s 0 \<longleftrightarrow> sint a < 0"
  by (simp add: word_sless_alt)

lemma sint_bounds: "- (2 ^ 63) \<le> sint (a :: u64)" "sint (a :: u64) < 2 ^ 63"
  using sint_greater_eq [of a] sint_less [of a] by simp_all

lemma uint_of_int: "uint (word_of_int k :: u64) = k mod 2 ^ 64"
  by (simp add: uint_word_of_int)

lemma uint_sint_mod: "uint (a :: u64) = sint a mod 2 ^ 64"
  using uint_of_int [of "sint a"] by simp

lemma uint_abs64: "uint (abs64 a) = \<bar>sint a\<bar>"
proof (cases "sint a < 0")
  case True
  then have "abs64 a = - a" by (simp add: abs64_def sless_0)
  also have "\<dots> = word_of_int (- sint a)" by simp
  finally have "uint (abs64 a) = (- sint a) mod 2 ^ 64" by (simp only: uint_of_int)
  also have "\<dots> = - sint a" using True sint_bounds [of a] by (intro mod_pos_pos_trivial) auto
  finally show ?thesis using True by simp
next
  case False
  then have "uint (abs64 a) = sint a mod 2 ^ 64" by (simp add: abs64_def sless_0 uint_sint_mod)
  also have "\<dots> = sint a" using False sint_bounds [of a] by (intro mod_pos_pos_trivial) auto
  finally show ?thesis using False by simp
qed

lemma of_int_0_iff: "(word_of_int k :: u64) = 0 \<longleftrightarrow> (2 :: int) ^ 64 dvd k"
proof -
  have "(word_of_int k :: u64) = 0 \<longleftrightarrow> uint (word_of_int k :: u64) = 0" by (simp only: uint_0_iff)
  then show ?thesis by (simp only: uint_of_int dvd_eq_mod_eq_0)
qed

lemma word_mult_0_iff: "a * b = (0 :: u64) \<longleftrightarrow> (2 :: int) ^ 64 dvd sint a * sint b"
  using of_int_0_iff [of "sint a * sint b"] by simp

lemma word_mult_0_iff': "a * b = (0 :: u64) \<longleftrightarrow> (2 :: int) ^ 64 dvd sint a * uint b"
  using of_int_0_iff [of "sint a * uint b"] by simp

lemma neg_div:
  fixes p :: int
  shows "(- p) div 2 ^ 64 = (if 2 ^ 64 dvd p then - (p div 2 ^ 64) else - (p div 2 ^ 64) - 1)"
  by (simp add: zdiv_zminus1_eq_if dvd_eq_mod_eq_0)

text \<open>The reference: bits 64 to 127 of the exact product.\<close>

definition mulh_ref :: "int \<Rightarrow> int \<Rightarrow> u64" where
  "mulh_ref x y = word_of_int (x * y div 2 ^ 64)"

lemma word_of_int_hi: "MulUint64Hi a b = word_of_int (uint a * uint b div 2 ^ 64)"
  by (metis MulUint64Hi_uint word_of_int_uint)

lemma not_word_of_int: "NOT (word_of_int k) = (word_of_int (- k - 1) :: u64)"
  by (simp add: not_eq_complement)

lemma MULH_correct: "reg_val I_MULH a b = Some (mulh_ref (sint a) (sint b))"
proof -
  let ?P = "\<bar>sint a\<bar> * \<bar>sint b\<bar>"
  have hi: "MulUint64Hi (abs64 a) (abs64 b) = word_of_int (?P div 2 ^ 64)"
    by (simp add: word_of_int_hi uint_abs64)
  show ?thesis
  proof (cases "(sint a < 0) = (sint b < 0)")
    case True
    then have "?P = sint a * sint b" by (auto simp: abs_if mult_neg_neg split: if_splits)
    with True hi show ?thesis by (simp add: reg_val_def sless_0 mulh_ref_def)
  next
    case False
    then have neg: "sint a * sint b = - ?P" by (auto simp: abs_if)
    have "a * b = 0 \<longleftrightarrow> 2 ^ 64 dvd ?P" unfolding word_mult_0_iff neg by (simp only: dvd_minus_iff)
    then have "NOT (MulUint64Hi (abs64 a) (abs64 b)) + bool64 (a * b = 0) =
        word_of_int ((- ?P) div 2 ^ 64)"
      unfolding hi not_word_of_int neg_div by simp
    with False neg show ?thesis by (simp add: reg_val_def sless_0 mulh_ref_def)
  qed
qed

lemma MULHU_correct: "reg_val I_MULHU a b = Some (mulh_ref (uint a) (uint b))"
  by (simp add: reg_val_def mulh_ref_def word_of_int_hi)


text \<open>
  \<open>MULHSU\<close> forgets the carry of the two's complement: with a negative first operand and a
  product whose low half is zero the result is one too small.
\<close>

lemma MULHSU_value:
  "reg_val I_MULHSU a b =
     Some (mulh_ref (sint a) (uint b) - bool64 (a <s 0 \<and> b \<noteq> 0 \<and> a * b = 0))"
proof (cases "sint a < 0 \<and> b \<noteq> 0")
  case True
  let ?P = "\<bar>sint a\<bar> * uint b"
  have hi: "MulUint64Hi (abs64 a) b = word_of_int (?P div 2 ^ 64)"
    by (simp add: word_of_int_hi uint_abs64)
  have neg: "sint a * uint b = - ?P" using True by simp
  have low: "a * b = 0 \<longleftrightarrow> 2 ^ 64 dvd ?P" unfolding word_mult_0_iff' neg by (simp only: dvd_minus_iff)
  have "NOT (MulUint64Hi (abs64 a) b) = word_of_int ((- ?P) div 2 ^ 64) - bool64 (a * b = 0)"
    unfolding hi not_word_of_int neg_div low by simp
  moreover have "a \<noteq> 0" using True by auto
  moreover have "mulh_ref (sint a) (uint b) = word_of_int ((- ?P) div 2 ^ 64)"
    by (simp only: mulh_ref_def neg)
  ultimately show ?thesis
    using True by (simp add: reg_val_def sless_0)
next
  case False
  show ?thesis
  proof (cases "a = 0 \<or> b = 0")
    case True
    then show ?thesis using False by (auto simp: reg_val_def mulh_ref_def sless_0)
  next
    case nz: False
    with False have "\<not> sint a < 0" by simp
    moreover from this have "uint a = sint a" using uint_abs64 [of a] by (simp add: abs64_def sless_0)
    ultimately show ?thesis
      using nz by (simp add: reg_val_def sless_0 mulh_ref_def word_of_int_hi)
  qed
qed

section \<open>Division\<close>

lemma word_div_identity: "word_sdiv a b * b + word_smod a b = (a :: 'a::len word)"
proof -
  have "word_sdiv a b * b + word_smod a b =
      word_of_int ((sint a sdiv sint b) * sint b + sint a smod sint b)"
    by (simp add: word_sdiv_def word_smod_def)
  then show ?thesis by (simp only: sdiv_mult_smod_eq of_int_sint scast_id id_apply)
qed

lemma sint_smod:
  fixes a b :: "'a::len word"
  assumes "b \<noteq> 0"
  shows "sint (word_smod a b) = sint a smod sint b"
proof -
  let ?h = "(2 :: int) ^ (LENGTH('a) - 1)"
  have b: "sint b \<noteq> 0" using assms by (simp add: signed_eq_0_iff)
  have "\<bar>sint b\<bar> \<le> ?h" using sint_greater_eq [of b] sint_less [of b] by (simp add: abs_le_iff)
  moreover have "\<bar>sint a smod sint b\<bar> < \<bar>sint b\<bar>"
    using b by (simp add: signed_modulo_int_def abs_mult abs_sgn_eq)
  ultimately have "- ?h \<le> sint a smod sint b" and "sint a smod sint b < ?h" by linarith+
  then show ?thesis by (simp add: word_smod_def sint_sbintrunc' signed_take_bit_int_eq_self)
qed

lemma DIV_REM_identity:
  assumes "reg_val I_DIV a b = Some q" and "reg_val I_REM a b = Some r"
  shows "q * b + r = a"
proof (cases "a = INT64_MIN \<and> b = - 1")
  case True
  then show ?thesis using assms by (auto simp: reg_val_def INT64_MIN_def)
next
  case False
  then show ?thesis using assms word_div_identity [of a b] by (auto simp: reg_val_def split: if_splits)
qed

lemma REM_sign:
  assumes "reg_val I_REM a b = Some r" and "b \<noteq> 0"
  shows "\<bar>sint r\<bar> < \<bar>sint b\<bar>" and "r = 0 \<or> (sint r < 0 \<longleftrightarrow> sint a < 0)"
proof -
  have b: "sint b \<noteq> 0" using assms(2) by (simp add: signed_eq_0_iff)
  have lt: "\<bar>sint a smod sint b\<bar> < \<bar>sint b\<bar>"
    using b by (simp add: signed_modulo_int_def abs_mult abs_sgn_eq)
  show "\<bar>sint r\<bar> < \<bar>sint b\<bar>"
    using assms b lt by (auto simp: reg_val_def sint_smod split: if_splits)
  have "sint a smod sint b = 0 \<or> (sint a smod sint b < 0 \<longleftrightarrow> sint a < 0)"
  proof -
    have pos: "0 \<le> x mod \<bar>sint b\<bar>" for x using b by (intro pos_mod_sign) simp
    consider "sint a = 0" | "sint a > 0" | "sint a < 0" by linarith
    then show ?thesis
      using pos [of "sint a"] pos [of "- sint a"] by cases (auto simp: signed_modulo_int_def)
  qed
  moreover have "sint a smod sint b = 0 \<Longrightarrow> word_smod a b = 0" by (simp add: word_smod_def)
  ultimately show "r = 0 \<or> (sint r < 0 \<longleftrightarrow> sint a < 0)"
    using assms by (auto simp: reg_val_def sint_smod signed_eq_0_iff split: if_splits)
qed


lemma DIVU_REMU_identity:
  assumes "reg_val I_DIVU a b = Some q" and "reg_val I_REMU a b = Some r"
  shows "q * b + r = a" and "b \<noteq> 0 \<Longrightarrow> r < b"
proof -
  have "a div b * b + a mod b = a" by (rule div_mult_mod_eq)
  then show "q * b + r = a" using assms by (auto simp: reg_val_def split: if_splits)
  show "r < b" if "b \<noteq> 0"
  proof -
    from assms(2) that have "r = a mod b" by (simp add: reg_val_def)
    moreover have "unat b > 0" using that by (simp add: unat_gt_0)
    ultimately show ?thesis by (simp add: word_less_nat_alt unat_mod)
  qed
qed

text \<open>The 32-bit instructions: every result is the sign extension of its low half.\<close>

lemma sign_extended: "scast (ucast (scast (x :: u32) :: u64) :: u32) = (scast x :: u64)"
proof -
  have "(ucast (scast x :: u64) :: u32) = x"
    by (rule bit_eqI) (auto simp: bit_simps)
  then show ?thesis by simp
qed

lemma sign_extended_const:
  "scast (ucast (- 1 :: u64) :: u32) = (- 1 :: u64)"
  "scast (ucast (0 :: u64) :: u32) = (0 :: u64)"
  by (rule bit_eqI, auto simp: bit_simps)+

lemma rv32_sign_extended: "rv32_val t a b = Some v \<Longrightarrow> scast (ucast v :: u32) = v"
  unfolding rv32_val_def by (auto simp: sign_extended sign_extended_const split: if_splits)

lemma imm32_sign_extended: "imm32_val t a i = Some v \<Longrightarrow> scast (ucast v :: u32) = v"
  unfolding imm32_val_def by (auto simp: sign_extended split: if_splits)

lemma DIVW_REMW_identity:
  assumes "rv32_val I_DIVW a b = Some q" and "rv32_val I_REMW a b = Some r"
  shows "ucast q * b + ucast r = a"
proof -
  have low: "(ucast (scast x :: u64) :: u32) = x" for x :: u32
    by (rule bit_eqI) (auto simp: bit_simps)
  show ?thesis
  proof (cases "a = INT32_MIN \<and> b = - 1")
    case True
    then show ?thesis using assms by (auto simp: rv32_val_def INT32_MIN_def low)
  next
    case False
    then show ?thesis using assms word_div_identity [of a b]
      by (auto simp: rv32_val_def low split: if_splits)
  qed
qed

section \<open>Properties\<close>

text \<open>The signed and unsigned high multiplications deliver bits 64 to 127 of the exact
  product of their operands.\<close>

theorem mulh_mulhu_exact:
  "reg_val I_MULH a b = Some (mulh_ref (sint a) (sint b)) \<and>
   reg_val I_MULHU a b = Some (mulh_ref (uint a) (uint b))"
  by (simp add: MULH_correct MULHU_correct)

text \<open>C30: The mixed high multiplication is exact except when the signed operand is negative, the
  other is not zero and the low half of the product is zero; there it is one too small.\<close>

theorem mulhsu_exact_iff:
  "reg_val I_MULHSU a b = Some (mulh_ref (sint a) (uint b)) \<longleftrightarrow> \<not> (a <s 0 \<and> b \<noteq> 0 \<and> a * b = 0)"
  by (simp add: MULHSU_value)

text \<open>C29: Signed and unsigned division and remainder satisfy the division identity for every pair
  of operands, division by zero and overflow included; for a divisor that is not zero the
  remainder is smaller than the divisor and the signed remainder has the dividend's sign.\<close>

theorem division_identity:
  assumes "reg_val I_DIV a b = Some q" and "reg_val I_REM a b = Some r"
    and "reg_val I_DIVU a b = Some qu" and "reg_val I_REMU a b = Some ru"
  shows "q * b + r = a \<and> qu * b + ru = a \<and>
    (if b = 0 then q = - 1 \<and> qu = - 1
     else \<bar>sint r\<bar> < \<bar>sint b\<bar> \<and> (r = 0 \<or> (sint r < 0 \<longleftrightarrow> sint a < 0)) \<and> ru < b)"
proof (intro conjI)
  show "q * b + r = a" using assms(1,2) by (rule DIV_REM_identity)
  show "qu * b + ru = a" using assms(3,4) by (rule DIVU_REMU_identity)
  show "if b = 0 then q = - 1 \<and> qu = - 1
     else \<bar>sint r\<bar> < \<bar>sint b\<bar> \<and> (r = 0 \<or> (sint r < 0 \<longleftrightarrow> sint a < 0)) \<and> ru < b"
    using assms REM_sign [OF assms(2)] DIVU_REMU_identity(2) [OF assms(3,4)]
    by (auto simp: reg_val_def)
qed

theorem division_identity_witness:
  "reg_val I_DIV (- 7) 2 = Some (- 3) \<and> reg_val I_REM (- 7) 2 = Some (- 1) \<and>
   (- 3) * 2 + (- 1) = (- 7 :: u64)"
proof -
  have v: "reg_val I_DIV (- 7) 2 = Some (- 3)" "reg_val I_REM (- 7) 2 = Some (- 1)"
    "reg_val I_DIVU (- 7) 2 = Some ((- 7) div 2)" "reg_val I_REMU (- 7) 2 = Some ((- 7) mod 2)"
    by (simp_all add: reg_val_def INT64_MIN_def word_sdiv_def word_smod_def)
  from division_identity [OF v] show ?thesis using v by simp
qed

text \<open>Every result of a 32-bit instruction is the sign extension of its low half, and the
  32-bit division and remainder satisfy the division identity on the low halves.\<close>

theorem word_results:
  assumes "rv32_val t a b = Some v" and "imm32_val t' a' i = Some v'"
    and "rv32_val I_DIVW a b = Some q" and "rv32_val I_REMW a b = Some r"
  shows "scast (ucast v :: u32) = v \<and> scast (ucast v' :: u32) = v' \<and> ucast q * b + ucast r = a"
  using assms rv32_sign_extended imm32_sign_extended DIVW_REMW_identity by simp

theorem word_results_witness:
  "rv32_val I_ADDW 0x7fffffff 2 = Some 0xffffffff80000001 \<and>
   scast (ucast (0xffffffff80000001 :: u64) :: u32) = (0xffffffff80000001 :: u64)"
proof -
  have v: "rv32_val I_ADDW 0x7fffffff 2 = Some 0xffffffff80000001"
    "imm32_val I_SLLIW 1 31 = Some 0xffffffff80000000"
    "rv32_val I_DIVW 0x7fffffff 2 = Some 0x3fffffff" "rv32_val I_REMW 0x7fffffff 2 = Some 1"
    by (simp_all add: rv32_val_def imm32_val_def INT32_MIN_def word_sdiv_def word_smod_def)
  from word_results [OF v] show ?thesis using v by simp
qed

end
