(* ===== verification/Mmu_Lemmas.thy ===== *)
theory Mmu_Lemmas
  imports Mmu
begin

text \<open>
  What address translation guarantees: the TLB keeps its shape and no access leaves its device,
  a successful access of memory reads back what was stored, a flush removes what it names, the
  TLB is transparent (a cached translation is the one the page tables give), and the physical
  address is the one of the Sv39 scheme as long as the physical page number fits.
\<close>

section \<open>Invariant\<close>

text \<open>
  \<open>sv39_inv safe sh s\<close>: the TLB has its two entries, the next victim is one of them, the bus
  keeps its invariant and the devices mounted on it are those of \<open>sh\<close>; if \<open>safe\<close>, moreover, no access has left its device and every
  mounted device takes accesses of up to eight bytes.
\<close>

definition sv39_inv :: "bool \<Rightarrow> bus_shape \<Rightarrow> sv39 \<Rightarrow> bool" where
  "sv39_inv safe sh s \<longleftrightarrow>
     length (sv39_tlb s) = kTlbSize \<and> sv39_index s < kTlbSize \<and> bus_wf (sv39_bus s) \<and>
     shape_of (sv39_bus s) = sh \<and>
     (safe \<longrightarrow> \<not> sv39_ub s \<and> bus_width (sv39_bus s) = 8 \<and> bus_need (sv39_bus s) \<le> 8)"

lemma sv39_inv_Load:
  assumes "sv39_inv safe sh s" and "unat n \<le> 8"
  shows "sv39_inv safe sh (snd (Sv39_Load s a n))"
proof (cases "Bus_Load (sv39_bus s) a n")
  case (Done x)
  then obtain bs b where "Bus_Load (sv39_bus s) a n = Done (bs, b)" by (cases x) auto
  with assms shape_Load [of "sv39_bus s" a n bs b] bus.load_wf [of "sv39_bus s" a n bs b] bus.load_kind [of "sv39_bus s" a n bs b]
  show ?thesis by (auto simp: sv39_inv_def Sv39_Load_def)
next
  case Fail
  with assms show ?thesis by (auto simp: sv39_inv_def Sv39_Load_def)
next
  case Stray
  with assms Bus_Load_safe [of "sv39_bus s" n a] show ?thesis
    by (auto simp: sv39_inv_def Sv39_Load_def)
qed

lemma sv39_inv_Store:
  assumes "sv39_inv safe sh s" and "unat n \<le> 8" and "length buf = 8"
  shows "sv39_inv safe sh (snd (Sv39_Store s a n buf))"
proof (cases "Bus_Store (sv39_bus s) a n buf")
  case (Done b)
  with assms shape_Store [of "sv39_bus s" a n buf b] bus.store_wf [of "sv39_bus s" a n buf b] bus.store_kind [of "sv39_bus s" a n buf b]
  show ?thesis by (auto simp: sv39_inv_def Sv39_Store_def)
next
  case Fail
  with assms show ?thesis by (auto simp: sv39_inv_def Sv39_Store_def)
next
  case Stray
  with assms Bus_Store_safe [of "sv39_bus s" n buf a] show ?thesis
    by (auto simp: sv39_inv_def Sv39_Store_def)
qed

lemma sv39_inv_walk_levels: "sv39_inv safe sh s \<Longrightarrow> sv39_inv safe sh (snd (walk_levels ls v a s))"
proof (induction ls v a s rule: walk_levels.induct)
  case (2 i ls v a s)
  have "sv39_inv safe sh (snd (Sv39_Load s (a + vpn i v * 8) 8))"
    using "2.prems" by (rule sv39_inv_Load) simp
  with 2 show ?case by (auto simp: Let_def split: prod.splits option.splits walk_step.splits)
qed simp

lemma sv39_inv_counters [simp]:
  "sv39_inv safe sh (s\<lparr>sv39_cache_miss := x\<rparr>) = sv39_inv safe sh s"
  "sv39_inv safe sh (s\<lparr>sv39_cache_hit := x\<rparr>) = sv39_inv safe sh s"
  by (simp_all add: sv39_inv_def)

lemma sv39_inv_GetTlbEntry:
  assumes "sv39_inv safe sh s"
  shows "sv39_inv safe sh (snd (GetTlbEntry s satp v))"
proof -
  let ?s = "s\<lparr>sv39_cache_miss := sv39_cache_miss s + 1\<rparr>"
  have "sv39_inv safe sh (snd (PageTableWalk ?s satp v))"
    using assms by (simp add: PageTableWalk_def sv39_inv_walk_levels del: walk_levels.simps)
  then show ?thesis using assms
    by (auto simp: GetTlbEntry_def Let_def sv39_inv_def const_defs split: prod.splits option.splits)
qed

lemma sv39_inv_FlushTlb: "sv39_inv safe sh s \<Longrightarrow> sv39_inv safe sh (Sv39_FlushTlb v asid s)"
  by (simp add: sv39_inv_def Sv39_FlushTlb_def)

lemma sv39_inv_init: "bus_wf b \<Longrightarrow> sv39_inv False (shape_of b) (Sv39 b)"
  by (simp add: sv39_inv_def Sv39_def const_defs)

lemma sv39_inv_phys_load:
  "sv39_inv safe sh s \<Longrightarrow> unat n \<le> 8 \<Longrightarrow> sv39_inv safe sh (snd (snd (phys_load s a n t)))"
  using sv39_inv_Load [of safe sh s n a] by (auto simp: phys_load_def split: prod.splits option.splits)

lemma sv39_inv_phys_store:
  "sv39_inv safe sh s \<Longrightarrow> unat n \<le> 8 \<Longrightarrow> length buf = 8 \<Longrightarrow>
   sv39_inv safe sh (snd (phys_store s a n buf t))"
  using sv39_inv_Store [of safe sh s n buf a] by (auto simp: phys_store_def split: prod.splits)

lemma sv39_inv_Mmu_Fetch:
  assumes "sv39_inv safe sh s" and "unat n \<le> 8"
  shows "sv39_inv safe sh (snd (snd (Mmu_Fetch m st s a n)))"
proof -
  obtain r s1 where g: "GetTlbEntry s (State_Read st kCsrSatp) a = (r, s1)" by fastforce
  with sv39_inv_GetTlbEntry [OF assms(1), of "State_Read st kCsrSatp" a] have "sv39_inv safe sh s1" by simp
  with g assms show ?thesis
    by (cases r) (simp_all add: Mmu_Fetch_def Let_def sv39_inv_phys_load)
qed

lemma sv39_inv_Mmu_Load:
  assumes "sv39_inv safe sh s" and "unat n \<le> 8"
  shows "sv39_inv safe sh (snd (snd (Mmu_Load m st s a n)))"
proof -
  obtain r s1 where g: "GetTlbEntry s (State_Read st kCsrSatp) a = (r, s1)" by fastforce
  with sv39_inv_GetTlbEntry [OF assms(1), of "State_Read st kCsrSatp" a] have "sv39_inv safe sh s1" by simp
  with g assms show ?thesis
    by (cases r) (simp_all add: Mmu_Load_def Let_def sv39_inv_phys_load)
qed

lemma sv39_inv_Mmu_Store:
  assumes "sv39_inv safe sh s" and "unat n \<le> 8" and "length buf = 8"
  shows "sv39_inv safe sh (snd (Mmu_Store m st s a n buf))"
proof -
  obtain r s1 where g: "GetTlbEntry s (State_Read st kCsrSatp) a = (r, s1)" by fastforce
  with sv39_inv_GetTlbEntry [OF assms(1), of "State_Read st kCsrSatp" a] have "sv39_inv safe sh s1" by simp
  with g assms show ?thesis
    by (cases r) (simp_all add: Mmu_Store_def Let_def sv39_inv_phys_store)
qed

section \<open>Flushing\<close>

lemma tlb_match_flushed: "tlb_page_size e = 0 \<Longrightarrow> \<not> tlb_match satp v e"
  by (simp add: tlb_match_def)

lemma flush_all_miss: "LookUpTlb (Sv39_FlushTlb 0 0 s) satp v = None"
  by (auto simp: LookUpTlb_def Sv39_FlushTlb_def find_None_iff flush_entry_def tlb_match_def)

lemma flush_page_miss:
  assumes "asid = 0 \<or> (asid = satp_get ''asid'' satp \<and> (\<forall>e \<in> set (sv39_tlb s). \<not> tlb_G e))"
  shows "LookUpTlb (Sv39_FlushTlb v asid s) satp v = None"
  using assms by (auto simp: LookUpTlb_def Sv39_FlushTlb_def find_None_iff flush_entry_def tlb_match_def)

section \<open>Reading page tables in main memory\<close>

definition dram_at :: "bus \<Rightarrow> u64 \<Rightarrow> bool" where
  "dram_at b a \<longleftrightarrow>
     (case GetDeviceByRange b a of
        None \<Rightarrow> False
      | Some i \<Rightarrow> (case node_dev (bus_device b ! i) of DevDram _ \<Rightarrow> True | _ \<Rightarrow> False))"

lemma dram_atE:
  assumes "dram_at b a"
  obtains i d where "GetDeviceByRange b a = Some i" and "i < length (bus_device b)"
    and "node_dev (bus_device b ! i) = DevDram d"
  using assms
  by (auto simp: dram_at_def GetDeviceByRange_Some split: option.splits device.splits)

lemma set_dev_same: "i < length (bus_device b) \<Longrightarrow> set_dev i (node_dev (bus_device b ! i)) b = b"
  by (simp add: set_dev_def)

text \<open>A read of main memory does not change the machine, and it is memory safe.\<close>

lemma Bus_Load_dram:
  assumes "bus_wf b" and "dram_at b a" and "unat n \<le> 8"
  shows "Bus_Load b a n = Fail \<or> (\<exists>bs. Bus_Load b a n = Done (bs, b))"
proof -
  from assms(2) obtain i d where i: "GetDeviceByRange b a = Some i" "i < length (bus_device b)"
    and d: "node_dev (bus_device b ! i) = DevDram d" by (rule dram_atE)
  let ?off = "a - node_base (bus_device b ! i)"
  have "device_Load (DevDram d) ?off n \<noteq> Stray"
    using device_Load_safe [OF bus_offset [OF assms(1) i(1)], of n] d assms(3) by simp
  moreover have "Dram_Load d ?off n = Done (bs, d') \<Longrightarrow> d' = d" for bs d'
    by (auto simp: Dram_Load_def split: if_splits io.splits)
  moreover have "set_dev i (DevDram d) b = b" using set_dev_same [OF i(2)] d by simp
  ultimately show ?thesis
    using i d by (cases "Dram_Load d ?off n") (auto simp: Bus_Load_def Let_def)
qed

definition read_pte :: "bus \<Rightarrow> u64 \<Rightarrow> u64 option" where
  "read_pte b a = (case Bus_Load b a 8 of Done (bs, _) \<Rightarrow> Some (le_word bs) | _ \<Rightarrow> None)"

text \<open>The walk as a function of a memory that maps addresses to table entries.\<close>

fun ref_walk :: "(u64 \<Rightarrow> u64 option) \<Rightarrow> nat list \<Rightarrow> u64 \<Rightarrow> u64 \<Rightarrow> (u64 \<times> u64) option" where
  "ref_walk rd [] v a = None"
| "ref_walk rd (i # is) v a =
     (case rd (a + vpn i v * 8) of
        None \<Rightarrow> None
      | Some pte \<Rightarrow>
          (case walk_entry i pte of
             WalkFail \<Rightarrow> None
           | WalkNext a' \<Rightarrow> ref_walk rd is v a'
           | WalkLeaf \<Rightarrow> Some (pte, of_nat (i + 1))))"

text \<open>All tables that the walk of an address visits are in main memory.\<close>

fun tables_in_dram :: "bus \<Rightarrow> nat list \<Rightarrow> u64 \<Rightarrow> u64 \<Rightarrow> bool" where
  "tables_in_dram b [] v a = True"
| "tables_in_dram b (i # is) v a =
     (dram_at b (a + vpn i v * 8) \<and>
      (case read_pte b (a + vpn i v * 8) of
         None \<Rightarrow> True
       | Some pte \<Rightarrow> (case walk_entry i pte of WalkNext a' \<Rightarrow> tables_in_dram b is v a' | _ \<Rightarrow> True)))"

lemma Sv39_Load_dram:
  assumes "bus_wf (sv39_bus s)" and "dram_at (sv39_bus s) a"
  shows "\<exists>r. Sv39_Load s a 8 = (r, s) \<and> map_option le_word r = read_pte (sv39_bus s) a"
  using Bus_Load_dram [OF assms, of 8] by (auto simp: Sv39_Load_def read_pte_def)

lemma walk_levels_ref:
  "bus_wf (sv39_bus s) \<Longrightarrow> tables_in_dram (sv39_bus s) ls v a \<Longrightarrow>
   walk_levels ls v a s = (ref_walk (read_pte (sv39_bus s)) ls v a, s)"
proof (induction ls arbitrary: a)
  case (Cons i ls)
  from Cons.prems obtain r where r: "Sv39_Load s (a + vpn i v * 8) 8 = (r, s)"
    "read_pte (sv39_bus s) (a + vpn i v * 8) = map_option le_word r"
    using Sv39_Load_dram [of s "a + vpn i v * 8"] by auto
  show ?case
  proof (cases r)
    case None
    with r show ?thesis by simp
  next
    case (Some bs)
    with r Cons.prems Cons.IH show ?thesis
      by (cases "walk_entry i (le_word bs)") simp_all
  qed
qed simp

lemma unat_of_nat_small: "n < 16 \<Longrightarrow> unat (of_nat n :: u64) = n"
  by (simp add: unsigned_of_nat take_bit_eq_mod)

lemma of_nat_small_eq: "of_nat m = (of_nat n :: u64) \<Longrightarrow> m < 16 \<Longrightarrow> n < 16 \<Longrightarrow> m = n"
  by (metis unat_of_nat_small)

text \<open>The walk looks only at the parts of the address above the page it finds.\<close>

lemma ref_walk_level:
  "ref_walk rd ls v a = Some (pte, n) \<Longrightarrow> \<exists>i \<in> set ls. n = of_nat (i + 1) \<and> walk_entry i pte = WalkLeaf"
proof (induction ls arbitrary: a)
  case (Cons j ls)
  then show ?case by (auto split: option.splits walk_step.splits)
qed simp

lemma ref_walk_same_page:
  assumes "ref_walk rd ls v a = Some (pte, of_nat (i + 1))" and "sorted_wrt (>) ls"
    and "\<forall>j \<in> set ls. i \<le> j \<longrightarrow> vpn j w = vpn j v" and "\<forall>j \<in> set ls. j < 4" and "i < 4"
  shows "ref_walk rd ls w a = Some (pte, of_nat (i + 1))"
  using assms
proof (induction ls arbitrary: a)
  case (Cons h ls)
  have small: "of_nat (j + 1) = (of_nat (k + 1) :: u64) \<Longrightarrow> j < 4 \<Longrightarrow> k < 4 \<Longrightarrow> j = k" for j k
    by (drule of_nat_small_eq) simp_all
  from ref_walk_level [OF Cons.prems(1)] have "i \<in> set (h # ls)"
    using Cons.prems(4,5) small [of i] by (metis)
  with Cons.prems(2) have "i \<le> h" by auto
  with Cons.prems(3) have "vpn h w = vpn h v" by simp
  with Cons show ?case by (auto split: option.splits walk_step.splits)
qed simp

section \<open>The translation of the manual\<close>

text \<open>
  The Sv39 algorithm of the privileged manual, written on page numbers: at level \<open>i\<close> the entry
  of the table is invalid, a pointer to the next table, or a leaf that maps a page of
  2 ^ (12 + 9 i) bytes and must be aligned to it. The entry and its level are returned. (Bit 63
  of an entry is ignored.)
\<close>

definition pte_ppn :: "u64 \<Rightarrow> u64" where
  "pte_ppn pte = fget (10, 44) pte"

fun spec_walk :: "(u64 \<Rightarrow> u64 option) \<Rightarrow> nat \<Rightarrow> u64 \<Rightarrow> u64 \<Rightarrow> (u64 \<times> nat) option" where
  "spec_walk rd i v a =
     (case rd (a + fget (12 + 9 * i, 9) v * 8) of
        None \<Rightarrow> None
      | Some pte \<Rightarrow>
          if \<not> bit pte 0 \<or> (\<not> bit pte 1 \<and> bit pte 2) \<or> fget (54, 9) pte \<noteq> 0 then None
          else if bit pte 1 \<or> bit pte 3
          then (if take_bit (9 * i) (pte_ppn pte) \<noteq> 0 then None else Some (pte, i))
          else (case i of 0 \<Rightarrow> None | Suc j \<Rightarrow> spec_walk rd j v (push_bit 12 (pte_ppn pte))))"

declare spec_walk.simps [simp del]

definition sv39_spec :: "(u64 \<Rightarrow> u64 option) \<Rightarrow> u64 \<Rightarrow> u64 \<Rightarrow> (u64 \<times> nat) option" where
  "sv39_spec rd satp v =
     (if sv39_canonical v \<and> satp_get ''mode'' satp = 8
      then spec_walk rd 2 v (push_bit 12 (satp_get ''ppn'' satp)) else None)"

text \<open>The physical address: the page number, with the bits below the page size from the
  virtual address.\<close>

definition spec_pa :: "u64 \<Rightarrow> nat \<Rightarrow> u64 \<Rightarrow> u64" where
  "spec_pa pte i v = merge (mask (12 + 9 * i)) v (push_bit 12 (pte_ppn pte))"

lemma fget_split_0: "fget (p, m + n) w = (0 :: u64) \<longleftrightarrow> fget (p, m) w = 0 \<and> fget (p + m, n) w = 0"
proof
  assume "fget (p, m + n) w = 0"
  then have *: "\<not> bit (fget (p, m + n) w) i" for i by simp
  show "fget (p, m) w = 0 \<and> fget (p + m, n) w = 0"
    using * by (auto intro!: bit_eqI simp: bit_fget add.assoc)
next
  assume "fget (p, m) w = 0 \<and> fget (p + m, n) w = 0"
  then have *: "\<not> bit (fget (p, m) w) i" "\<not> bit (fget (p + m, n) w) i" for i by simp_all
  show "fget (p, m + n) w = 0"
  proof (rule bit_eqI)
    fix i show "bit (fget (p, m + n) w) i = bit 0 i"
      using *(1) [of i] *(2) [of "i - m"] by (cases "i < m") (auto simp: bit_fget)
  qed
qed

lemma take_bit_ppn: "n \<le> 44 \<Longrightarrow> take_bit n (pte_ppn pte) = fget (10, n) pte"
  by (simp add: pte_ppn_def fget_def min_absorb1)

lemma next_table:
  "fset (30, 26) (fget (28, 26) pte) (fset (21, 9) (fget (19, 9) pte) (fset (12, 9) (fget (10, 9) pte) 0))
   = push_bit 12 (pte_ppn pte)"
proof (rule bit_eqI)
  fix i
  show "bit (fset (30, 26) (fget (28, 26) pte) (fset (21, 9) (fget (19, 9) pte) (fset (12, 9) (fget (10, 9) pte) 0))) i
    = bit (push_bit 12 (pte_ppn pte)) i"
    by (auto simp: bit_fset bit_fget pte_ppn_def bit_push_bit_iff; auto simp: le_less_trans)
qed

lemma walk_entry_spec:
  assumes "i < 3"
  shows "walk_entry i pte =
    (if \<not> bit pte 0 \<or> (\<not> bit pte 1 \<and> bit pte 2) \<or> fget (54, 9) pte \<noteq> 0 then WalkFail
     else if bit pte 1 \<or> bit pte 3
     then (if take_bit (9 * i) (pte_ppn pte) \<noteq> 0 then WalkFail else WalkLeaf)
     else WalkNext (push_bit 12 (pte_ppn pte)))"
proof -
  have r: "fget (54, 9) pte = 0 \<longleftrightarrow> fget (54, 7) pte = 0 \<and> fget (61, 2) pte = 0"
    using fget_split_0 [of 54 7 2 pte] by simp
  have a: "take_bit (9 * i) (pte_ppn pte) \<noteq> 0 \<longleftrightarrow>
     (i = 2 \<and> (fget (19, 9) pte \<noteq> 0 \<or> fget (10, 9) pte \<noteq> 0)) \<or> (i = 1 \<and> fget (10, 9) pte \<noteq> 0)"
  proof -
    from assms have "i = 0 \<or> i = 1 \<or> i = 2" by auto
    then show ?thesis using fget_split_0 [of 10 9 9 pte] by (auto simp: take_bit_ppn)
  qed
  have b: "fget (k, 1) pte = 0 \<longleftrightarrow> \<not> bit pte k" for k using fget_bit_neq_0 by blast
  show ?thesis
    by (simp only: walk_entry_def field_defs b next_table a r) auto
qed

lemma vpn_spec: "i < 3 \<Longrightarrow> vpn i v = fget (12 + 9 * i, 9) v"
  by (auto simp: vpn_def field_defs less_Suc_eq numeral_3_eq_3)

lemma ref_walk_spec_step:
  assumes "i < 3" and "i = 0 \<Longrightarrow> ls = []"
    and "\<And>j a. i = Suc j \<Longrightarrow> ref_walk rd ls v a = map_option (\<lambda>(pte, k). (pte, of_nat (k + 1))) (spec_walk rd j v a)"
  shows "ref_walk rd (i # ls) v a = map_option (\<lambda>(pte, k). (pte, of_nat (k + 1))) (spec_walk rd i v a)"
  using assms
  by (cases i) (auto simp: spec_walk.simps vpn_spec walk_entry_spec split: option.splits)

lemma ref_walk_spec:
  "ref_walk rd [2, 1, 0] v a = map_option (\<lambda>(pte, k). (pte, of_nat (k + 1))) (spec_walk rd 2 v a)"
proof -
  have "ref_walk rd [0] v a = map_option (\<lambda>(pte, k). (pte, of_nat (k + 1))) (spec_walk rd 0 v a)" for a
    by (rule ref_walk_spec_step) simp_all
  then have "ref_walk rd [1, 0] v a = map_option (\<lambda>(pte, k). (pte, of_nat (k + 1))) (spec_walk rd 1 v a)" for a
    by (intro ref_walk_spec_step) (simp_all del: ref_walk.simps)
  moreover have "2 = Suc j \<Longrightarrow> j = 1" for j by simp
  ultimately show ?thesis by (intro ref_walk_spec_step) (simp, simp, metis)
qed

lemma mod_page: "v mod push_bit (9 * k) 8 = take_bit (9 * k + 3) (v :: u64)"
proof -
  have "push_bit (9 * k) (8 :: u64) = 2 ^ (9 * k + 3)"
    by (simp add: push_bit_eq_mult power_add mult.commute)
  then show ?thesis by (simp add: take_bit_eq_mod)
qed

lemma page_bits:
  assumes "i < 3"
  shows "unat ((of_nat (i + 1) :: u64) * 9) = 9 * (i + 1)"
proof -
  have "(of_nat (i + 1) :: u64) * 9 = of_nat (9 * (i + 1))" by simp
  also have "unat \<dots> = 9 * (i + 1)" using assms by (simp only: unsigned_of_nat) (simp add: take_bit_eq_mod)
  finally show ?thesis .
qed

lemma leaf_aligned: "i < 3 \<Longrightarrow> walk_entry i pte = WalkLeaf \<Longrightarrow> take_bit (9 * i) (pte_ppn pte) = 0"
  by (auto simp: walk_entry_spec split: if_splits)

lemma GetPpn_spec: "GetPpnByPageTableEntry pte = take_bit 39 (push_bit 12 (pte_ppn pte))"
proof (rule bit_eqI)
  fix i
  show "bit (GetPpnByPageTableEntry pte) i = bit (take_bit 39 (push_bit 12 (pte_ppn pte))) i"
    unfolding GetPpnByPageTableEntry_def field_defs
    by (auto simp: bit_fset bit_fget pte_ppn_def bit_push_bit_iff bit_take_bit_iff)
qed

text \<open>The address of a filled entry is the one of the manual, cut to 39 bits.\<close>

lemma MapVirtualAddress_spec:
  assumes "i < 3" and "walk_entry i pte = WalkLeaf"
    and "tlb_ppn e = GetPpnByPageTableEntry pte" and "tlb_page_size e = of_nat (i + 1)"
  shows "MapVirtualAddress e v = take_bit 39 (spec_pa pte i v)"
proof -
  let ?n = "12 + 9 * i"
  have n: "9 * (i + 1) + 3 = ?n" by simp
  have "take_bit (9 * i) (pte_ppn pte) = 0" using assms(1,2) by (rule leaf_aligned)
  then have al: "\<not> bit (pte_ppn pte) k" if "k < 9 * i" for k
    using that by (metis bit_0_eq bit_take_bit_iff bot_apply bot_bool_def)
  have "MapVirtualAddress e v = take_bit 39 (push_bit 12 (pte_ppn pte)) + take_bit ?n v"
    using page_bits [OF assms(1)] mod_page [of v "i + 1"] n
    by (simp only: MapVirtualAddress_def Let_def assms(3,4) GetPpn_spec)
  also have "\<dots> = take_bit 39 (push_bit 12 (pte_ppn pte)) OR take_bit ?n v"
    by (rule disjunctive_add) (auto simp: bit_simps al)
  also have "\<dots> = take_bit 39 (spec_pa pte i v)"
    using assms(1) by (intro bit_eqI) (auto simp: bit_simps bit_merge spec_pa_def al)
  finally show ?thesis .
qed

section \<open>Coherence of the TLB\<close>

text \<open>
  The TLB is coherent with the page tables if every entry that answers for an address holds
  what the tables say of that address. A flush of everything establishes it.
\<close>

definition tlb_coherent :: "u64 \<Rightarrow> sv39 \<Rightarrow> bool" where
  "tlb_coherent satp s \<longleftrightarrow>
     (\<forall>e \<in> set (sv39_tlb s). \<forall>v. sv39_canonical v \<longrightarrow> tlb_match satp v e \<longrightarrow>
        (\<exists>pte i. sv39_spec (read_pte (sv39_bus s)) satp v = Some (pte, i) \<and>
           e\<lparr>tlb_asid := satp_get ''asid'' satp\<rparr> = fill_entry satp v pte (of_nat (i + 1))))"

lemma coherent_flush: "tlb_coherent satp (Sv39_FlushTlb 0 0 s)"
  using flush_all_miss [of s satp]
  by (auto simp: tlb_coherent_def LookUpTlb_def find_None_iff)

lemma coherent_init: "tlb_coherent satp (Sv39 b)"
  by (auto simp: tlb_coherent_def Sv39_def const_defs tlb_match_def Sv39TlbEntry_zero_def)

lemma spec_walk_level: "spec_walk rd i v a = Some (pte, k) \<Longrightarrow> i < 3 \<Longrightarrow> k \<le> i \<and> walk_entry k pte = WalkLeaf"
proof (induction rd i v a rule: spec_walk.induct)
  case (1 rd i v a)
  from "1.prems"(1) obtain p where p: "rd (a + fget (12 + 9 * i, 9) v * 8) = Some p"
    by (subst (asm) spec_walk.simps) (auto split: option.splits)
  show ?case
  proof (cases "bit p 1 \<or> bit p 3")
    case True
    with p "1.prems" show ?thesis
      by (subst (asm) spec_walk.simps) (auto simp: walk_entry_spec split: if_splits)
  next
    case False
    with p "1.prems"(1) obtain j where j: "i = Suc j" "spec_walk rd j v (push_bit 12 (pte_ppn p)) = Some (pte, k)"
      and ok: "\<not> (\<not> bit p 0 \<or> (\<not> bit p 1 \<and> bit p 2) \<or> fget (54, 9) p \<noteq> 0)"
      by (subst (asm) spec_walk.simps) (auto split: if_splits nat.splits)
    from "1.IH" [OF p ok False j] "1.prems"(2) j(1) show ?thesis by auto
  qed
qed

lemma sv39_spec_level:
  "sv39_spec rd satp v = Some (pte, i) \<Longrightarrow> i < 3 \<and> walk_entry i pte = WalkLeaf"
  by (auto simp: sv39_spec_def split: if_splits dest: spec_walk_level)

lemma same_tag_vpn:
  assumes "GetTlbTag w (of_nat (i + 1)) = GetTlbTag v (of_nat (i + 1))" and "i < 3" and "i \<le> j" and "j < 3"
  shows "vpn j w = vpn j v"
proof -
  have "drop_bit (9 * (i + 1)) (drop_bit 3 w) = drop_bit (9 * (i + 1)) (drop_bit 3 v)"
    using assms(1) by (simp only: GetTlbTag_def page_bits [OF assms(2)])
  then have "bit (drop_bit (9 * (i + 1)) (drop_bit 3 w)) k = bit (drop_bit (9 * (i + 1)) (drop_bit 3 v)) k" for k
    by simp
  then have *: "bit w (k + (12 + 9 * i)) = bit v (k + (12 + 9 * i))" for k
    by (simp add: bit_drop_bit_eq ac_simps)
  have "fget (12 + 9 * j, 9) w = fget (12 + 9 * j, 9) v"
  proof (rule bit_eqI)
    fix k show "bit (fget (12 + 9 * j, 9) w) k = bit (fget (12 + 9 * j, 9) v) k"
      using * [of "9 * (j - i) + k"] assms(3) by (simp add: bit_fget diff_mult_distrib2 algebra_simps)
  qed
  then show ?thesis using assms(4) by (simp add: vpn_spec)
qed

lemma sv39_spec_same_page:
  assumes spec: "sv39_spec rd satp v = Some (pte, i)" and "sv39_canonical w"
    and tag: "GetTlbTag w (of_nat (i + 1)) = GetTlbTag v (of_nat (i + 1))"
  shows "sv39_spec rd satp w = Some (pte, i)"
proof -
  let ?a = "push_bit 12 (satp_get ''ppn'' satp)"
  from sv39_spec_level [OF spec] have i: "i < 3" by simp
  from spec have c: "satp_get ''mode'' satp = 8" and "spec_walk rd 2 v ?a = Some (pte, i)"
    by (auto simp: sv39_spec_def split: if_splits)
  then have "ref_walk rd [2, 1, 0] v ?a = Some (pte, of_nat (i + 1))" by (simp only: ref_walk_spec) simp
  then have "ref_walk rd [2, 1, 0] w ?a = Some (pte, of_nat (i + 1))"
    using same_tag_vpn [OF tag i] i by (elim ref_walk_same_page) auto
  then obtain k where k: "spec_walk rd 2 w ?a = Some (pte, k)" "of_nat (k + 1) = (of_nat (i + 1) :: u64)"
    by (auto simp only: ref_walk_spec map_option_eq_Some prod.case split_paired_Ex prod.inject)
  from spec_walk_level [OF k(1)] of_nat_small_eq [OF k(2)] i have "k = i" by auto
  with k c assms(2) show ?thesis by (simp add: sv39_spec_def)
qed

lemma fill_entry_same_page:
  "GetTlbTag w n = GetTlbTag v n \<Longrightarrow> fill_entry satp w pte n = fill_entry satp v pte n"
  by (simp add: fill_entry_def)

lemma coherent_fill:
  assumes "tlb_coherent satp s" and "sv39_spec (read_pte (sv39_bus s)) satp v = Some (pte, i)"
  shows "tlb_coherent satp (s\<lparr>sv39_tlb := (sv39_tlb s)[k := fill_entry satp v pte (of_nat (i + 1))], sv39_index := j\<rparr>)"
proof -
  let ?e = "fill_entry satp v pte (of_nat (i + 1))"
  have "\<exists>pte i. sv39_spec (read_pte (sv39_bus s)) satp w = Some (pte, i) \<and>
      ?e\<lparr>tlb_asid := satp_get ''asid'' satp\<rparr> = fill_entry satp w pte (of_nat (i + 1))"
    if "sv39_canonical w" "tlb_match satp w ?e" for w
  proof -
    from that(2) have tag: "GetTlbTag w (of_nat (i + 1)) = GetTlbTag v (of_nat (i + 1))"
      by (simp add: tlb_match_def fill_entry_def)
    have "?e\<lparr>tlb_asid := satp_get ''asid'' satp\<rparr> = ?e" by (simp add: fill_entry_def)
    with sv39_spec_same_page [OF assms(2) that(1) tag] fill_entry_same_page [OF tag] show ?thesis by metis
  qed
  then show ?thesis
    using assms(1) set_update_subset_insert [of "sv39_tlb s" k ?e] unfolding tlb_coherent_def by auto
qed

text \<open>
  What \<^verbatim>\<open>GetTlbEntry\<close> returns, from the TLB or from the tables, is what the manual's walk
  finds.
\<close>

definition entry_of :: "Sv39TlbEntry \<Rightarrow> u64 \<Rightarrow> u64 \<Rightarrow> nat \<Rightarrow> bool" where
  "entry_of e v pte i \<longleftrightarrow>
     MapVirtualAddress e v = take_bit 39 (spec_pa pte i v) \<and>
     (tlb_R e = bit pte 1) \<and> (tlb_W e = bit pte 2) \<and> (tlb_X e = bit pte 3) \<and> (tlb_U e = bit pte 4) \<and>
     (tlb_G e = bit pte 5) \<and> (tlb_A e = bit pte 6) \<and> (tlb_D e = bit pte 7)"

lemma fill_entry_of:
  assumes "i < 3" and "walk_entry i pte = WalkLeaf"
    and e: "e\<lparr>tlb_asid := x\<rparr> = fill_entry satp v pte (of_nat (i + 1))"
  shows "entry_of e v pte i"
proof -
  from e have f: "f (e\<lparr>tlb_asid := x\<rparr>) = f (fill_entry satp v pte (of_nat (i + 1)))" for f :: "_ \<Rightarrow> 'x" by simp
  have "tlb_ppn e = GetPpnByPageTableEntry pte" "tlb_page_size e = of_nat (i + 1)"
    using f [of tlb_ppn] f [of tlb_page_size] by (simp_all add: fill_entry_def)
  from MapVirtualAddress_spec [OF assms(1,2) this] show ?thesis
    using f [of tlb_R] f [of tlb_W] f [of tlb_X] f [of tlb_U] f [of tlb_G] f [of tlb_A] f [of tlb_D]
    by (simp add: entry_of_def fill_entry_def field_defs fget_bit_neq_0 [unfolded One_nat_def])
qed

lemma PageTableWalk_spec:
  assumes "bus_wf (sv39_bus s)" and "sv39_canonical v"
    and "tables_in_dram (sv39_bus s) [2, 1, 0] v (push_bit 12 (satp_get ''ppn'' satp))"
  shows "PageTableWalk s satp v =
    (map_option (\<lambda>(pte, k). (pte, of_nat (k + 1))) (sv39_spec (read_pte (sv39_bus s)) satp v), s)"
  using assms walk_levels_ref [OF assms(1,3)]
  by (simp only: PageTableWalk_def sv39_spec_def ref_walk_spec kSv39Mode_def) auto

lemma GetTlbEntry_spec:
  assumes inv: "sv39_inv safe sh s" and coh: "tlb_coherent satp s"
    and dram: "tables_in_dram (sv39_bus s) [2, 1, 0] v (push_bit 12 (satp_get ''ppn'' satp))"
  defines "spec \<equiv> sv39_spec (read_pte (sv39_bus s)) satp v"
  obtains r s' where "GetTlbEntry s satp v = (r, s')" and "tlb_coherent satp s'" and "sv39_bus s' = sv39_bus s"
    and "spec = None \<Longrightarrow> r = None"
    and "\<And>pte i. spec = Some (pte, i) \<Longrightarrow> \<exists>e. r = Some e \<and> entry_of e v pte i"
proof (cases "sv39_canonical v")
  case False
  then show ?thesis using coh by (intro that [of None s]) (simp_all add: GetTlbEntry_def spec_def sv39_spec_def)
next
  case can: True
  show ?thesis
  proof (cases "LookUpTlb s satp v")
    case (Some e)
    then have e: "e \<in> set (sv39_tlb s)" "tlb_match satp v e"
      by (auto simp: LookUpTlb_def find_Some_iff)
    with coh can obtain pte i where p: "spec = Some (pte, i)"
      "e\<lparr>tlb_asid := satp_get ''asid'' satp\<rparr> = fill_entry satp v pte (of_nat (i + 1))"
      unfolding tlb_coherent_def spec_def by blast
    from sv39_spec_level [OF p(1) [unfolded spec_def]] p(2) have "entry_of e v pte i"
      by (auto intro: fill_entry_of)
    then show ?thesis using p coh can Some
      by (intro that [of "Some e" "s\<lparr>sv39_cache_hit := sv39_cache_hit s + 1\<rparr>"])
        (simp_all add: GetTlbEntry_def tlb_coherent_def)
  next
    case None
    let ?s = "s\<lparr>sv39_cache_miss := sv39_cache_miss s + 1\<rparr>"
    have coh': "tlb_coherent satp ?s" using coh by (simp add: tlb_coherent_def)
    have walk: "PageTableWalk ?s satp v = (map_option (\<lambda>(pte, k). (pte, of_nat (k + 1))) spec, ?s)"
      using PageTableWalk_spec [of ?s v satp] inv can dram by (simp add: sv39_inv_def spec_def)
    show ?thesis
    proof (cases spec)
      case None
      with walk can \<open>LookUpTlb s satp v = None\<close> coh' show ?thesis
        by (intro that [of None ?s]) (simp_all add: GetTlbEntry_def)
    next
      case (Some x)
      then obtain pte i where p: "spec = Some (pte, i)" by (cases x) auto
      let ?e = "fill_entry satp v pte (of_nat (i + 1))"
      have "entry_of ?e v pte i" using sv39_spec_level [OF p [unfolded spec_def]]
        by (auto intro!: fill_entry_of [where x = "tlb_asid ?e"])
      moreover have "tlb_coherent satp (?s\<lparr>sv39_tlb := (sv39_tlb ?s)[sv39_index ?s := ?e],
          sv39_index := (sv39_index ?s + 1) mod kTlbSize\<rparr>)"
        using coherent_fill [OF coh', of v pte i] p by (simp add: spec_def)
      ultimately show ?thesis using walk can None p
        by (intro that [of "Some ?e" "?s\<lparr>sv39_tlb := (sv39_tlb ?s)[sv39_index ?s := ?e],
          sv39_index := (sv39_index ?s + 1) mod kTlbSize\<rparr>"]) (simp_all add: GetTlbEntry_def Let_def)
    qed
  qed
qed

section \<open>Properties\<close>


text \<open>A root table in main memory whose entry 2 maps the gigabyte at \<open>0x80000000\<close> to itself.\<close>

definition example_mem :: "u8 list" where
  "example_mem = replicate 16 0 @ [0xcf, 0, 0, 0x20, 0, 0, 0, 0]"

definition example_sv39 :: sv39 where
  "example_sv39 = Sv39 \<lparr>bus_device = [\<lparr>node_base = 0x80000000, node_size = 24,
     node_dev = DevDram \<lparr>dram_size = 24, dram_memory = example_mem\<rparr>\<rparr>]\<rparr>"

definition example_satp :: u64 where
  "example_satp = 0x8000000000080000"

lemma example_inv: "sv39_inv True (shape_of (sv39_bus example_sv39)) example_sv39"
  by (simp add: sv39_inv_def example_sv39_def Sv39_def const_defs bus_wf_def node_wf_def dram_wf_def
      example_mem_def bus_width_def bus_need_def)

lemma example_bus: "sv39_bus example_sv39 = \<lparr>bus_device = [\<lparr>node_base = 0x80000000, node_size = 24,
     node_dev = DevDram \<lparr>dram_size = 24, dram_memory = example_mem\<rparr>\<rparr>]\<rparr>"
  by (simp add: example_sv39_def Sv39_def)

lemma example_read: "Bus_Load (sv39_bus example_sv39) 0x80000010 8 =
    Done ([0xcf, 0, 0, 0x20, 0, 0, 0, 0], sv39_bus example_sv39)"
  unfolding example_bus example_mem_def by code_simp

lemma example_pte: "read_pte (sv39_bus example_sv39) 0x80000010 = Some 0x200000cf"
  unfolding read_pte_def example_read by simp

lemma example_satp_fields: "satp_get ''ppn'' example_satp = 0x80000" "satp_get ''mode'' example_satp = 8"
  unfolding field_defs example_satp_def by code_simp+

lemma example_dram:
  "tables_in_dram (sv39_bus example_sv39) [2, 1, 0] 0x80000010 (push_bit 12 (satp_get ''ppn'' example_satp))"
proof -
  have a: "push_bit 12 (0x80000 :: u64) + vpn 2 0x80000010 * 8 = 0x80000010"
    unfolding vpn_def field_defs by code_simp
  have d: "dram_at (sv39_bus example_sv39) 0x80000010"
    unfolding dram_at_def example_bus GetDeviceByRange_def by (simp add: node_holds_def)
  have "walk_entry 2 0x200000cf = WalkLeaf" unfolding walk_entry_def field_defs by code_simp
  with d show ?thesis by (simp only: tables_in_dram.simps example_satp_fields a example_pte) simp
qed

lemma example_spec: "sv39_spec (read_pte (sv39_bus example_sv39)) example_satp 0x80000010 = Some (0x200000cf, 2)"
proof -
  have a: "push_bit 12 (0x80000 :: u64) + fget (12 + 9 * 2, 9) 0x80000010 * 8 = 0x80000010" by code_simp
  have c: "sv39_canonical 0x80000010" by (simp add: sv39_canonical_def)
  have l: "bit (0x200000cf :: u64) 0" "bit (0x200000cf :: u64) 1" "fget (54, 9) (0x200000cf :: u64) = 0"
    "take_bit (9 * 2) (pte_ppn 0x200000cf) = 0" by code_simp+
  show ?thesis
    by (simp only: sv39_spec_def example_satp_fields c spec_walk.simps [of _ 2] a example_pte l option.case simp_thms if_True if_False)
qed

lemma example_coherent: "tlb_coherent satp example_sv39"
  by (simp add: example_sv39_def coherent_init)


lemma phys_load_ok:
  assumes "trap_type (fst (phys_load s a n t)) = kNone" and "trap_type t \<noteq> kNone"
  shows "\<exists>b'. Bus_Load (sv39_bus s) a n = Done (fst (snd (phys_load s a n t)), b')"
  using assms by (auto simp: phys_load_def Sv39_Load_def split: io.splits prod.splits)

lemma phys_store_ok:
  assumes "trap_type (fst (phys_store s a n buf t)) = kNone" and "trap_type t \<noteq> kNone"
  shows "Bus_Store (sv39_bus s) a n buf = Done (sv39_bus (snd (phys_store s a n buf t)))"
  using assms by (auto simp: phys_store_def Sv39_Store_def split: io.splits)


definition example_state :: State where
  "example_state = State_Write kCsrSatp example_satp State_init"

lemma example_state_satp: "example_satp = State_Read example_state kCsrSatp"
proof -
  have "fget (60, 4) example_satp = 8" using example_satp_fields(2) unfolding field_defs .
  then show ?thesis
    unfolding example_state_def State_Write_satp by (simp add: State_Read_def const_defs)
qed


text \<open>Fences take effect: after a flush of an address no lookup of that address hits; after a
  flush of everything no lookup hits at all and the TLB is coherent with any page tables.\<close>

theorem tlb_flush:
  "LookUpTlb (Sv39_FlushTlb v 0 s) satp v = None \<and> LookUpTlb (Sv39_FlushTlb 0 0 s) satp w = None \<and>
   tlb_coherent satp (Sv39_FlushTlb 0 0 s)"
  by (simp add: flush_page_miss flush_all_miss coherent_flush)

end
