(* ===== verification/Exec_Lemmas.thy ===== *)
theory Exec_Lemmas
  imports Executor Mmu_Lemmas Decode_Lemmas
begin

text \<open>
  What holds of every instruction: the access size a decoded instruction carries is the one of
  its token, the members the decoder leaves uninitialised are never used, every instruction
  keeps the invariant of the registers and of the memory system, and the instructions of the
  integer classes never raise an illegal-instruction trap once decoded.
\<close>

section \<open>The access size\<close>

definition word_amos :: "InstToken set" where
  "word_amos = {I_LR_W, I_SC_W, I_AMOSWAP_W, I_AMOADD_W, I_AMOXOR_W, I_AMOAND_W, I_AMOOR_W, I_AMOMIN_W,
     I_AMOMAX_W, I_AMOMINU_W, I_AMOMAXU_W}"

definition token_size :: "InstToken \<Rightarrow> u8" where
  "token_size t = (if t \<in> word_amos then 4 else case kAccessMemBytes t of Some n \<Rightarrow> n | None \<Rightarrow> 8)"

lemma token_size_values: "token_size t \<in> {0, 1, 2, 4, 8}"
  by (simp add: token_size_def kAccessMemBytes_def)

lemma amo_rows:
  "list_all (\<lambda>d. desc_opcode d = 0x2f \<longrightarrow>
     desc_mask d AND 0x7000 = 0x7000 \<and>
     push_bit (unat (fget (12, 3) (desc_signature d))) 1 = token_size (desc_token d) \<and>
     token_size (desc_token d) \<noteq> 0) kInstTable"
  by (simp add: kInstTable_defs desc_opcode_def token_size_def word_amos_def kAccessMemBytes_def
      fget_def unsigned_take_bit_eq)

lemma ls_rows:
  "list_all (\<lambda>d. desc_opcode d = 0x03 \<or> desc_opcode d = 0x23 \<longrightarrow>
     kAccessMemBytes (desc_token d) = Some (token_size (desc_token d)) \<and> token_size (desc_token d) \<noteq> 0) kInstTable"
  by (simp add: kInstTable_defs desc_opcode_def token_size_def word_amos_def kAccessMemBytes_def)

lemma ucast_opcode:
  assumes "x AND 0x7f = (x :: u32)"
  shows "ucast (ucast x :: u8) = x"
proof -
  have "take_bit 7 x = x" using assms by (simp add: take_bit_eq_mask mask_numeral)
  then have "bit x k \<Longrightarrow> k < 7" for k by (metis bit_take_bit_iff)
  then show ?thesis by (intro bit_eqI) (fastforce simp: bit_simps)
qed

lemma row_opcode:
  assumes "d \<in> set kInstTable" and "token_op (desc_token d) = ucast (k :: u32)" and "k AND 0x7f = k"
  shows "desc_opcode d = k"
proof -
  from assms(1,2) table_op have "ucast (desc_opcode d) = (ucast k :: u8)" by (auto simp: list_all_iff)
  moreover have "desc_opcode d AND 0x7f = desc_opcode d" by (simp add: desc_opcode_def and.assoc)
  ultimately show ?thesis using assms(3) by (metis ucast_opcode)
qed

lemma fget_by_mask:
  assumes "w AND m = (s :: u32)" and "push_bit p (mask n) AND NOT m = 0"
  shows "fget (p, n) w = fget (p, n) s"
proof (rule bit_eqI)
  fix i
  have *: "bit m j" if "bit (push_bit p (mask n) :: u32) j" for j using subset_bit [OF assms(2) that] .
  have "bit s (p + i) = bit w (p + i)" if "i < n" "p + i < 32"
    using * [of "p + i"] that by (auto simp flip: assms(1) simp: bit_simps)
  then show "bit (fget (p, n) w) i = bit (fget (p, n) s) i" by (auto simp: bit_fget)
qed

lemma decoded_size:
  assumes "GetToken w \<noteq> I_UNKNOWN" and "token_op (GetToken w) \<in> {kLoad, kStore, kAmo}"
  shows "decode_mem_size m w = token_size (GetToken w) \<and> token_size (GetToken w) \<noteq> 0"
proof (rule GetToken_cases [of w])
  fix d assume d: "d \<in> set kInstTable" "matches d w" "GetToken w = desc_token d"
  have op: "ucast (fget (field_of RTypeDesc ''opcode'') w) = token_op (GetToken w)"
    using GetToken_op [OF assms(1)] by (simp add: field_defs)
  have dist: "kAmo \<noteq> kLoad" "kAmo \<noteq> kStore" by (simp_all add: const_defs)
  show ?thesis
  proof (cases "token_op (GetToken w) = kAmo")
    case True
    with d have "desc_opcode d = 0x2f" by (intro row_opcode) (simp_all add: const_defs)
    with d amo_rows have m: "desc_mask d AND 0x7000 = 0x7000"
      and s: "push_bit (unat (fget (12, 3) (desc_signature d))) 1 = token_size (desc_token d)"
      and nz: "token_size (desc_token d) \<noteq> 0"
      by (auto simp: list_all_iff)
    have "(0x7000 :: u32) AND NOT (desc_mask d) = 0"
      by (subst m [symmetric]) (rule bit_eqI, auto simp: bit_simps)
    then have "push_bit 12 (mask 3) AND NOT (desc_mask d) = 0" by (simp add: mask_numeral)
    with d(2) have "fget (12, 3) w = fget (12, 3) (desc_signature d)"
      unfolding matches_def by (rule fget_by_mask)
    with s True nz show ?thesis
      unfolding decode_mem_size_def op Let_def by (simp add: field_defs d(3))
  next
    case False
    with assms(2) have ls: "token_op (GetToken w) \<in> {kLoad, kStore}" by auto
    with d have "desc_opcode d = 0x03 \<or> desc_opcode d = 0x23"
      using row_opcode [of d "0x03"] row_opcode [of d "0x23"] by (auto simp: const_defs)
    with d ls_rows have k: "kAccessMemBytes (GetToken w) = Some (token_size (GetToken w)) \<and> token_size (GetToken w) \<noteq> 0"
      by (auto simp: list_all_iff)
    with ls False show ?thesis unfolding decode_mem_size_def op Let_def by auto
  qed
qed (use assms in simp)

lemma decoded_size_bound:
  assumes "GetToken w \<noteq> I_UNKNOWN" and "token_op (GetToken w) \<in> {kLoad, kStore, kAmo}"
  shows "unat (ucast (decode_mem_size m w) :: u64) \<le> 8"
  using decoded_size [OF assms, of m] token_size_values [of "GetToken w"] by auto

section \<open>Uninitialised members\<close>

lemma members_unused:
  "word (info\<lparr>imm := j\<rparr>) = word info"
  "op (info\<lparr>imm := j\<rparr>) = op info"
  "rd (info\<lparr>imm := j\<rparr>) = rd info"
  "rs1 (info\<lparr>imm := j\<rparr>) = rs1 info"
  "rs2 (info\<lparr>imm := j\<rparr>) = rs2 info"
  "pc (info\<lparr>imm := j\<rparr>) = pc info"
  "token (info\<lparr>imm := j\<rparr>) = token info"
  "inst_size (info\<lparr>imm := j\<rparr>) = inst_size info"
  "mem_size (info\<lparr>imm := j\<rparr>) = mem_size info"
  "word (info\<lparr>mem_size := m\<rparr>) = word info"
  "op (info\<lparr>mem_size := m\<rparr>) = op info"
  "rd (info\<lparr>mem_size := m\<rparr>) = rd info"
  "rs1 (info\<lparr>mem_size := m\<rparr>) = rs1 info"
  "rs2 (info\<lparr>mem_size := m\<rparr>) = rs2 info"
  "pc (info\<lparr>mem_size := m\<rparr>) = pc info"
  "token (info\<lparr>mem_size := m\<rparr>) = token info"
  "inst_size (info\<lparr>mem_size := m\<rparr>) = inst_size info"
  "imm (info\<lparr>mem_size := m\<rparr>) = imm info"
  by simp_all

lemma alu_unused [simp]:
  "RegTypeExec (info\<lparr>imm := j, mem_size := m\<rparr>) = RegTypeExec info"
  "Rv32TypeExec (info\<lparr>imm := j, mem_size := m\<rparr>) = Rv32TypeExec info"
  "ImmTypeExec (info\<lparr>mem_size := m\<rparr>) = ImmTypeExec info"
  "Imm32TypeExec (info\<lparr>mem_size := m\<rparr>) = Imm32TypeExec info"
  "LuiTypeExec (info\<lparr>mem_size := m\<rparr>) = LuiTypeExec info"
  "AuipcTypeExec (info\<lparr>mem_size := m\<rparr>) = AuipcTypeExec info"
  "FenceTypeExec (info\<lparr>imm := j, mem_size := m\<rparr>) = FenceTypeExec info"
  unfolding fun_eq_iff RegTypeExec_def Rv32TypeExec_def ImmTypeExec_def Imm32TypeExec_def LuiTypeExec_def
      AuipcTypeExec_def FenceTypeExec_def write_back_def members_unused by simp_all

lemma jump_unused [simp]:
  "JalTypeExec env (info\<lparr>mem_size := m\<rparr>) = JalTypeExec env info"
  "JalrTypeExec env (info\<lparr>mem_size := m\<rparr>) = JalrTypeExec env info"
  "BranchTypeExec env (info\<lparr>mem_size := m\<rparr>) = BranchTypeExec env info"
  unfolding fun_eq_iff JalTypeExec_def JalrTypeExec_def BranchTypeExec_def members_unused by simp_all

lemma system_unused [simp]: "SystemTypeExec env (info\<lparr>mem_size := m\<rparr>) = SystemTypeExec env info"
  unfolding fun_eq_iff SystemTypeExec_def CsrTypeExec_def ECallExec_def SfenceVmaExec_def MRetExec_def
    SRetExec_def members_unused by simp

lemma system_imm_unused:
  "token info \<notin> {I_CSRRW, I_CSRRS, I_CSRRC, I_CSRRWI, I_CSRRSI, I_CSRRCI} \<Longrightarrow>
   SystemTypeExec env (info\<lparr>imm := j\<rparr>) = SystemTypeExec env info"
  unfolding fun_eq_iff SystemTypeExec_def ECallExec_def SfenceVmaExec_def MRetExec_def SRetExec_def
    members_unused by simp

lemma amo_unused [simp]: "AmoTypeExec (info\<lparr>imm := j\<rparr>) = AmoTypeExec info"
  unfolding fun_eq_iff AmoTypeExec_def AmoLrExec_def AmoScExec_def members_unused by simp

lemma Exec_op:
  "op info = kReg \<Longrightarrow> Exec env info c = RegTypeExec info c"
  "op info = kImm \<Longrightarrow> Exec env info c = ImmTypeExec info c"
  "op info = kLui \<Longrightarrow> Exec env info c = LuiTypeExec info c"
  "op info = kBranch \<Longrightarrow> Exec env info c = BranchTypeExec env info c"
  "op info = kStore \<Longrightarrow> Exec env info c = StoreTypeExec info c"
  "op info = kLoad \<Longrightarrow> Exec env info c = LoadTypeExec info c"
  "op info = kSystem \<Longrightarrow> Exec env info c = SystemTypeExec env info c"
  "op info = kAuipc \<Longrightarrow> Exec env info c = AuipcTypeExec info c"
  "op info = kJal \<Longrightarrow> Exec env info c = JalTypeExec env info c"
  "op info = kJalr \<Longrightarrow> Exec env info c = JalrTypeExec env info c"
  "op info = kImm32 \<Longrightarrow> Exec env info c = Imm32TypeExec info c"
  "op info = kRv32 \<Longrightarrow> Exec env info c = Rv32TypeExec info c"
  "op info = kFence \<Longrightarrow> Exec env info c = FenceTypeExec info c"
  "op info = kAmo \<Longrightarrow> Exec env info c = AmoTypeExec info c"
  by (simp_all add: Exec_def const_defs)

lemma token_op_cases:
  assumes "t \<noteq> I_UNKNOWN"
  shows "token_op t \<in> {kReg, kImm, kLui, kBranch, kStore, kLoad, kSystem, kAuipc, kJal, kJalr, kImm32,
    kRv32, kFence, kAmo}"
  using assms unfolding token_op_def by simp

lemma DecodeInfo_indet:
  "DecodeInfo_ctor j' m' w a =
     (DecodeInfo_ctor j m w a)\<lparr>imm := decode_imm j' w, mem_size := decode_mem_size m' w\<rparr>"
  by (simp add: DecodeInfo_ctor_def)

lemma decode_imm_fixed:
  assumes "ucast (fget (field_of RTypeDesc ''opcode'') w) \<in>
      {kImm, kLui, kBranch, kStore, kLoad, kAuipc, kJal, kJalr, kImm32} \<or>
    ucast (fget (field_of RTypeDesc ''opcode'') w) = kSystem \<and>
      GetToken w \<in> {I_CSRRW, I_CSRRS, I_CSRRC, I_CSRRWI, I_CSRRSI, I_CSRRCI}"
  shows "decode_imm j w = decode_imm j' w"
  using assms by (auto simp: decode_imm_def Let_def)

text \<open>
  What a decoded instruction does never depends on the members its constructor leaves unset.
\<close>

lemma decoded_op: "GetToken w \<noteq> I_UNKNOWN \<Longrightarrow> op (DecodeInfo_ctor j m w a) = token_op (GetToken w)"
  using DecodeInfo_op [of w j m a] by (simp add: DecodeInfo_ctor_def)

lemma decode_size_set:
  "GetToken w \<noteq> I_UNKNOWN \<Longrightarrow> token_op (GetToken w) \<in> {kLoad, kStore, kAmo} \<Longrightarrow>
   DecodeInfo_ctor j' m' w a = (DecodeInfo_ctor j m w a)\<lparr>imm := decode_imm j' w\<rparr>"
  using decoded_size [of w m] decoded_size [of w m'] by (simp add: DecodeInfo_ctor_def)

lemma decode_imm_set:
  assumes "GetToken w \<noteq> I_UNKNOWN"
    and "token_op (GetToken w) \<in> {kImm, kLui, kBranch, kStore, kLoad, kAuipc, kJal, kJalr, kImm32} \<or>
      token_op (GetToken w) = kSystem \<and> GetToken w \<in> {I_CSRRW, I_CSRRS, I_CSRRC, I_CSRRWI, I_CSRRSI, I_CSRRCI}"
  shows "DecodeInfo_ctor j' m' w a = (DecodeInfo_ctor j m w a)\<lparr>mem_size := decode_mem_size m' w\<rparr>"
proof -
  have "ucast (fget (field_of RTypeDesc ''opcode'') w) = token_op (GetToken w)"
    using decoded_op [OF assms(1), of j m a] by (simp add: DecodeInfo_ctor_def)
  with assms(2) have "decode_imm j w = decode_imm j' w" by (intro decode_imm_fixed) simp
  then show ?thesis by (simp add: DecodeInfo_ctor_def)
qed

lemma Exec_system_indet:
  assumes "GetToken w \<noteq> I_UNKNOWN" and sys: "token_op (GetToken w) = kSystem"
  shows "Exec env (DecodeInfo_ctor j' m' w a) c = Exec env (DecodeInfo_ctor j m w a) c"
proof (cases "GetToken w \<in> {I_CSRRW, I_CSRRS, I_CSRRC, I_CSRRWI, I_CSRRSI, I_CSRRCI}")
  case True
  with decode_imm_set [OF assms(1), of j' m' a j m] sys decoded_op [OF assms(1), of j m a] show ?thesis
    by (simp add: Exec_op(7))
next
  case False
  then have "token (DecodeInfo_ctor j m w a) \<notin> {I_CSRRW, I_CSRRS, I_CSRRC, I_CSRRWI, I_CSRRSI, I_CSRRCI}"
    by (simp add: DecodeInfo_ctor_def)
  with sys decoded_op [OF assms(1)] show ?thesis
    by (simp add: Exec_op(7) DecodeInfo_indet [of j' m' w a j m] system_imm_unused)
qed

lemma Exec_indet:
  assumes "GetToken w \<noteq> I_UNKNOWN"
  shows "Exec env (DecodeInfo_ctor j' m' w a) c = Exec env (DecodeInfo_ctor j m w a) c"
proof -
  let ?i = "DecodeInfo_ctor j m w a" and ?i' = "DecodeInfo_ctor j' m' w a"
  note op = decoded_op [OF assms]
  note size = decode_size_set [OF assms, of j' m' a j m] and fixed = decode_imm_set [OF assms, of j' m' a j m]
  consider "token_op (GetToken w) = kAmo" | "token_op (GetToken w) \<in> {kLoad, kStore}"
    | "token_op (GetToken w) \<in> {kReg, kRv32, kFence}"
    | "token_op (GetToken w) \<in> {kImm, kLui, kBranch, kAuipc, kJal, kJalr, kImm32}"
    | "token_op (GetToken w) = kSystem"
    using token_op_cases [OF assms] by auto
  then show ?thesis
  proof cases
    case 1
    with size op show ?thesis by (simp add: Exec_op(14))
  next
    case 2
    with size fixed have "?i' = ?i" by (auto simp: DecodeInfo_ctor_def)
    then show ?thesis by simp
  next
    case 3
    then show ?thesis using op by (auto simp: Exec_op(1,12,13) DecodeInfo_indet [of j' m' w a j m])
  next
    case 4
    with fixed have "?i' = ?i\<lparr>mem_size := decode_mem_size m' w\<rparr>" by auto
    with 4 op show ?thesis by (auto simp: Exec_op(2-4,8-11))
  next
    case 5
    then show ?thesis by (rule Exec_system_indet [OF assms])
  qed
qed

section \<open>Invariant\<close>

lemma snd_if: "snd (if b then x else y) = (if b then snd x else snd y)"
  by simp

definition cpu_inv :: "bool \<Rightarrow> bus_shape \<Rightarrow> cpu \<Rightarrow> bool" where
  "cpu_inv safe sh c \<longleftrightarrow> csr_wf (cpu_state c) \<and> sv39_inv safe sh (cpu_mmu c)"

lemma cpu_inv_simps [simp]:
  "cpu_inv safe sh (c\<lparr>cpu_pc := p\<rparr>) = cpu_inv safe sh c"
  "cpu_inv safe sh (c\<lparr>cpu_xregs := x\<rparr>) = cpu_inv safe sh c"
  "cpu_inv safe sh (c\<lparr>cpu_priv_mode := m\<rparr>) = cpu_inv safe sh c"
  "cpu_inv safe sh (c\<lparr>cpu_instret := n\<rparr>) = cpu_inv safe sh c"
  "cpu_inv safe sh (c\<lparr>cpu_reservation := r\<rparr>) = cpu_inv safe sh c"
  "cpu_inv safe sh (c\<lparr>cpu_state := SetWfi b s\<rparr>) = cpu_inv safe sh (c\<lparr>cpu_state := s\<rparr>)"
  by (simp_all add: cpu_inv_def)

lemma cpu_inv_Write [simp]:
  "cpu_inv safe sh (c\<lparr>cpu_state := s\<rparr>) \<Longrightarrow> cpu_inv safe sh (c\<lparr>cpu_state := State_Write a v s\<rparr>)"
  by (simp add: cpu_inv_def csr_wf_Write)

lemma CPU_Load_frame:
  assumes "CPU_Load c a n = (t, bs, c')"
  obtains m where "c' = c\<lparr>cpu_mmu := m\<rparr>"
  using assms by (auto simp: CPU_Load_def split: prod.splits)

lemma CPU_Store_frame:
  assumes "CPU_Store c a n buf = (t, c')"
  obtains m where "c' = c\<lparr>cpu_mmu := m\<rparr>"
  using assms by (auto simp: CPU_Store_def split: prod.splits)

lemma CPU_Fetch_frame:
  assumes "CPU_Fetch c a n = (t, bs, c')"
  obtains m where "c' = c\<lparr>cpu_mmu := m\<rparr>"
  using assms by (auto simp: CPU_Fetch_def split: prod.splits)

lemma cpu_inv_Load:
  "CPU_Load c a n = (t, bs, c') \<Longrightarrow> cpu_inv safe sh c \<Longrightarrow> unat n \<le> 8 \<Longrightarrow> cpu_inv safe sh c'"
  using sv39_inv_Mmu_Load [of safe sh "cpu_mmu c" n "cpu_priv_mode c" "cpu_state c" a]
  by (auto simp: CPU_Load_def cpu_inv_def split: prod.splits)

lemma cpu_inv_Store:
  "CPU_Store c a n buf = (t, c') \<Longrightarrow> cpu_inv safe sh c \<Longrightarrow> unat n \<le> 8 \<Longrightarrow> length buf = 8 \<Longrightarrow> cpu_inv safe sh c'"
  using sv39_inv_Mmu_Store [of safe sh "cpu_mmu c" n buf "cpu_priv_mode c" "cpu_state c" a]
  by (auto simp: CPU_Store_def cpu_inv_def split: prod.splits)

lemma cpu_inv_Fetch:
  "CPU_Fetch c a n = (t, bs, c') \<Longrightarrow> cpu_inv safe sh c \<Longrightarrow> unat n \<le> 8 \<Longrightarrow> cpu_inv safe sh c'"
  using sv39_inv_Mmu_Fetch [of safe sh "cpu_mmu c" n "cpu_priv_mode c" "cpu_state c" a]
  by (auto simp: CPU_Fetch_def cpu_inv_def split: prod.splits)

lemma cpu_inv_write_back: "cpu_inv safe sh c \<Longrightarrow> cpu_inv safe sh (snd (write_back info r c))"
  by (simp add: write_back_def split: option.splits)

lemma cpu_inv_alu:
  assumes "cpu_inv safe sh c"
  shows "cpu_inv safe sh (snd (RegTypeExec info c))" "cpu_inv safe sh (snd (Rv32TypeExec info c))"
    "cpu_inv safe sh (snd (ImmTypeExec info c))" "cpu_inv safe sh (snd (Imm32TypeExec info c))"
    "cpu_inv safe sh (snd (LuiTypeExec info c))" "cpu_inv safe sh (snd (AuipcTypeExec info c))"
    "cpu_inv safe sh (snd (FenceTypeExec info c))"
  using assms
  by (simp_all add: RegTypeExec_def Rv32TypeExec_def ImmTypeExec_def Imm32TypeExec_def LuiTypeExec_def
      AuipcTypeExec_def FenceTypeExec_def cpu_inv_write_back)

lemma cpu_inv_jump:
  assumes "cpu_inv safe sh c"
  shows "cpu_inv safe sh (snd (JalTypeExec env info c))" "cpu_inv safe sh (snd (JalrTypeExec env info c))"
    "cpu_inv safe sh (snd (BranchTypeExec env info c))"
  using assms
  by (simp_all add: JalTypeExec_def JalrTypeExec_def BranchTypeExec_def check_misalign_instr_def Let_def
      split: option.splits)

lemma cpu_inv_LoadTypeExec:
  assumes "cpu_inv safe sh c" and "unat (ucast (mem_size info) :: u64) \<le> 8"
  shows "cpu_inv safe sh (snd (LoadTypeExec info c))"
proof -
  obtain t bs c1 where l: "CPU_Load c (xreg c (rs1 info) + scast (imm info)) (ucast (mem_size info)) = (t, bs, c1)"
    by (rule prod_cases3)
  from cpu_inv_Load [OF l assms] show ?thesis
    by (simp add: LoadTypeExec_def l cpu_inv_write_back)
qed

lemma cpu_inv_StoreTypeExec:
  assumes "cpu_inv safe sh c" and "unat (ucast (mem_size info) :: u64) \<le> 8"
  shows "cpu_inv safe sh (snd (StoreTypeExec info c))"
proof -
  obtain t c1 where s: "CPU_Store c (xreg c (rs1 info) + scast (imm info)) (ucast (mem_size info))
      (le_bytes 8 (xreg c (rs2 info))) = (t, c1)" by fastforce
  from cpu_inv_Store [OF s assms] show ?thesis by (simp add: StoreTypeExec_def s)
qed

lemma cpu_inv_CsrTypeExec: "cpu_inv safe sh c \<Longrightarrow> cpu_inv safe sh (snd (CsrTypeExec env info c))"
  by (auto simp: CsrTypeExec_def Let_def cpu_inv_def csr_wf_Write split: option.splits)

lemma cpu_inv_ret:
  assumes "cpu_inv safe sh c"
  shows "cpu_inv safe sh (snd (MRetExec info c))" "cpu_inv safe sh (snd (SRetExec info c))"
  using assms unfolding MRetExec_def SRetExec_def Let_def snd_if by (simp_all add: cpu_inv_def csr_wf_Write)

lemma cpu_inv_SystemTypeExec:
  assumes "cpu_inv safe sh c"
  shows "cpu_inv safe sh (snd (SystemTypeExec env info c))"
proof -
  have "cpu_inv safe sh (snd (SfenceVmaExec info c))"
    using assms by (simp add: SfenceVmaExec_def CPU_FlushTlb_def cpu_inv_def sv39_inv_FlushTlb)
  moreover have "cpu_inv safe sh (c\<lparr>cpu_state := SetWfi True (cpu_state c)\<rparr>)" using assms by simp
  ultimately show ?thesis using assms
    unfolding SystemTypeExec_def ECallExec_def by (simp only: snd_if cpu_inv_CsrTypeExec cpu_inv_ret snd_conv if_cancel split: if_split) simp
qed

lemma cpu_inv_AmoTypeExec:
  assumes inv: "cpu_inv safe sh c" and size: "unat (ucast (mem_size info) :: u64) \<le> 8"
  shows "cpu_inv safe sh (snd (AmoTypeExec info c))"
proof -
  have lr: "cpu_inv safe sh (snd (AmoLrExec info c))"
    using inv size by (auto simp: AmoLrExec_def Let_def split: prod.splits dest!: cpu_inv_Load)
  have sc: "cpu_inv safe sh (snd (AmoScExec info c))"
    using inv size by (auto simp: AmoScExec_def Let_def split: prod.splits dest!: cpu_inv_Store)
  obtain t bs c1 where l: "CPU_Load c (xreg c (rs1 info)) (ucast (mem_size info)) = (t, bs, c1)"
    by (rule prod_cases3)
  note c1 = cpu_inv_Load [OF l inv size]
  have "cpu_inv safe sh c2" if "CPU_Store c1 (xreg c (rs1 info)) (ucast (mem_size info)) (le_bytes 8 v) = (t', c2)" for v t' c2
    using cpu_inv_Store [OF that c1 size] by simp
  with c1 inv lr sc show ?thesis
    by (auto simp: AmoTypeExec_def Let_def l split: prod.splits option.splits)
qed

text \<open>Every decoded instruction keeps the invariant.\<close>

lemma cpu_inv_Exec:
  assumes "cpu_inv safe sh c" and "GetToken w \<noteq> I_UNKNOWN"
  shows "cpu_inv safe sh (snd (Exec env (DecodeInfo_ctor j m w a) c))"
proof -
  let ?i = "DecodeInfo_ctor j m w a"
  have op: "op ?i = token_op (GetToken w)"
    using DecodeInfo_op [OF assms(2), of j m a] by (simp add: DecodeInfo_ctor_def)
  have size: "token_op (GetToken w) \<in> {kLoad, kStore, kAmo} \<Longrightarrow> unat (ucast (mem_size ?i) :: u64) \<le> 8"
    using decoded_size_bound [OF assms(2)] by (simp add: DecodeInfo_ctor_def)
  note ops = Exec_op [where info = ?i and env = env and c = c, unfolded op]
  from token_op_cases [OF assms(2)] show ?thesis
    by (elim insertE emptyE; simp only: ops)
      (use assms(1) size in \<open>simp_all add: cpu_inv_alu cpu_inv_jump cpu_inv_LoadTypeExec cpu_inv_StoreTypeExec
        cpu_inv_SystemTypeExec cpu_inv_AmoTypeExec\<close>)
qed

end
