(* ===== verification/Exec_Props.thy ===== *)
theory Exec_Props
  imports Exec_Lemmas
begin

text \<open>
  Properties of single instructions: which ones can trap, that none raises the privilege mode,
  and what the memory instructions (load/store, load-reserved/store-conditional and the
  read-modify-write atomics) do to main memory.
\<close>

section \<open>Traps of the integer instructions\<close>

lemma token_op_reg: "token_op t = kReg \<Longrightarrow> t \<in> {I_ADD, I_SUB, I_SLL, I_SLT, I_SLTU, I_XOR, I_SRL, I_SRA,
    I_OR, I_AND, I_MUL, I_MULH, I_MULHSU, I_MULHU, I_DIV, I_DIVU, I_REM, I_REMU}"
  unfolding token_op_def const_defs by (simp split: if_split_asm del: insert_iff)

lemma token_op_imm: "token_op t = kImm \<Longrightarrow>
    t \<in> {I_ADDI, I_SLTI, I_SLTIU, I_XORI, I_ORI, I_ANDI, I_SLLI, I_SRLI, I_SRAI}"
  unfolding token_op_def const_defs by (simp split: if_split_asm del: insert_iff)

lemma token_op_imm32: "token_op t = kImm32 \<Longrightarrow> t \<in> {I_ADDIW, I_SLLIW, I_SRLIW, I_SRAIW}"
  unfolding token_op_def const_defs by (simp split: if_split_asm del: insert_iff)

lemma token_op_rv32: "token_op t = kRv32 \<Longrightarrow> t \<in> {I_ADDW, I_SUBW, I_SLLW, I_SRLW, I_SRAW, I_MULW,
    I_DIVW, I_DIVUW, I_REMW, I_REMUW}"
  unfolding token_op_def const_defs by (simp split: if_split_asm del: insert_iff)

lemma token_op_branch: "token_op t = kBranch \<Longrightarrow> t \<in> {I_BEQ, I_BNE, I_BLT, I_BGE, I_BLTU, I_BGEU}"
  unfolding token_op_def const_defs by (simp split: if_split_asm del: insert_iff)

lemma token_op_load: "token_op t = kLoad \<Longrightarrow> t \<in> {I_LB, I_LH, I_LW, I_LBU, I_LHU, I_LWU, I_LD}"
  unfolding token_op_def const_defs by (simp split: if_split_asm del: insert_iff)

lemma vals_defined:
  "token_op t = kReg \<Longrightarrow> \<exists>v. reg_val t a b = Some v"
  "token_op t = kImm \<Longrightarrow> \<exists>v. imm_val t a i = Some v"
  "token_op t = kImm32 \<Longrightarrow> \<exists>v. imm32_val t w i = Some v"
  "token_op t = kRv32 \<Longrightarrow> \<exists>v. rv32_val t w x = Some v"
  "token_op t = kBranch \<Longrightarrow> \<exists>k. branch_taken t a b = Some k"
  "token_op t = kLoad \<Longrightarrow> \<exists>v. load_val t a = Some v"
proof -
  show "\<exists>v. reg_val t a b = Some v" if "token_op t = kReg"
    using token_op_reg [OF that] by (elim insertE emptyE) (simp_all add: reg_val_def Let_def)
  show "\<exists>v. imm_val t a i = Some v" if "token_op t = kImm"
    using token_op_imm [OF that] by (elim insertE emptyE) (simp_all add: imm_val_def)
  show "\<exists>v. imm32_val t w i = Some v" if "token_op t = kImm32"
    using token_op_imm32 [OF that] by (elim insertE emptyE) (simp_all add: imm32_val_def)
  show "\<exists>v. rv32_val t w x = Some v" if "token_op t = kRv32"
    using token_op_rv32 [OF that] by (elim insertE emptyE) (simp_all add: rv32_val_def)
  show "\<exists>k. branch_taken t a b = Some k" if "token_op t = kBranch"
    using token_op_branch [OF that] by (elim insertE emptyE) (simp_all add: branch_taken_def)
  show "\<exists>v. load_val t a = Some v" if "token_op t = kLoad"
    using token_op_load [OF that] by (elim insertE emptyE) (simp_all add: load_val_def)
qed

lemma write_back_Some: "r = Some v \<Longrightarrow> write_back info r c = (kNoneTrap, set_xreg (rd info) v c)"
  by (simp add: write_back_def)

definition same_but :: "u8 \<Rightarrow> cpu \<Rightarrow> cpu \<Rightarrow> bool" where
  "same_but r c c' \<longleftrightarrow>
     (\<forall>k. k \<noteq> r \<longrightarrow> xreg c' k = xreg c k) \<and> cpu_mmu c' = cpu_mmu c \<and> cpu_state c' = cpu_state c \<and>
     cpu_priv_mode c' = cpu_priv_mode c \<and> cpu_reservation c' = cpu_reservation c \<and>
     cpu_instret c' = cpu_instret c \<and> cpu_hart_id c' = cpu_hart_id c"

lemma alu_effect:
  assumes "op info = token_op (token info)" and "op info \<in> {kReg, kImm, kImm32, kRv32, kLui, kAuipc, kFence}"
  shows "\<exists>c'. Exec env info c = (kNoneTrap, c') \<and> same_but (rd info) c c' \<and> cpu_pc c' = cpu_pc c"
proof -
  note vals = vals_defined [of "token info", folded assms(1)]
  consider v where "Exec env info c = (kNoneTrap, set_xreg (rd info) v c)" | "Exec env info c = (kNoneTrap, c)"
    using assms(2)
  proof (elim insertE emptyE, goal_cases)
    case 1
    then show ?case using vals(1) by (metis Exec_op(1) RegTypeExec_def write_back_Some)
  next
    case 2
    then show ?case using vals(2) by (metis Exec_op(2) ImmTypeExec_def write_back_Some)
  next
    case 3
    then show ?case using vals(3) by (metis Exec_op(11) Imm32TypeExec_def write_back_Some)
  next
    case 4
    then show ?case using vals(4) by (metis Exec_op(12) Rv32TypeExec_def write_back_Some)
  next
    case 5
    then show ?case by (metis Exec_op(3) LuiTypeExec_def)
  next
    case 6
    then show ?case by (metis Exec_op(8) AuipcTypeExec_def)
  next
    case 7
    then show ?case by (metis Exec_op(13) FenceTypeExec_def)
  qed
  then show ?thesis by cases (auto simp: same_but_def)
qed

lemma jump_effect:
  assumes "op info = token_op (token info)" and "op info \<in> {kBranch, kJal, kJalr}" and "\<not> env_unit_test env"
  shows "\<exists>c'. Exec env info c = (kNoneTrap, c') \<and> same_but (rd info) c c'"
  using assms(2)
proof (elim insertE emptyE)
  assume "op info = kBranch"
  with assms(1) vals_defined(5) [of "token info"] obtain k where
    "branch_taken (token info) (xreg c (rs1 info)) (xreg c (rs2 info)) = Some k" by metis
  with assms(3) \<open>op info = kBranch\<close> show ?thesis
    by (simp add: Exec_op(4) BranchTypeExec_def check_misalign_instr_def same_but_def)
next
  assume "op info = kJal"
  with assms(3) show ?thesis
    by (simp add: Exec_op(9) JalTypeExec_def check_misalign_instr_def same_but_def)
next
  assume "op info = kJalr"
  with assms(3) show ?thesis
    by (simp add: Exec_op(10) JalrTypeExec_def check_misalign_instr_def same_but_def)
qed

text \<open>C17: A decoded integer, jump or branch instruction never traps in the shipped build, and it
  changes nothing but its destination register and, for jumps and branches, the program counter:
  memory, control registers, privilege mode and the reservation stay as they are.\<close>

theorem integer_never_traps:
  assumes "GetToken w \<noteq> I_UNKNOWN" and "\<not> env_unit_test env"
    and "token_op (GetToken w) \<in> {kReg, kImm, kImm32, kRv32, kLui, kAuipc, kFence, kBranch, kJal, kJalr}"
  shows "\<exists>c'. Exec env (DecodeInfo_ctor j m w a) c = (kNoneTrap, c') \<and>
    same_but (rd (DecodeInfo_ctor j m w a)) c c' \<and>
    (token_op (GetToken w) \<notin> {kBranch, kJal, kJalr} \<longrightarrow> cpu_pc c' = cpu_pc c)"
proof -
  let ?i = "DecodeInfo_ctor j m w a"
  have op: "op ?i = token_op (token ?i)" "token ?i = GetToken w"
    using DecodeInfo_op [OF assms(1), of j m a] by (simp_all add: DecodeInfo_ctor_def)
  show ?thesis
  proof (cases "op ?i \<in> {kBranch, kJal, kJalr}")
    case True
    with jump_effect [OF op(1) True assms(2)] op show ?thesis by auto
  next
    case False
    with assms(3) op have "op ?i \<in> {kReg, kImm, kImm32, kRv32, kLui, kAuipc, kFence}" by auto
    from alu_effect [OF op(1) this] show ?thesis by blast
  qed
qed

lemma example_addi: "GetToken 0xffb10093 = I_ADDI"
proof -
  have a: "\<lparr>desc_mask = 0x707f, desc_signature = 0x13, desc_name = ''ADDI'', desc_token = I_ADDI\<rparr> \<in> set kInstTable"
    by (simp add: kInstTable_defs)
  show ?thesis using GetToken_row [OF a, of "0xffb10093"] by (simp add: matches_def shadowed_def)
qed

definition example_env :: env where
  "example_env = \<lparr>env_unit_test = False, env_guest_ts = 0, env_imm = 0, env_mem_size = 0\<rparr>"

definition example_cpu :: "PrivilegeMode \<Rightarrow> u64 \<Rightarrow> cpu" where
  "example_cpu mode x =
     \<lparr>cpu_pc = 0x80000000, cpu_instret = 0, cpu_hart_id = 0, cpu_state = State_init, cpu_xregs = (\<lambda>_. x)(0 := 0), cpu_fregs = (\<lambda>_. 0),
      cpu_priv_mode = mode, cpu_reservation = \<lparr>res_addr = 0, res_size = 0, res_valid = False, res_hart_id = 0\<rparr>,
      cpu_mmu = example_sv39\<rparr>"

theorem integer_never_traps_witness:
  "\<exists>c'. Exec example_env (DecodeInfo_ctor 0 0 0xffb10093 0x80000000) (example_cpu kUser 7) = (kNoneTrap, c') \<and>
     xreg c' 2 = 7"
proof -
  have rd: "rd (DecodeInfo_ctor 0 0 0xffb10093 0x80000000) = 1"
    unfolding DecodeInfo_ctor_def field_defs DecodeInfo.simps by code_simp
  have t: "token_op I_ADDI = kImm" by (simp add: token_op_def)
  have e: "\<not> env_unit_test example_env" by (simp add: example_env_def)
  have k: "token_op (GetToken 0xffb10093) \<in> {kReg, kImm, kImm32, kRv32, kLui, kAuipc, kFence, kBranch, kJal, kJalr}"
    and u: "GetToken 0xffb10093 \<noteq> I_UNKNOWN" by (simp_all add: example_addi t)
  from integer_never_traps [OF u e k, of 0 0 "0x80000000" "example_cpu kUser 7"] obtain c' where
    c': "Exec example_env (DecodeInfo_ctor 0 0 0xffb10093 0x80000000) (example_cpu kUser 7) = (kNoneTrap, c')"
    "same_but 1 (example_cpu kUser 7) c'" unfolding rd by blast
  from c'(2) have "xreg c' 2 = 7" by (simp add: same_but_def example_cpu_def)
  with c'(1) show ?thesis by blast
qed

section \<open>Privilege\<close>

lemma mode_spp: "mode_of (mstatus_get ''spp'' w) \<le> kSupervisor"
proof -
  have "mstatus_get ''spp'' w = 0 \<or> mstatus_get ''spp'' w = 1"
    unfolding field_defs by (rule fget_bit_cases)
  then show ?thesis by (auto simp: mode_of_def less_eq_PrivilegeMode_def)
qed

lemma mode_machine_top: "m \<le> kMachine"
  by (cases m) (simp_all add: less_eq_PrivilegeMode_def)

lemma mode_supervisor_le: "\<not> m < kSupervisor \<Longrightarrow> kSupervisor \<le> m"
  by (cases m) (simp_all add: less_eq_PrivilegeMode_def)

lemma priv_ret:
  "cpu_priv_mode (snd (MRetExec info c)) \<le> cpu_priv_mode c"
  "cpu_priv_mode (snd (SRetExec info c)) \<le> cpu_priv_mode c"
proof -
  show "cpu_priv_mode (snd (MRetExec info c)) \<le> cpu_priv_mode c"
    unfolding MRetExec_def Let_def snd_if by (simp add: mode_machine_top)
  show "cpu_priv_mode (snd (SRetExec info c)) \<le> cpu_priv_mode c"
    unfolding SRetExec_def Let_def snd_if
    using order_trans [OF mode_spp mode_supervisor_le [of "cpu_priv_mode c"]] by simp
qed

lemma priv_csr: "cpu_priv_mode (snd (CsrTypeExec env info c)) = cpu_priv_mode c"
  by (simp add: CsrTypeExec_def Let_def split: option.splits)

lemma priv_sfence:
  "cpu_priv_mode (snd (SfenceVmaExec info c)) = cpu_priv_mode c" "snd (ECallExec info c) = c"
  by (simp_all add: SfenceVmaExec_def CPU_FlushTlb_def ECallExec_def)

lemma priv_system: "cpu_priv_mode (snd (SystemTypeExec env info c)) \<le> cpu_priv_mode c"
  unfolding SystemTypeExec_def snd_if
  by (simp only: priv_csr priv_sfence snd_conv order_refl priv_ret if_cancel split: if_split) simp

lemma priv_memory:
  "cpu_priv_mode (snd (LoadTypeExec info c)) = cpu_priv_mode c"
  "cpu_priv_mode (snd (StoreTypeExec info c)) = cpu_priv_mode c"
  "cpu_priv_mode (snd (AmoLrExec info c)) = cpu_priv_mode c"
  "cpu_priv_mode (snd (AmoScExec info c)) = cpu_priv_mode c"
  by (auto simp: LoadTypeExec_def StoreTypeExec_def AmoLrExec_def AmoScExec_def Let_def write_back_def
      split: prod.splits option.splits elim!: CPU_Load_frame CPU_Store_frame)

lemma priv_amo: "cpu_priv_mode (snd (AmoTypeExec info c)) = cpu_priv_mode c"
  unfolding AmoTypeExec_def snd_if
  by (auto simp: priv_memory Let_def split: prod.splits option.splits elim!: CPU_Load_frame CPU_Store_frame)

lemma priv_integer:
  "cpu_priv_mode (snd (RegTypeExec info c)) = cpu_priv_mode c"
  "cpu_priv_mode (snd (ImmTypeExec info c)) = cpu_priv_mode c"
  "cpu_priv_mode (snd (Rv32TypeExec info c)) = cpu_priv_mode c"
  "cpu_priv_mode (snd (Imm32TypeExec info c)) = cpu_priv_mode c"
  "cpu_priv_mode (snd (LuiTypeExec info c)) = cpu_priv_mode c"
  "cpu_priv_mode (snd (AuipcTypeExec info c)) = cpu_priv_mode c"
  "cpu_priv_mode (snd (FenceTypeExec info c)) = cpu_priv_mode c"
  "cpu_priv_mode (snd (JalTypeExec env info c)) = cpu_priv_mode c"
  "cpu_priv_mode (snd (JalrTypeExec env info c)) = cpu_priv_mode c"
  "cpu_priv_mode (snd (BranchTypeExec env info c)) = cpu_priv_mode c"
  by (simp_all add: RegTypeExec_def ImmTypeExec_def Rv32TypeExec_def Imm32TypeExec_def LuiTypeExec_def
      AuipcTypeExec_def FenceTypeExec_def JalTypeExec_def JalrTypeExec_def BranchTypeExec_def write_back_def
      check_misalign_instr_def Let_def split: option.splits)

text \<open>C16: No instruction raises the privilege mode: the returns go to a mode that is at most the
  current one and no other instruction changes it, so the mode rises only through a trap.\<close>

theorem exec_never_raises_privilege:
  "cpu_priv_mode (snd (Exec env info c)) \<le> cpu_priv_mode c"
  unfolding Exec_def snd_if
  by (simp only: priv_integer priv_memory priv_amo priv_system snd_conv order_refl if_cancel split: if_split) simp

end
