(* ===== verification/Exec_Memory.thy ===== *)
theory Exec_Memory
  imports Exec_Props
begin

text \<open>
  The memory instructions on physical addresses in main memory: a load returns what the last
  store wrote, a store-conditional succeeds once after a load-reserved and never without it,
  and an atomic instruction stores the function of the old value and the operand that the
  manual gives it, at its own width.
\<close>

section \<open>Physical accesses\<close>

abbreviation cpu_bus :: "cpu \<Rightarrow> bus" where
  "cpu_bus c \<equiv> sv39_bus (cpu_mmu c)"

abbreviation set_bus :: "bus \<Rightarrow> cpu \<Rightarrow> cpu" where
  "set_bus b c \<equiv> c\<lparr>cpu_mmu := (cpu_mmu c)\<lparr>sv39_bus := b\<rparr>\<rparr>"

definition phys :: "cpu \<Rightarrow> bool" where
  "phys c \<longleftrightarrow> UsePhysAddr (cpu_priv_mode c) (State_Read (cpu_state c) kCsrSatp) (State_Read (cpu_state c) kCsrMstatus)"

lemma phys_cong [simp]:
  "phys (c\<lparr>cpu_mmu := m\<rparr>) = phys c" "phys (c\<lparr>cpu_xregs := x\<rparr>) = phys c"
  "phys (c\<lparr>cpu_reservation := r\<rparr>) = phys c" "phys (c\<lparr>cpu_pc := p\<rparr>) = phys c"
  by (simp_all add: phys_def)

lemma CPU_Load_phys:
  "phys c \<Longrightarrow> Bus_Load (cpu_bus c) a n = Done (bs, b) \<Longrightarrow> CPU_Load c a n = (kNoneTrap, bs, set_bus b c)"
  by (simp add: CPU_Load_def Mmu_Load_def phys_def Let_def phys_load_def Sv39_Load_def)

lemma CPU_Load_phys_Done:
  assumes "phys c" and "CPU_Load c a n = (t, bs, c')" and "trap_type t = kNone"
  obtains b where "t = kNoneTrap" and "Bus_Load (cpu_bus c) a n = Done (bs, b)" and "c' = set_bus b c"
  using assms
  by (auto simp: CPU_Load_def Mmu_Load_def phys_def Let_def phys_load_def Sv39_Load_def split: io.splits)

lemma CPU_Store_phys_Done:
  assumes "phys c" and "CPU_Store c a n buf = (t, c')" and "trap_type t = kNone"
  obtains b where "t = kNoneTrap" and "Bus_Store (cpu_bus c) a n buf = Done b" and "c' = set_bus b c"
  using assms
  by (auto simp: CPU_Store_def Mmu_Store_def phys_def Let_def phys_store_def Sv39_Store_def split: io.splits)

lemma set_bus_same: "set_bus (cpu_bus c) c = c"
  by simp

text \<open>An access does not look at the integer registers or the reservation.\<close>

lemma CPU_Load_upd:
  "CPU_Load (c\<lparr>cpu_reservation := r\<rparr>) a n = (case CPU_Load c a n of (t, bs, c') \<Rightarrow> (t, bs, c'\<lparr>cpu_reservation := r\<rparr>))"
  "CPU_Load (c\<lparr>cpu_xregs := x\<rparr>) a n = (case CPU_Load c a n of (t, bs, c') \<Rightarrow> (t, bs, c'\<lparr>cpu_xregs := x\<rparr>))"
  by (simp_all add: CPU_Load_def split: prod.splits)

lemma CPU_Store_upd:
  "CPU_Store (c\<lparr>cpu_reservation := r\<rparr>) a n buf = (case CPU_Store c a n buf of (t, c') \<Rightarrow> (t, c'\<lparr>cpu_reservation := r\<rparr>))"
  "CPU_Store (c\<lparr>cpu_xregs := x\<rparr>) a n buf = (case CPU_Store c a n buf of (t, c') \<Rightarrow> (t, c'\<lparr>cpu_xregs := x\<rparr>))"
  by (simp_all add: CPU_Store_def split: prod.splits)

text \<open>Main memory returns what was stored.\<close>

lemma phys_store_load:
  assumes inv: "cpu_inv safe sh c" and ph: "phys c" and dram: "dram_at (cpu_bus c) a"
    and s: "CPU_Store c a n (le_bytes 8 v) = (t, c1)" "trap_type t = kNone" and n: "unat n \<le> 8"
  shows "CPU_Load c1 a n = (kNoneTrap, le_bytes (unat n) v, c1)"
proof -
  from CPU_Store_phys_Done [OF ph s] obtain b where
    b: "Bus_Store (cpu_bus c) a n (le_bytes 8 v) = Done b" and c1: "c1 = set_bus b c" .
  from dram obtain i d where "GetDeviceByRange (cpu_bus c) a = Some i" "node_dev (bus_device (cpu_bus c) ! i) = DevDram d"
    by (rule dram_atE)
  moreover have "bus_wf (cpu_bus c)" using inv by (simp add: cpu_inv_def sv39_inv_def)
  ultimately have "Bus_Load b a n = Done (take (unat n) (le_bytes 8 v), b)" using b by (intro Bus_dram_store_load)
  then have "Bus_Load (cpu_bus c1) a n = Done (le_bytes (unat n) v, b)" using c1 n by (simp add: take_le_bytes)
  from CPU_Load_phys [OF _ this] ph c1 show ?thesis by simp
qed

text \<open>A load of main memory changes nothing.\<close>

lemma phys_load_pure:
  assumes "cpu_inv safe sh c" and ph: "phys c" and "dram_at (cpu_bus c) a" and "unat n \<le> 8"
    and l: "CPU_Load c a n = (t, bs, c')" "trap_type t = kNone"
  shows "c' = c \<and> t = kNoneTrap"
proof -
  from CPU_Load_phys_Done [OF ph l] obtain b where b: "t = kNoneTrap" "Bus_Load (cpu_bus c) a n = Done (bs, b)" "c' = set_bus b c" .
  with Bus_Load_dram [of "cpu_bus c" a n] assms have "b = cpu_bus c" by (auto simp: cpu_inv_def sv39_inv_def)
  with b show ?thesis by simp
qed

section \<open>Loads and stores\<close>

definition extended :: "InstToken \<Rightarrow> u64 \<Rightarrow> u64" where
  "extended t v =
     (if t = I_LB then scast (ucast v :: u8) else if t = I_LBU then ucast (ucast v :: u8)
      else if t = I_LH then scast (ucast v :: u16) else if t = I_LHU then ucast (ucast v :: u16)
      else if t = I_LW then scast (ucast v :: u32) else if t = I_LWU then ucast (ucast v :: u32)
      else v)"

lemma ucast_ucast_take_bit:
  "ucast (ucast (v :: u64) :: 'a::len word) = take_bit (LENGTH('a)) v"
  by (rule bit_eqI) (auto simp: bit_simps)

lemma ucast_take_bit: "LENGTH('a) \<le> n \<Longrightarrow> ucast (take_bit n (v :: u64)) = (ucast v :: 'a::len word)"
  by (rule bit_eqI) (auto simp: bit_simps)

lemma take_bit_64 [simp]: "take_bit 64 (v :: u64) = v"
  by (rule bit_eqI) (auto simp: bit_simps dest: bit_imp_le_length)

lemma load_val_extended:
  assumes "token_op t = kLoad"
  shows "load_val t (take_bit (8 * unat (token_size t)) v) = Some (extended t v)"
  using token_op_load [OF assms]
  by (elim insertE emptyE) (simp_all add: load_val_def extended_def token_size_def word_amos_def
      kAccessMemBytes_def ucast_ucast_take_bit ucast_take_bit)

lemma store_load_value:
  assumes inv: "cpu_inv safe sh c" and ph: "phys c" and dram: "dram_at (cpu_bus c) (xreg c (rs1 si) + scast (imm si))"
    and s: "StoreTypeExec si c = (t, c1)" "trap_type t = kNone"
    and li: "token_op (token li) = kLoad" "mem_size li = token_size (token li)" "mem_size si = mem_size li"
    and addr: "xreg c (rs1 li) + scast (imm li) = xreg c (rs1 si) + scast (imm si)"
  shows "LoadTypeExec li c1 = (kNoneTrap, set_xreg (rd li) (extended (token li) (xreg c (rs2 si))) c1)"
proof -
  let ?a = "xreg c (rs1 si) + scast (imm si)" and ?n = "ucast (mem_size si) :: u64"
  have n: "unat ?n = unat (token_size (token li))" "unat ?n \<le> 8"
    using token_size_values [of "token li"] li by auto
  obtain t' c2 where st: "CPU_Store c ?a ?n (le_bytes 8 (xreg c (rs2 si))) = (t', c2)" by fastforce
  with s have "trap_type t' = kNone" and c2: "c2 = c1"
    by (auto simp: StoreTypeExec_def split: if_splits)
  then have l: "CPU_Load c1 ?a ?n = (kNoneTrap, le_bytes (unat ?n) (xreg c (rs2 si)), c1)"
    using phys_store_load [OF inv ph dram st _ n(2)] by simp
  have "xreg c1 = xreg c" using st c2 by (auto elim: CPU_Store_frame)
  then show ?thesis
    using l [unfolded li(3)] n(1) [unfolded li(3)] addr load_val_extended [OF li(1), of "xreg c (rs2 si)"]
    by (simp add: LoadTypeExec_def write_back_Some le_word_le_bytes)
qed

section \<open>Load-reserved and store-conditional\<close>

lemma lr_effect:
  assumes "AmoLrExec li c = (t, c1)" and "trap_type t = kNone"
  shows "cpu_reservation c1 = \<lparr>res_addr = xreg c (rs1 li), res_size = take_bit 7 (ucast (mem_size li)),
      res_valid = True, res_hart_id = cpu_hart_id c\<rparr>" and "cpu_hart_id c1 = cpu_hart_id c"
    and "xreg c (rs1 li) mod ucast (mem_size li) = 0"
  using assms
  by (auto simp: AmoLrExec_def Let_def split: if_splits prod.splits elim!: CPU_Load_frame)

lemma sc_effect:
  assumes "AmoScExec si c = (t, c')" and "trap_type t = kNone"
  defines "r \<equiv> cpu_reservation c"
  defines "ok \<equiv> res_addr r = xreg c (rs1 si) \<and> res_size r = ucast (mem_size si) \<and> res_valid r \<and>
      res_hart_id r = cpu_hart_id c"
  shows "ok \<Longrightarrow> \<exists>m t1. CPU_Store (c\<lparr>cpu_reservation := r\<lparr>res_valid := False\<rparr>\<rparr>) (xreg c (rs1 si)) (ucast (mem_size si))
           (le_bytes 8 (xreg c (rs2 si))) = (t1, c\<lparr>cpu_reservation := r\<lparr>res_valid := False\<rparr>, cpu_mmu := m\<rparr>) \<and>
         trap_type t1 = kNone \<and> c' = set_xreg (rd si) 0 (c\<lparr>cpu_reservation := r\<lparr>res_valid := False\<rparr>, cpu_mmu := m\<rparr>)"
    and "\<not> ok \<Longrightarrow> xreg c' (rd si) = 1 \<and> cpu_mmu c' = cpu_mmu c"
  using assms
  by (auto simp: AmoScExec_def Let_def split: if_splits prod.splits elim!: CPU_Store_frame)


text \<open>The processor of the examples has 0x80000000 in every register but \<open>x0\<close>.\<close>

definition example_info :: "InstToken \<Rightarrow> u8 \<Rightarrow> u8 \<Rightarrow> u8 \<Rightarrow> u8 \<Rightarrow> DecodeInfo" where
  "example_info t d s1 s2 n =
     \<lparr>word = 0, op = token_op t, rd = d, rs1 = s1, rs2 = s2, pc = 0x80000000, imm = 0, token = t,
      inst_size = 4, mem_size = n, br_target = 0\<rparr>"

abbreviation example_m :: cpu where
  "example_m \<equiv> example_cpu kMachine 0x80000000"

lemma example_m_inv: "cpu_inv True (shape_of (cpu_bus example_m)) example_m"
  by (simp add: cpu_inv_def example_cpu_def csr_wf_init example_inv)

lemma example_m_phys: "phys example_m"
proof -
  have "satp_get ''mode'' (State_Read State_init kCsrSatp) = 0"
    by (simp add: State_Read_def State_init_def const_defs)
  then show ?thesis by (simp add: phys_def example_cpu_def UsePhysAddr_def)
qed

lemma example_m_dram: "dram_at (cpu_bus example_m) 0x80000000"
  unfolding dram_at_def by (simp add: example_cpu_def example_bus GetDeviceByRange_def node_holds_def)

lemma example_load: "Bus_Load (sv39_bus example_sv39) 0x80000000 8 = Done (replicate 8 0, sv39_bus example_sv39)"
  unfolding example_bus example_mem_def by code_simp

definition example_bus' :: bus where
  "example_bus' = \<lparr>bus_device = [\<lparr>node_base = 0x80000000, node_size = 24,
     node_dev = DevDram \<lparr>dram_size = 24, dram_memory = le_bytes 8 (0x80000000 :: u64) @ replicate 8 0 @ [0xcf, 0, 0, 0x20, 0, 0, 0, 0]\<rparr>\<rparr>]\<rparr>"

lemma example_store: "Bus_Store (sv39_bus example_sv39) 0x80000000 8 (le_bytes 8 (0x80000000 :: u64)) = Done example_bus'"
  unfolding example_bus example_mem_def example_bus'_def by code_simp

lemma example_CPU_Store:
  "CPU_Store example_m 0x80000000 8 (le_bytes 8 (0x80000000 :: u64)) = (kNoneTrap, set_bus example_bus' example_m)"
  using example_m_phys example_store
  by (simp add: CPU_Store_def Mmu_Store_def phys_def Let_def phys_store_def Sv39_Store_def example_cpu_def)

lemma example_CPU_Load: "CPU_Load example_m 0x80000000 8 = (kNoneTrap, replicate 8 0, example_m)"
  using CPU_Load_phys [OF example_m_phys, of "0x80000000" 8] example_load by (simp add: example_cpu_def)

lemma example_lr:
  "AmoLrExec (example_info I_LR_D 5 1 0 8) example_m = (kNoneTrap, set_xreg 5 0 (example_m\<lparr>cpu_reservation :=
     \<lparr>res_addr = 0x80000000, res_size = 8, res_valid = True, res_hart_id = 0\<rparr>\<rparr>))"
proof -
  have x: "xreg example_m 1 = 0x80000000" "xreg example_m 0 = 0" "cpu_hart_id example_m = 0"
    by (simp_all add: example_cpu_def)
  have "(0x80000000 :: u64) mod 8 = 0" "le_word (replicate 8 0) = (0 :: u64)" "take_bit 7 (8 :: u32) = 8"
    by code_simp+
  then show ?thesis
    by (simp add: AmoLrExec_def example_info_def x CPU_Load_upd example_CPU_Load)
qed

lemma example_sc:
  "AmoScExec (example_info I_SC_D 6 1 2 8) (set_xreg 5 0 (example_m\<lparr>cpu_reservation :=
     \<lparr>res_addr = 0x80000000, res_size = 8, res_valid = True, res_hart_id = 0\<rparr>\<rparr>)) =
   (kNoneTrap, set_xreg 6 0 (set_xreg 5 0 (set_bus example_bus' (example_m\<lparr>cpu_reservation :=
     \<lparr>res_addr = 0x80000000, res_size = 8, res_valid = False, res_hart_id = 0\<rparr>\<rparr>))))"
proof -
  have x: "xreg example_m 1 = 0x80000000" "xreg example_m 2 = 0x80000000" "cpu_hart_id example_m = 0"
    by (simp_all add: example_cpu_def)
  have "(0x80000000 :: u64) mod 8 = 0" by code_simp
  then show ?thesis
    by (simp add: AmoScExec_def example_info_def x CPU_Store_upd example_CPU_Store)
qed


text \<open>C12: Store, then load of the same address and width: the loaded register holds the stored
  register's value cut to that width and extended the way the load instruction says.\<close>

theorem store_then_load:
  assumes "cpu_inv safe sh c" and "phys c" and "dram_at (cpu_bus c) (xreg c (rs1 si) + scast (imm si))"
    and "StoreTypeExec si c = (t, c1)" and "trap_type t = kNone"
    and "token_op (token li) = kLoad" and "mem_size li = token_size (token li)" and "mem_size si = mem_size li"
    and "xreg c (rs1 li) + scast (imm li) = xreg c (rs1 si) + scast (imm si)"
  shows "LoadTypeExec li c1 = (kNoneTrap, set_xreg (rd li) (extended (token li) (xreg c (rs2 si))) c1)"
  using assms by (rule store_load_value)

theorem store_then_load_witness:
  "\<exists>c1. StoreTypeExec (example_info I_SD 0 1 2 8) example_m = (kNoneTrap, c1) \<and>
     LoadTypeExec (example_info I_LD 3 1 0 8) c1 = (kNoneTrap, set_xreg 3 0x80000000 c1)"
proof -
  have x: "xreg example_m 1 = 0x80000000" "xreg example_m 2 = 0x80000000" by (simp_all add: example_cpu_def)
  have i: "rs1 (example_info t d s1 s2 n) = s1" "mem_size (example_info t d s1 s2 n) = n"
    "rd (example_info t d s1 s2 n) = d" "rs2 (example_info t d s1 s2 n) = s2" "imm (example_info t d s1 s2 n) = 0"
    "token (example_info t d s1 s2 n) = t" for t d s1 s2 n by (simp_all add: example_info_def)
  have st: "StoreTypeExec (example_info I_SD 0 1 2 8) example_m = (kNoneTrap, set_bus example_bus' example_m)"
    by (simp add: StoreTypeExec_def i x example_CPU_Store)
  have "token_op I_LD = kLoad" "token_size I_LD = 8" "extended I_LD v = v" for v
    by (simp_all add: token_op_def token_size_def word_amos_def kAccessMemBytes_def extended_def)
  with store_then_load [OF example_m_inv example_m_phys _ st, of "example_info I_LD 3 1 0 8"] example_m_dram
  have "LoadTypeExec (example_info I_LD 3 1 0 8) (set_bus example_bus' example_m) =
      (kNoneTrap, set_xreg 3 0x80000000 (set_bus example_bus' example_m))" by (simp add: i x)
  with st show ?thesis by blast
qed

section \<open>Atomic read-modify-write\<close>

text \<open>The operations of the manual at any width: operand and old value to new value.\<close>

definition amo_fun :: "InstToken \<Rightarrow> 'a::len word \<Rightarrow> 'a word \<Rightarrow> 'a word option" where
  "amo_fun t a m =
     (if t \<in> {I_AMOSWAP_W, I_AMOSWAP_D} then Some a
      else if t \<in> {I_AMOADD_W, I_AMOADD_D} then Some (m + a)
      else if t \<in> {I_AMOXOR_W, I_AMOXOR_D} then Some (m XOR a)
      else if t \<in> {I_AMOAND_W, I_AMOAND_D} then Some (m AND a)
      else if t \<in> {I_AMOOR_W, I_AMOOR_D} then Some (m OR a)
      else if t \<in> {I_AMOMIN_W, I_AMOMIN_D} then Some (if a \<le>s m then a else m)
      else if t \<in> {I_AMOMAX_W, I_AMOMAX_D} then Some (if m \<le>s a then a else m)
      else if t \<in> {I_AMOMINU_W, I_AMOMINU_D} then Some (min a m)
      else if t \<in> {I_AMOMAXU_W, I_AMOMAXU_D} then Some (max a m)
      else None)"

definition rmw_w :: "InstToken set" where
  "rmw_w = {I_AMOSWAP_W, I_AMOADD_W, I_AMOXOR_W, I_AMOAND_W, I_AMOOR_W, I_AMOMIN_W, I_AMOMAX_W,
     I_AMOMINU_W, I_AMOMAXU_W}"

definition rmw_d :: "InstToken set" where
  "rmw_d = {I_AMOSWAP_D, I_AMOADD_D, I_AMOXOR_D, I_AMOAND_D, I_AMOOR_D, I_AMOMIN_D, I_AMOMAX_D,
     I_AMOMINU_D, I_AMOMAXU_D}"

lemma ucast_scast_32 [simp]: "ucast (scast (x :: u32) :: u64) = x"
  by (rule bit_eqI) (auto simp: bit_simps)

lemma ucast_ucast_32 [simp]: "ucast (ucast (x :: u32) :: u64) = x"
  by (rule bit_eqI) (auto simp: bit_simps)

lemma sint_scast_32 [simp]: "sint (scast (x :: u32) :: u64) = sint x"
proof -
  have "- (2 ^ 63) \<le> sint x" "sint x < 2 ^ 63" using sint_greater_eq [of x] sint_less [of x] by simp_all
  then show ?thesis by (simp add: signed_scast_eq signed_take_bit_int_eq_self)
qed

lemma take_bit_add_64: "take_bit 32 (take_bit 64 x + take_bit 64 y) = take_bit 32 (x + y :: int)"
proof -
  have "take_bit 32 (take_bit 64 x + take_bit 64 y) =
      take_bit 32 (take_bit 32 (take_bit 64 x) + take_bit 32 (take_bit 64 y))" by (rule take_bit_add [symmetric])
  also have "\<dots> = take_bit 32 (take_bit 32 x + take_bit 32 y)" by simp
  finally show ?thesis by (simp only: take_bit_add)
qed

lemma scast_less_32: "(scast (x :: u32) :: u64) <s scast y \<longleftrightarrow> \<not> y \<le>s x"
  by (simp add: word_sless_alt word_sle_eq not_le)

lemma ucast_arith_32:
  "ucast (x + y :: u64) = (ucast x + ucast y :: u32)" "ucast (x XOR y :: u64) = (ucast x XOR ucast y :: u32)"
  "ucast (x AND y :: u64) = (ucast x AND ucast y :: u32)" "ucast (x OR y :: u64) = (ucast x OR ucast y :: u32)"
proof -
  show "ucast (x + y :: u64) = (ucast x + ucast y :: u32)"
    by transfer (simp add: take_bit_add take_bit_add_64)
qed (rule bit_eqI, auto simp: bit_simps)+

lemma amo_val_d:
  assumes "t \<in> rmw_d"
  shows "amo_val t a m = amo_fun t a m"
  using assms unfolding rmw_d_def
  by (elim insertE emptyE) (simp_all add: amo_val_def amo_fun_def ac_simps word_sless_alt word_sle_eq not_le)

lemma amo_val_w:
  assumes "t \<in> rmw_w"
  shows "map_option ucast (amo_val t a m) = amo_fun t (ucast a :: u32) (ucast m)"
  using assms unfolding rmw_w_def
  by (elim insertE emptyE)
    (simp_all add: amo_val_def amo_fun_def Let_def ucast_arith_32 scast_less_32 ac_simps if_distrib [of ucast])

lemma amo_effect:
  assumes inv: "cpu_inv safe sh c" and ph: "phys c" and dram: "dram_at (cpu_bus c) (xreg c (rs1 info))"
    and size: "mem_size info \<in> {4, 8}"
    and tok: "token info \<notin> {I_LR_W, I_LR_D, I_SC_W, I_SC_D}"
    and ex: "AmoTypeExec info c = (t, c')" "trap_type t = kNone"
  obtains bs v where "CPU_Load c (xreg c (rs1 info)) (ucast (mem_size info)) = (kNoneTrap, bs, c)"
    and "amo_val (token info) (xreg c (rs2 info)) (le_word bs) = Some v"
    and "CPU_Load c' (xreg c (rs1 info)) (ucast (mem_size info)) =
      (kNoneTrap, le_bytes (unat (mem_size info)) v, c')"
    and "xreg c' (rd info) = (if mem_size info = 8 then le_word bs else scast (ucast (le_word bs :: u64) :: u32))"
proof -
  let ?a = "xreg c (rs1 info)" and ?n = "ucast (mem_size info) :: u64"
  have n: "unat ?n \<le> 8" "unat ?n = unat (mem_size info)" using size by auto
  obtain t1 bs c1 where l: "CPU_Load c ?a ?n = (t1, bs, c1)" by (rule prod_cases3)
  with ex tok have t1: "trap_type t1 = kNone" by (auto simp: AmoTypeExec_def Let_def split: if_splits)
  from phys_load_pure [OF inv ph dram n(1) l t1] have c1: "c1 = c" "t1 = kNoneTrap" by simp_all
  from ex tok l t1 c1 obtain v where v: "amo_val (token info) (xreg c (rs2 info)) (le_word bs) = Some v"
    by (auto simp: AmoTypeExec_def Let_def split: if_splits option.splits)
  obtain t2 c2 where s: "CPU_Store c ?a ?n (le_bytes 8 v) = (t2, c2)" by fastforce
  with ex tok l t1 c1 v have t2: "trap_type t2 = kNone"
    and c': "c' = set_xreg (rd info) (if mem_size info = 8 then le_word bs else scast (ucast (le_word bs :: u64) :: u32)) c2"
    by (auto simp: AmoTypeExec_def Let_def split: if_splits)
  from phys_store_load [OF inv ph dram s t2 n(1)] have "CPU_Load c2 ?a ?n = (kNoneTrap, le_bytes (unat ?n) v, c2)" .
  with c' n have "CPU_Load c' ?a ?n = (kNoneTrap, le_bytes (unat (mem_size info)) v, c')" by (simp add: CPU_Load_upd)
  moreover have "xreg c' (rd info) = (if mem_size info = 8 then le_word bs else scast (ucast (le_word bs :: u64) :: u32))"
    using c' by simp
  ultimately show ?thesis using that l c1 v by simp
qed

lemma le_bytes_ucast: "8 * n \<le> 32 \<Longrightarrow> le_bytes n (ucast (v :: u64) :: u32) = le_bytes n v"
  by (rule nth_equalityI) (auto intro!: bit_eqI simp: bit_get_byte bit_simps)

text \<open>C10: An atomic read-modify-write instruction on main memory that does not trap returns the old
  value in its destination register (sign-extended for the word forms) and leaves in memory the
  manual's function of the operand and the old value, computed at the width of the instruction.\<close>

theorem amo_read_modify_write:
  assumes "cpu_inv safe sh c" and "phys c" and "dram_at (cpu_bus c) (xreg c (rs1 info))"
    and "mem_size info = token_size (token info)" and "token info \<in> rmw_w \<union> rmw_d"
    and "AmoTypeExec info c = (t, c')" and "trap_type t = kNone"
  shows "\<exists>old. CPU_Load c (xreg c (rs1 info)) (ucast (mem_size info)) = (kNoneTrap, old, c) \<and>
    (if token info \<in> rmw_w
     then xreg c' (rd info) = scast (le_word old :: u32) \<and>
       (\<exists>v :: u32. amo_fun (token info) (ucast (xreg c (rs2 info))) (le_word old) = Some v \<and>
          CPU_Load c' (xreg c (rs1 info)) 4 = (kNoneTrap, le_bytes 4 v, c'))
     else xreg c' (rd info) = le_word old \<and>
       (\<exists>v :: u64. amo_fun (token info) (xreg c (rs2 info)) (le_word old) = Some v \<and>
          CPU_Load c' (xreg c (rs1 info)) 8 = (kNoneTrap, le_bytes 8 v, c')))"
proof -
  have size: "mem_size info = (if token info \<in> rmw_w then 4 else 8)" and tok: "token info \<notin> {I_LR_W, I_LR_D, I_SC_W, I_SC_D}"
    using assms(4,5) by (auto simp: token_size_def word_amos_def rmw_w_def rmw_d_def kAccessMemBytes_def)
  have s: "mem_size info \<in> {4, 8}" using size by simp
  from amo_effect [OF assms(1-3) s tok assms(6,7)] obtain bs v where
    l: "CPU_Load c (xreg c (rs1 info)) (ucast (mem_size info)) = (kNoneTrap, bs, c)"
    and v: "amo_val (token info) (xreg c (rs2 info)) (le_word bs) = Some v"
    and l': "CPU_Load c' (xreg c (rs1 info)) (ucast (mem_size info)) = (kNoneTrap, le_bytes (unat (mem_size info)) v, c')"
    and r: "xreg c' (rd info) = (if mem_size info = 8 then le_word bs else scast (ucast (le_word bs :: u64) :: u32))" .
  have w: "ucast (le_word bs :: u64) = (le_word bs :: u32)"
    by (rule bit_eqI) (auto simp: bit_simps bit_le_word)
  show ?thesis
  proof (cases "token info \<in> rmw_w")
    case True
    with v amo_val_w [OF True, of "xreg c (rs2 info)" "le_word bs"] w
    have "amo_fun (token info) (ucast (xreg c (rs2 info))) (le_word bs) = Some (ucast v :: u32)" by simp
    with True l l' r size w show ?thesis by (auto simp: le_bytes_ucast)
  next
    case False
    with assms(5) amo_val_d [of "token info"] v
    have "amo_fun (token info) (xreg c (rs2 info)) (le_word bs) = Some v" by auto
    with False l l' r size show ?thesis by auto
  qed
qed

theorem amo_read_modify_write_witness:
  "\<exists>c'. AmoTypeExec (example_info I_AMOADD_D 5 1 2 8) example_m = (kNoneTrap, c') \<and>
     xreg c' 5 = 0 \<and> CPU_Load c' 0x80000000 8 = (kNoneTrap, le_bytes 8 (0x80000000 :: u64), c')"
proof -
  have x: "xreg example_m 1 = 0x80000000" "xreg example_m 2 = 0x80000000" by (simp_all add: example_cpu_def)
  have i: "rs1 (example_info t d s1 s2 n) = s1" "mem_size (example_info t d s1 s2 n) = n"
    "rd (example_info t d s1 s2 n) = d" "rs2 (example_info t d s1 s2 n) = s2"
    "token (example_info t d s1 s2 n) = t" for t d s1 s2 n by (simp_all add: example_info_def)
  have z: "(0x80000000 :: u64) mod 8 = 0" "le_word (replicate 8 0) = (0 :: u64)" by code_simp+
  have "amo_val I_AMOADD_D 0x80000000 0 = Some 0x80000000" by (simp add: amo_val_def)
  then have ex: "AmoTypeExec (example_info I_AMOADD_D 5 1 2 8) example_m =
      (kNoneTrap, set_xreg 5 0 (set_bus example_bus' example_m))"
    by (simp add: AmoTypeExec_def i x z example_CPU_Load example_CPU_Store)
  have t: "token_size I_AMOADD_D = 8" "I_AMOADD_D \<in> rmw_w \<union> rmw_d" "I_AMOADD_D \<notin> rmw_w"
    by (simp_all add: token_size_def word_amos_def kAccessMemBytes_def rmw_d_def rmw_w_def)
  from amo_read_modify_write [OF example_m_inv example_m_phys _ _ _ ex] example_m_dram t ex show ?thesis
    by (auto simp: i x example_CPU_Load z amo_fun_def)
qed

end
