(* ===== verification/Cpu_Lemmas.thy ===== *)
theory Cpu_Lemmas
  imports Cpu Exec_Memory
begin

text \<open>
  The processor's cycle: its invariant and the states it can reach, the instruction counter,
  independence from uninitialised decoder members, trap entry and return, the choice of the
  interrupt that is taken, and the wait-for-interrupt state.
\<close>

section \<open>Invariant of the cycle\<close>

lemma cpu_inv_HandleTrap: "cpu_inv safe sh c \<Longrightarrow> cpu_inv safe sh (HandleTrap t epc c)"
  by (simp add: HandleTrap_def Let_def cpu_inv_def csr_wf_Write)

lemma cpu_inv_HandleInterrupt: "cpu_inv safe sh c \<Longrightarrow> cpu_inv safe sh (HandleInterrupt a c)"
  using cpu_inv_HandleTrap [of safe sh c "make_trap (select_interrupt c) (cpu_pc c)" a]
  by (simp add: HandleInterrupt_def Let_def cpu_inv_def csr_wf_Write)

lemma cpu_inv_update_mip: "cpu_inv safe sh c \<Longrightarrow> cpu_inv safe sh (update_mip meip seip msip mtip c)"
  by (simp add: update_mip_def Let_def cpu_inv_def csr_wf_Write)

lemma cpu_inv_TickOperate:
  assumes "cpu_inv safe sh c"
  shows "cpu_inv safe sh (snd (TickOperate env c))"
proof (cases "GetWfi (cpu_state c)")
  case True
  then show ?thesis using assms by (simp add: TickOperate_def Let_def)
next
  case False
  obtain t bs c1 where f: "CPU_Fetch c (cpu_pc c) 4 = (t, bs, c1)" by (rule prod_cases3)
  from cpu_inv_Fetch [OF f assms] have c1: "cpu_inv safe sh c1" by simp
  let ?w = "le_word bs :: u32"
  let ?c2 = "c1\<lparr>cpu_pc := cpu_pc c1 + 4\<rparr>"
  have t: "token (DecodeInfo_ctor j m w a) = GetToken w" "inst_size (DecodeInfo_ctor j m w a) = 4" for j m w a
    by (simp_all add: DecodeInfo_ctor_def)
  show ?thesis
  proof (cases "trap_type t \<noteq> kNone \<or> GetToken ?w = I_UNKNOWN")
    case True
    with False f c1 show ?thesis by (auto simp: TickOperate_def Let_def t)
  next
    case ok: False
    then have "cpu_inv safe sh (snd (Exec env (DecodeInfo_ctor (env_imm env) (env_mem_size env) ?w (cpu_pc c1)) ?c2))"
      using c1 by (intro cpu_inv_Exec) simp_all
    with ok False f show ?thesis by (auto simp: TickOperate_def Let_def t split: prod.splits)
  qed
qed

lemma cpu_inv_Tick:
  assumes "cpu_inv safe sh c"
  shows "cpu_inv safe sh (CPU_Tick env meip seip msip mtip upd c)"
proof -
  let ?c0 = "if upd then update_mip meip seip msip mtip c else c"
  have "cpu_inv safe sh ?c0" using assms by (simp add: cpu_inv_update_mip)
  then have "cpu_inv safe sh (snd (TickOperate env ?c0))" by (rule cpu_inv_TickOperate)
  then show ?thesis
    by (auto simp: CPU_Tick_def Let_def split: prod.splits
        intro!: cpu_inv_Write cpu_inv_HandleInterrupt cpu_inv_HandleTrap)
qed

text \<open>Register \<open>x0\<close> is zero after every cycle.\<close>

lemma x0_HandleTrap [simp]: "cpu_xregs (HandleTrap t epc c) = cpu_xregs c"
  by (simp add: HandleTrap_def Let_def)

lemma x0_HandleInterrupt [simp]: "cpu_xregs (HandleInterrupt a c) = cpu_xregs c"
  by (simp add: HandleInterrupt_def Let_def)

lemma x0_TickOperate: "xreg c 0 = 0 \<Longrightarrow> xreg (snd (TickOperate env c)) 0 = 0"
  by (auto simp: TickOperate_def Let_def split: prod.splits elim!: CPU_Fetch_frame)

lemma x0_Tick: "xreg c 0 = 0 \<Longrightarrow> xreg (CPU_Tick env meip seip msip mtip upd c) 0 = 0"
  using x0_TickOperate [of "if upd then update_mip meip seip msip mtip c else c" env]
  by (auto simp: CPU_Tick_def Let_def update_mip_def split: prod.splits)

section \<open>Reset\<close>

lemma device_kind_Reset [simp]:
  "device_width (device_Reset ts d) = device_width d" "device_need (device_Reset ts d) = device_need d"
  by (cases d; simp)+

lemma bus_kind_Reset [simp]:
  "bus_width (Bus_Reset ts b) = bus_width b" "bus_need (Bus_Reset ts b) = bus_need b"
  by (simp_all add: bus_width_def bus_need_def Bus_Reset_def comp_def)

lemma sv39_inv_Reset_safe: "sv39_inv safe sh s \<Longrightarrow> sv39_inv safe sh (Sv39_Reset ts s)"
  by (simp add: sv39_inv_def Sv39_Reset_def const_defs bus.reset_wf)

lemma cpu_inv_Reset: "cpu_inv safe sh c \<Longrightarrow> cpu_inv safe sh (CPU_Reset ts c)"
  by (simp add: cpu_inv_def CPU_Reset_def csr_wf_Reset sv39_inv_Reset_safe)

lemma cpu_inv_init:
  "bus_wf b \<Longrightarrow> safe \<longrightarrow> bus_width b = 8 \<and> bus_need b \<le> 8 \<Longrightarrow> cpu_inv safe (shape_of b) (CPU h (Sv39 b))"
  by (simp add: cpu_inv_def CPU_def csr_wf_init sv39_inv_def Sv39_def const_defs)

section \<open>Reachable states\<close>

text \<open>The steps of a processor: a cycle with any interrupt lines, a reset, and what the program
  around it does between cycles, setting the program counter.\<close>

inductive cpu_step :: "cpu \<Rightarrow> cpu \<Rightarrow> bool" where
  tick: "cpu_step c (CPU_Tick env meip seip msip mtip upd c)"
| reset: "cpu_step c (CPU_Reset ts c)"
| set_pc: "cpu_step c (c\<lparr>cpu_pc := p\<rparr>)"

inductive cpu_reach :: "cpu \<Rightarrow> cpu \<Rightarrow> bool" for c0 where
  start: "cpu_reach c0 c0"
| step: "cpu_reach c0 c \<Longrightarrow> cpu_step c c' \<Longrightarrow> cpu_reach c0 c'"

inductive_cases cpu_stepE: "cpu_step c c'"

lemma cpu_step_inv: "cpu_step c c' \<Longrightarrow> cpu_inv safe sh c \<Longrightarrow> cpu_inv safe sh c'"
  by (auto elim!: cpu_stepE intro: cpu_inv_Tick cpu_inv_Reset)

lemma cpu_step_x0: "cpu_step c c' \<Longrightarrow> xreg c 0 = 0 \<Longrightarrow> xreg c' 0 = 0"
  by (auto elim!: cpu_stepE simp: x0_Tick CPU_Reset_def)

lemma cpu_reach_inv:
  assumes "cpu_reach c0 c" and "cpu_inv safe sh c0" and "xreg c0 0 = 0"
  shows "cpu_inv safe sh c \<and> xreg c 0 = 0"
  using assms by (induction rule: cpu_reach.induct) (auto intro: cpu_step_inv cpu_step_x0)

section \<open>The instruction counter\<close>

definition frame :: "cpu \<Rightarrow> cpu \<Rightarrow> bool" where
  "frame c c' \<longleftrightarrow> cpu_instret c' = cpu_instret c \<and> cpu_hart_id c' = cpu_hart_id c"

lemma frame_simps [simp]:
  "frame c c" "frame c (c'\<lparr>cpu_xregs := x\<rparr>) = frame c c'" "frame c (c'\<lparr>cpu_pc := p\<rparr>) = frame c c'"
  "frame c (c'\<lparr>cpu_state := s\<rparr>) = frame c c'" "frame c (c'\<lparr>cpu_mmu := m\<rparr>) = frame c c'"
  "frame c (c'\<lparr>cpu_priv_mode := v\<rparr>) = frame c c'" "frame c (c'\<lparr>cpu_reservation := r\<rparr>) = frame c c'"
  by (simp_all add: frame_def)

lemma frame_write_back: "frame c c' \<Longrightarrow> frame c (snd (write_back info r c'))"
  by (simp add: write_back_def split: option.splits)

lemma frame_memory:
  "frame c (snd (LoadTypeExec info c))" "frame c (snd (StoreTypeExec info c))"
  "frame c (snd (AmoLrExec info c))" "frame c (snd (AmoScExec info c))"
  by (auto simp: LoadTypeExec_def StoreTypeExec_def AmoLrExec_def AmoScExec_def Let_def frame_write_back
      split: prod.splits elim!: CPU_Load_frame CPU_Store_frame)

lemma frame_amo: "frame c (snd (AmoTypeExec info c))"
  unfolding AmoTypeExec_def snd_if
  by (auto simp: frame_memory Let_def split: prod.splits option.splits elim!: CPU_Load_frame CPU_Store_frame)

lemma frame_integer:
  "frame c (snd (RegTypeExec info c))" "frame c (snd (ImmTypeExec info c))" "frame c (snd (Rv32TypeExec info c))"
  "frame c (snd (Imm32TypeExec info c))" "frame c (snd (LuiTypeExec info c))" "frame c (snd (AuipcTypeExec info c))"
  "frame c (snd (FenceTypeExec info c))" "frame c (snd (JalTypeExec env info c))"
  "frame c (snd (JalrTypeExec env info c))" "frame c (snd (BranchTypeExec env info c))"
  by (simp_all add: RegTypeExec_def ImmTypeExec_def Rv32TypeExec_def Imm32TypeExec_def LuiTypeExec_def
      AuipcTypeExec_def FenceTypeExec_def JalTypeExec_def JalrTypeExec_def BranchTypeExec_def frame_write_back
      check_misalign_instr_def Let_def split: option.splits)

lemma frame_ret: "frame c (snd (MRetExec info c))" "frame c (snd (SRetExec info c))"
  unfolding MRetExec_def SRetExec_def Let_def snd_if by simp_all

lemma frame_csr: "frame c (snd (CsrTypeExec env info c))"
  by (simp add: CsrTypeExec_def Let_def split: option.splits)

lemma frame_sfence: "frame c (snd (SfenceVmaExec info c))" "frame c (snd (ECallExec info c))"
  by (simp_all add: SfenceVmaExec_def CPU_FlushTlb_def ECallExec_def)

lemma frame_system: "frame c (snd (SystemTypeExec env info c))"
  unfolding SystemTypeExec_def snd_if
  by (simp only: frame_csr frame_sfence snd_conv frame_simps frame_ret if_cancel split: if_split) simp

lemma frame_Exec: "frame c (snd (Exec env info c))"
  unfolding Exec_def snd_if
  by (simp only: frame_integer frame_memory frame_amo frame_system snd_conv frame_simps if_cancel split: if_split) simp

lemma frame_trans: "frame c c' \<Longrightarrow> frame c' c'' \<Longrightarrow> frame c c''"
  by (simp add: frame_def)

lemma frame_TickOperate: "frame c (snd (TickOperate env c))"
proof -
  obtain t bs c1 where f: "CPU_Fetch c (cpu_pc c) 4 = (t, bs, c1)" by (rule prod_cases3)
  have "frame c c1" using f by (rule CPU_Fetch_frame) simp
  let ?i = "DecodeInfo_ctor (env_imm env) (env_mem_size env) (le_word bs) (cpu_pc c1)"
  obtain t2 c2 where ex: "Exec env ?i (c1\<lparr>cpu_pc := cpu_pc c1 + ucast (inst_size ?i)\<rparr>) = (t2, c2)" by fastforce
  have "frame c c2"
    using frame_trans [OF _ frame_Exec, of c "c1\<lparr>cpu_pc := cpu_pc c1 + ucast (inst_size ?i)\<rparr>" env ?i]
      \<open>frame c c1\<close> ex by simp
  with f ex \<open>frame c c1\<close> show ?thesis
    by (simp add: TickOperate_def Let_def)
qed

lemma frame_HandleTrap: "frame c (HandleTrap t epc c)"
  by (simp add: HandleTrap_def Let_def)

lemma frame_HandleInterrupt: "frame c (HandleInterrupt a c)"
  using frame_HandleTrap [of c "make_trap (select_interrupt c) (cpu_pc c)" a]
  by (simp add: HandleInterrupt_def Let_def)

lemma State_Read_minstret [simp]: "State_Read (State_Write kCsrMinstret v s) kCsrMinstret = v"
proof -
  have "kCsrMinstret \<notin> csr_special" by (simp add: csr_special_def const_defs)
  then show ?thesis by (simp add: State_Write_ordinary State_Read_def const_defs)
qed

lemma Tick_instret:
  "cpu_instret (CPU_Tick env meip seip msip mtip upd c) = cpu_instret c + 1"
  "State_Read (cpu_state (CPU_Tick env meip seip msip mtip upd c)) kCsrMinstret = cpu_instret c + 1"
proof -
  let ?c0 = "if upd then update_mip meip seip msip mtip c else c"
  obtain t c1 where op: "TickOperate env ?c0 = (t, c1)" by fastforce
  have "frame c ?c0" by (simp add: update_mip_def Let_def)
  from frame_trans [OF this frame_TickOperate [of ?c0 env]] op have "frame c c1" by simp
  then have "frame c (HandleInterrupt (cpu_pc (HandleTrap t (cpu_pc ?c0) c1)) (HandleTrap t (cpu_pc ?c0) c1))"
    using frame_trans [OF frame_trans [OF _ frame_HandleTrap] frame_HandleInterrupt] by blast
  then show "cpu_instret (CPU_Tick env meip seip msip mtip upd c) = cpu_instret c + 1"
    "State_Read (cpu_state (CPU_Tick env meip seip msip mtip upd c)) kCsrMinstret = cpu_instret c + 1"
    by (simp_all add: CPU_Tick_def Let_def op frame_def)
qed

section \<open>Uninitialised members\<close>

lemma TickOperate_indet:
  assumes "env_unit_test env' = env_unit_test env" and "env_guest_ts env' = env_guest_ts env"
  shows "TickOperate env' c = TickOperate env c"
proof -
  have e: "Exec env' i c = Exec env i c" for i c
    unfolding Exec_def BranchTypeExec_def SystemTypeExec_def JalTypeExec_def JalrTypeExec_def
      CsrTypeExec_def check_misalign_instr_def assms ..
  have x: "GetToken w \<noteq> I_UNKNOWN \<Longrightarrow> Exec env' (DecodeInfo_ctor (env_imm env') (env_mem_size env') w a) c =
      Exec env (DecodeInfo_ctor (env_imm env) (env_mem_size env) w a) c" for w a c
    unfolding e by (rule Exec_indet)
  have t: "token (DecodeInfo_ctor j m w a) = GetToken w" "inst_size (DecodeInfo_ctor j m w a) = 4" for j m w a
    by (simp_all add: DecodeInfo_ctor_def)
  show ?thesis
    by (auto simp: TickOperate_def Let_def t x split: prod.splits)
qed

end
