(* ===== verification/Cpu_Traps.thy ===== *)
theory Cpu_Traps
  imports Cpu_Lemmas
begin

text \<open>
  Trap entry and return. The status-register updates of \<^verbatim>\<open>HandleTrap\<close>, \<^verbatim>\<open>MRetExec\<close> and
  \<^verbatim>\<open>SRetExec\<close> go through the masked register write; the lemmas here show that the masks let
  exactly these updates through, which gives the effect of a trap and the round trip of a trap
  and the return from it, for machine and for supervisor mode.
\<close>

section \<open>Register writes on the trap path\<close>

lemma merge_same [simp]: "merge m w w = w"
  by (rule bit_eqI) (simp add: bit_merge)

lemma merge_fset_in:
  assumes "push_bit p (mask n) AND NOT m = 0"
  shows "merge m (fset (p, n) v x) w = fset (p, n) v (merge m x w)"
proof (rule bit_eqI)
  fix i
  have "bit m i" if "p \<le> i" "i < p + n" "i < LENGTH('a)"
    using subset_bit [OF assms, of i] that by (simp add: bit_push_bit_iff bit_mask_iff less_diff_conv2)
  then show "bit (merge m (fset (p, n) v x) w) i = bit (fset (p, n) v (merge m x w)) i"
    by (auto simp: bit_merge bit_fset dest: bit_imp_le_length)
qed

lemma merge_and_same:
  assumes "m AND NOT r = 0"
  shows "merge m (w AND r) w = w"
  using subset_bit [OF assms] by (intro bit_eqI) (auto simp: bit_merge bit_simps)

lemma mstatus_fields_in:
  "push_bit 1 (mask 1) AND NOT mstatus_wmask = 0" "push_bit 3 (mask 1) AND NOT mstatus_wmask = 0"
  "push_bit 5 (mask 1) AND NOT mstatus_wmask = 0" "push_bit 7 (mask 1) AND NOT mstatus_wmask = 0"
  "push_bit 8 (mask 1) AND NOT mstatus_wmask = 0" "push_bit 11 (mask 2) AND NOT mstatus_wmask = 0"
  "push_bit 17 (mask 1) AND NOT mstatus_wmask = 0"
  by code_simp+

lemma sstatus_fields_in:
  "push_bit 1 (mask 1) AND NOT sstatus_wmask = 0" "push_bit 5 (mask 1) AND NOT sstatus_wmask = 0"
  "push_bit 8 (mask 1) AND NOT sstatus_wmask = 0" "sstatus_wmask AND NOT sstatus_rmask = 0"
  by code_simp+

lemmas status_merge = merge_fset_in [OF mstatus_fields_in(1)] merge_fset_in [OF mstatus_fields_in(2)]
  merge_fset_in [OF mstatus_fields_in(3)] merge_fset_in [OF mstatus_fields_in(4)]
  merge_fset_in [OF mstatus_fields_in(5)] merge_fset_in [OF mstatus_fields_in(6)]
  merge_fset_in [OF mstatus_fields_in(7)] merge_fset_in [OF sstatus_fields_in(1)]
  merge_fset_in [OF sstatus_fields_in(2)] merge_fset_in [OF sstatus_fields_in(3)]
  merge_and_same [OF sstatus_fields_in(4)]

lemma State_Read_plain:
  "State_Read s kCsrMepc = csr s kCsrMepc" "State_Read s kCsrMcause = csr s kCsrMcause"
  "State_Read s kCsrMtval = csr s kCsrMtval" "State_Read s kCsrMtvec = csr s kCsrMtvec"
  "State_Read s kCsrSepc = csr s kCsrSepc" "State_Read s kCsrScause = csr s kCsrScause"
  "State_Read s kCsrStval = csr s kCsrStval" "State_Read s kCsrStvec = csr s kCsrStvec"
  "State_Read s kCsrMstatus = csr s kCsrMstatus" "State_Read s kCsrMip = csr s kCsrMip"
  "State_Read s kCsrMie = csr s kCsrMie" "State_Read s kCsrMideleg = csr s kCsrMideleg"
  "State_Read s kCsrMedeleg = csr s kCsrMedeleg" "State_Read s kCsrSatp = csr s kCsrSatp"
  by (simp_all add: State_Read_def const_defs)

lemma State_Write_plain_trap:
  "State_Write kCsrMepc v s = set_csr kCsrMepc v s" "State_Write kCsrMcause v s = set_csr kCsrMcause v s"
  "State_Write kCsrMtval v s = set_csr kCsrMtval v s" "State_Write kCsrSepc v s = set_csr kCsrSepc v s"
  "State_Write kCsrScause v s = set_csr kCsrScause v s" "State_Write kCsrStval v s = set_csr kCsrStval v s"
  by (simp_all add: State_Write_ordinary csr_special_def const_defs)

lemma csr_distinct:
  "kCsrMstatus \<noteq> kCsrMepc" "kCsrMstatus \<noteq> kCsrMcause" "kCsrMstatus \<noteq> kCsrMtval" "kCsrMepc \<noteq> kCsrMcause"
  "kCsrMepc \<noteq> kCsrMtval" "kCsrMcause \<noteq> kCsrMtval" "kCsrMstatus \<noteq> kCsrSepc" "kCsrMstatus \<noteq> kCsrScause"
  "kCsrMstatus \<noteq> kCsrStval" "kCsrSepc \<noteq> kCsrScause" "kCsrSepc \<noteq> kCsrStval" "kCsrScause \<noteq> kCsrStval"
  "kCsrMip \<noteq> kCsrMepc" "kCsrMip \<noteq> kCsrMcause" "kCsrMip \<noteq> kCsrMtval" "kCsrMip \<noteq> kCsrMstatus"
  "kCsrMip \<noteq> kCsrSepc" "kCsrMip \<noteq> kCsrScause" "kCsrMip \<noteq> kCsrStval"
  by (simp_all add: const_defs)

section \<open>Entry\<close>

definition trap_mstatus :: "PrivilegeMode \<Rightarrow> u64 \<Rightarrow> u64" where
  "trap_mstatus mode ms = fset (11, 2) (mode_val mode) (fset (3, 1) 0 (fset (7, 1) (fget (3, 1) ms) ms))"

definition trap_sstatus :: "PrivilegeMode \<Rightarrow> u64 \<Rightarrow> u64" where
  "trap_sstatus mode ms = fset (8, 1) (mode_val mode) (fset (1, 1) 0 (fset (5, 1) (fget (1, 1) ms) ms))"

lemma HandleTrap_machine:
  assumes "trap_type t \<noteq> kNone" and "\<not> trap_to_s (trap_type t) c"
  shows "HandleTrap t epc c = c\<lparr>
    cpu_pc := GetTrapPC (csr (cpu_state c) kCsrMtvec) (kTrapToCauseTable (trap_type t)),
    cpu_priv_mode := kMachine,
    cpu_state := (cpu_state c)\<lparr>csr := (csr (cpu_state c))(kCsrMepc := epc,
      kCsrMcause := cause_bits (trap_type t), kCsrMtval := trap_val t,
      kCsrMstatus := trap_mstatus (cpu_priv_mode c) (csr (cpu_state c) kCsrMstatus))\<rparr>\<rparr>"
  using assms
  by (simp add: HandleTrap_def Let_def State_Read_plain State_Write_plain_trap State_Write_mstatus csr_distinct)
    (simp add: field_defs status_merge [unfolded One_nat_def] trap_mstatus_def)

lemma fget_and_rmask:
  "fget (1, 1) (w AND sstatus_rmask) = fget (1, 1) w"
proof -
  have "bit (w AND sstatus_rmask) 1 = bit w 1" by (simp add: bit_and_iff sstatus_rmask_def)
  then show ?thesis using fget_bit_iff [of 1 "w AND sstatus_rmask"] fget_bit_iff [of 1 w] by simp
qed

lemma HandleTrap_supervisor:
  assumes "trap_type t \<noteq> kNone" and "trap_to_s (trap_type t) c"
  shows "HandleTrap t epc c = c\<lparr>
    cpu_pc := GetTrapPC (csr (cpu_state c) kCsrStvec) (kTrapToCauseTable (trap_type t)),
    cpu_priv_mode := kSupervisor,
    cpu_state := (cpu_state c)\<lparr>csr := (csr (cpu_state c))(kCsrSepc := epc,
      kCsrScause := cause_bits (trap_type t), kCsrStval := trap_val t,
      kCsrMstatus := trap_sstatus (cpu_priv_mode c) (csr (cpu_state c) kCsrMstatus))\<rparr>\<rparr>"
  using assms
  by (simp add: HandleTrap_def Let_def State_Read_plain State_Write_plain_trap State_Write_sstatus
      State_Read_sstatus csr_distinct)
    (simp add: field_defs status_merge [unfolded One_nat_def] trap_sstatus_def fget_and_rmask [unfolded One_nat_def])

section \<open>Return\<close>

lemma fget_mod_2 [simp]: "fget (p, Suc 0) w mod 2 = fget (p, Suc 0) (w :: u64)"
  using fget_bit_cases [of p w] by auto

lemma mode_val_less: "take_bit 2 (mode_val m) = mode_val m"
  by (cases m) simp_all

lemma MRetExec_machine:
  assumes "cpu_priv_mode c = kMachine"
  defines "ms \<equiv> csr (cpu_state c) kCsrMstatus"
  shows "MRetExec info c = (kNoneTrap, c\<lparr>cpu_pc := csr (cpu_state c) kCsrMepc,
    cpu_priv_mode := mode_of (fget (11, 2) ms),
    cpu_state := set_csr kCsrMstatus (fset (17, 1) (if mode_of (fget (11, 2) ms) \<noteq> kMachine then 0 else fget (17, 1) ms)
      (fset (3, 1) (fget (7, 1) ms) (fset (7, 1) 1 (fset (11, 2) 0 ms)))) (cpu_state c)\<rparr>)"
  using assms
  by (simp add: MRetExec_def Let_def mstatus_of_def State_Read_plain State_Write_mstatus csr_distinct
      csr_distinct [THEN not_sym])
    (simp add: field_defs status_merge [unfolded One_nat_def])

lemma SRetExec_supervisor:
  assumes "cpu_priv_mode c \<noteq> kUser" and "fget (22, 1) (csr (cpu_state c) kCsrMstatus) = 0"
  defines "ms \<equiv> csr (cpu_state c) kCsrMstatus"
  shows "SRetExec info c = (kNoneTrap, c\<lparr>cpu_pc := csr (cpu_state c) kCsrSepc,
    cpu_priv_mode := mode_of (fget (8, 1) ms),
    cpu_state := set_csr kCsrMstatus (fset (17, 1) 0
      (fset (1, 1) (fget (5, 1) ms) (fset (5, 1) 1 (fset (8, 1) 0 ms)))) (cpu_state c)\<rparr>)"
proof -
  have "mode_of (fget (8, 1) ms) \<noteq> kMachine"
    using fget_bit_cases [of 8 ms] by (auto simp: mode_of_def)
  then show ?thesis
    using assms
    by (simp add: SRetExec_def Let_def mstatus_of_def State_Read_plain State_Write_mstatus csr_distinct
        csr_distinct [THEN not_sym] field_defs)
      (simp add: field_defs status_merge [unfolded One_nat_def])
qed

text \<open>The bits of the status register a trap and its return may change.\<close>

lemma bit_trap_mstatus:
  "i \<notin> {3, 7, 11, 12} \<Longrightarrow> bit (trap_mstatus m ms) i = bit ms i"
  by (auto simp: trap_mstatus_def bit_fset dest: bit_imp_le_length)

lemma bit_trap_sstatus:
  "i \<notin> {1, 5, 8} \<Longrightarrow> bit (trap_sstatus m ms) i = bit ms i"
  by (auto simp: trap_sstatus_def bit_fset dest: bit_imp_le_length)

text \<open>C7: A trap taken in machine mode records its origin and the way back: the program counter,
  cause and value registers hold what the trap gives them, the previous mode and interrupt
  enable are saved in \<open>mstatus\<close>, machine interrupts are disabled, and the processor continues in
  machine mode at the trap vector. A return with \<open>MRET\<close> then restores the mode, the program
  counter and the interrupt enable; no register, no memory and no other bit of the status register
  (but \<open>mprv\<close>, \<open>mpie\<close> and \<open>mpp\<close>) differs from before the trap.\<close>

theorem trap_then_mret:
  fixes epc :: u64
  assumes "trap_type t \<noteq> kNone" and "\<not> trap_to_s (trap_type t) c"
  defines "c1 \<equiv> HandleTrap t epc c"
  shows "cpu_priv_mode c1 = kMachine \<and>
    cpu_pc c1 = GetTrapPC (State_Read (cpu_state c) kCsrMtvec) (kTrapToCauseTable (trap_type t)) \<and>
    State_Read (cpu_state c1) kCsrMepc = epc \<and> State_Read (cpu_state c1) kCsrMtval = trap_val t \<and>
    State_Read (cpu_state c1) kCsrMcause = cause_bits (trap_type t) \<and>
    mstatus_get ''mie'' (mstatus_of c1) = 0 \<and>
    mstatus_get ''mpie'' (mstatus_of c1) = mstatus_get ''mie'' (mstatus_of c) \<and>
    mstatus_get ''mpp'' (mstatus_of c1) = mode_val (cpu_priv_mode c) \<and>
    (\<exists>c2. MRetExec info c1 = (kNoneTrap, c2) \<and>
       cpu_pc c2 = epc \<and> cpu_priv_mode c2 = cpu_priv_mode c \<and>
       mstatus_get ''mie'' (mstatus_of c2) = mstatus_get ''mie'' (mstatus_of c) \<and>
       (\<forall>i. i \<notin> {7, 11, 12, 17} \<longrightarrow> bit (mstatus_of c2) i = bit (mstatus_of c) i) \<and>
       cpu_xregs c2 = cpu_xregs c \<and> cpu_mmu c2 = cpu_mmu c)"
proof -
  let ?m = "cpu_priv_mode c" and ?ms = "csr (cpu_state c) kCsrMstatus"
  let ?ms1 = "trap_mstatus ?m ?ms"
  note c1 = HandleTrap_machine [OF assms(1,2), of epc, folded c1_def]
  have f: "fget (3, 1) ?ms1 = 0" "fget (7, 1) ?ms1 = fget (3, 1) ?ms" "fget (11, 2) ?ms1 = mode_val ?m"
    by (simp_all add: trap_mstatus_def mode_val_less)
  have s1: "csr (cpu_state c1) kCsrMstatus = ?ms1" "csr (cpu_state c1) kCsrMepc = epc" "cpu_priv_mode c1 = kMachine"
    by (simp_all add: c1 csr_distinct csr_distinct [THEN not_sym])
  let ?ms2 = "fset (17, 1) (if ?m \<noteq> kMachine then 0 else fget (17, 1) ?ms1)
      (fset (3, 1) (fget (3, 1) ?ms) (fset (7, 1) 1 (fset (11, 2) 0 ?ms1)))"
  obtain c2 where c2: "MRetExec info c1 = (kNoneTrap, c2)" and p2: "cpu_pc c2 = epc" "cpu_priv_mode c2 = ?m"
    and ms2: "csr (cpu_state c2) kCsrMstatus = ?ms2" and k2: "cpu_xregs c2 = cpu_xregs c1" "cpu_mmu c2 = cpu_mmu c1"
    using MRetExec_machine [OF s1(3), of info, unfolded s1 f mode_of_val] by simp
  have b: "bit ?ms2 i = bit ?ms i" if "i \<notin> {7, 11, 12, 17}" for i
    using that by (cases "i = 3") (auto simp: bit_fset bit_fget bit_trap_mstatus dest: bit_imp_le_length)
  have "fget (3, 1) ?ms2 = fget (3, 1) ?ms" by simp
  with c2 p2 ms2 k2 b s1 f show ?thesis
    by (simp add: c1 mstatus_of_def State_Read_plain csr_distinct csr_distinct [THEN not_sym] field_defs)
qed

theorem trap_then_mret_witness:
  "\<exists>c2. MRetExec (example_info I_MRET 0 0 0 0) (HandleTrap (make_trap kBreakpoint 0) 0x80000010 (example_cpu kUser 7)) =
     (kNoneTrap, c2) \<and> cpu_pc c2 = 0x80000010 \<and> cpu_priv_mode c2 = kUser"
proof -
  have "\<not> trap_to_s kBreakpoint (example_cpu kUser 7)"
    by (simp add: trap_to_s_def example_cpu_def State_init_def State_Read_plain Let_def) (simp add: const_defs)
  with trap_then_mret [of "make_trap kBreakpoint 0" "example_cpu kUser 7" "0x80000010" "example_info I_MRET 0 0 0 0"]
  have "\<exists>c2. MRetExec (example_info I_MRET 0 0 0 0) (HandleTrap (make_trap kBreakpoint 0) 0x80000010 (example_cpu kUser 7)) =
     (kNoneTrap, c2) \<and> cpu_pc c2 = 0x80000010 \<and> cpu_priv_mode c2 = cpu_priv_mode (example_cpu kUser 7)" by auto
  then show ?thesis by (simp add: example_cpu_def)
qed

text \<open>C8: The same for a trap that is delegated: it is taken in supervisor mode, at the supervisor
  vector, with the supervisor's cause, value and return registers, the previous interrupt enable and
  mode saved in \<open>sstatus\<close> and supervisor interrupts disabled; \<open>SRET\<close> then restores the mode, the
  program counter and the interrupt enable, unless \<open>tsr\<close> makes it illegal.\<close>

theorem trap_then_sret:
  fixes epc :: u64
  assumes "trap_type t \<noteq> kNone" and "trap_to_s (trap_type t) c" and "cpu_priv_mode c \<noteq> kReserved"
    and "mstatus_get ''tsr'' (mstatus_of c) = 0"
  defines "c1 \<equiv> HandleTrap t epc c"
  shows "cpu_priv_mode c1 = kSupervisor \<and>
    cpu_pc c1 = GetTrapPC (State_Read (cpu_state c) kCsrStvec) (kTrapToCauseTable (trap_type t)) \<and>
    State_Read (cpu_state c1) kCsrSepc = epc \<and> State_Read (cpu_state c1) kCsrStval = trap_val t \<and>
    State_Read (cpu_state c1) kCsrScause = cause_bits (trap_type t) \<and>
    mstatus_get ''sie'' (mstatus_of c1) = 0 \<and>
    mstatus_get ''spie'' (mstatus_of c1) = mstatus_get ''sie'' (mstatus_of c) \<and>
    mstatus_get ''spp'' (mstatus_of c1) = mode_val (cpu_priv_mode c) \<and>
    (\<exists>c2. SRetExec info c1 = (kNoneTrap, c2) \<and>
       cpu_pc c2 = epc \<and> cpu_priv_mode c2 = cpu_priv_mode c \<and>
       mstatus_get ''sie'' (mstatus_of c2) = mstatus_get ''sie'' (mstatus_of c) \<and>
       (\<forall>i. i \<notin> {5, 8, 17} \<longrightarrow> bit (mstatus_of c2) i = bit (mstatus_of c) i) \<and>
       cpu_xregs c2 = cpu_xregs c \<and> cpu_mmu c2 = cpu_mmu c)"
proof -
  let ?m = "cpu_priv_mode c" and ?ms = "csr (cpu_state c) kCsrMstatus"
  let ?ms1 = "trap_sstatus ?m ?ms"
  note c1 = HandleTrap_supervisor [OF assms(1,2), of epc, folded c1_def]
  from assms(2,3) have m: "?m = kUser \<or> ?m = kSupervisor" by (cases ?m) (simp_all add: trap_to_s_def)
  have f: "fget (1, 1) ?ms1 = 0" "fget (5, 1) ?ms1 = fget (1, 1) ?ms" "fget (8, 1) ?ms1 = mode_val ?m"
    using m by (auto simp: trap_sstatus_def)
  have tsr: "fget (22, 1) ?ms1 = 0"
    using assms(4) by (simp add: trap_sstatus_def mstatus_of_def State_Read_plain field_defs)
  have s1: "csr (cpu_state c1) kCsrMstatus = ?ms1" "csr (cpu_state c1) kCsrSepc = epc" "cpu_priv_mode c1 = kSupervisor"
    by (simp_all add: c1 csr_distinct csr_distinct [THEN not_sym])
  let ?ms2 = "fset (17, 1) 0 (fset (1, 1) (fget (1, 1) ?ms) (fset (5, 1) 1 (fset (8, 1) 0 ?ms1)))"
  have u: "cpu_priv_mode c1 \<noteq> kUser" and t: "fget (22, 1) (csr (cpu_state c1) kCsrMstatus) = 0"
    using s1 tsr by simp_all
  obtain c2 where c2: "SRetExec info c1 = (kNoneTrap, c2)" and p2: "cpu_pc c2 = epc" "cpu_priv_mode c2 = ?m"
    and ms2: "csr (cpu_state c2) kCsrMstatus = ?ms2" and k2: "cpu_xregs c2 = cpu_xregs c1" "cpu_mmu c2 = cpu_mmu c1"
    using SRetExec_supervisor [OF u t, of info, unfolded s1 f mode_of_val] by simp
  have b: "bit ?ms2 i = bit ?ms i" if "i \<notin> {5, 8, 17}" for i
    using that by (cases "i = 1") (auto simp: bit_fset bit_fget bit_trap_sstatus dest: bit_imp_le_length)
  have "fget (1, 1) ?ms2 = fget (1, 1) ?ms" by simp
  with c2 p2 ms2 k2 b s1 f show ?thesis
    by (simp add: c1 mstatus_of_def State_Read_plain csr_distinct csr_distinct [THEN not_sym] field_defs)
qed

theorem trap_then_sret_witness:
  "\<exists>c c2. cpu_priv_mode c = kUser \<and>
     SRetExec (example_info I_SRET 0 0 0 0) (HandleTrap (make_trap kBreakpoint 0) 0x80000010 c) = (kNoneTrap, c2) \<and>
     cpu_pc c2 = 0x80000010 \<and> cpu_priv_mode c2 = kUser"
proof -
  obtain c where c: "c = (example_cpu kUser 7)\<lparr>cpu_state := set_csr kCsrMedeleg 8 State_init\<rparr>" by simp
  have m: "cpu_priv_mode c = kUser" by (simp add: example_cpu_def c)
  have s: "trap_to_s kBreakpoint c" by (simp add: trap_to_s_def m) (simp add: c State_Read_plain)
  have "kCsrMstatus \<noteq> kCsrMedeleg" by (simp add: const_defs)
  moreover have "mstatus_get ''tsr'' (csr State_init kCsrMstatus) = 0"
    by (simp add: State_init_def Let_def) (simp add: field_defs)
  ultimately have t: "mstatus_get ''tsr'' (mstatus_of c) = 0"
    by (simp add: mstatus_of_def State_Read_plain c)
  from trap_then_sret [of "make_trap kBreakpoint 0" c "0x80000010" "example_info I_SRET 0 0 0 0"] s m t
  show ?thesis by auto
qed

end
