(* ===== verification/Cpu_Props.thy ===== *)
theory Cpu_Props
  imports Cpu_Traps
begin

text \<open>
  Properties of the cycle: interrupts are taken only when pending, enabled and not masked, the
  highest ranked first; machine-level interrupts are always taken when they may be; a waiting
  processor stands still until an interrupt is pending; and the invariants of every
  reachable state.
\<close>

section \<open>Interrupt selection\<close>

lemma ranked_not_None [simp]: "kNone \<notin> set kRankedIrqs"
  by (simp add: kRankedIrqs_def)

lemma InterruptBitsToTrap_spec:
  assumes "InterruptBitsToTrap b = t" and "t \<noteq> kNone"
  obtains us vs where "kRankedIrqs = us @ t # vs" and "bit b (unat (kTrapToCauseTable t))"
    and "\<forall>u \<in> set us. \<not> bit b (unat (kTrapToCauseTable u))"
proof -
  from first_irq_spec [OF assms(1) [unfolded InterruptBitsToTrap_def] ranked_not_None assms(2)]
  obtain us vs where *: "kRankedIrqs = us @ t # vs" "TrapToMask t AND b \<noteq> 0" "\<forall>u \<in> set us. TrapToMask u AND b = 0"
    by blast
  from *(1) have "u \<noteq> kNone" if "u \<in> set us" for u using that ranked_not_None by (metis Un_iff set_append)
  with * assms(2) show ?thesis using TrapToMask_bit by (intro that [of us vs]) metis+
qed

lemma TrapToMask_deleg: "t \<noteq> kNone \<Longrightarrow> TrapToMask t AND w = 0 \<longleftrightarrow> \<not> bit w (unat (kTrapToCauseTable t))"
  using TrapToMask_bit [of t w] by blast

definition irq_bits :: "cpu \<Rightarrow> u64" where
  "irq_bits c = State_Read (cpu_state c) kCsrMip AND State_Read (cpu_state c) kCsrMie"

definition delegated :: "cpu \<Rightarrow> TrapType \<Rightarrow> bool" where
  "delegated c t \<longleftrightarrow> bit (State_Read (cpu_state c) kCsrMideleg) (unat (kTrapToCauseTable t))"

definition pending :: "cpu \<Rightarrow> TrapType \<Rightarrow> bool" where
  "pending c t \<longleftrightarrow> bit (irq_bits c) (unat (kTrapToCauseTable t))"

lemma select_interrupt_machine:
  assumes "cpu_priv_mode c = kMachine"
  shows "select_interrupt c =
    (if mstatus_get ''mie'' (mstatus_of c) \<noteq> 0
     then InterruptBitsToTrap (irq_bits c AND NOT (State_Read (cpu_state c) kCsrMideleg)) else kNone)"
proof -
  have "InterruptBitsToTrap 0 = kNone" by (simp add: InterruptBitsToTrap_def first_irq_None)
  then show ?thesis using assms by (auto simp: select_interrupt_def irq_bits_def mstatus_of_def Let_def)
qed

lemma select_interrupt_lower:
  assumes "cpu_priv_mode c \<noteq> kMachine"
  defines "t \<equiv> InterruptBitsToTrap (irq_bits c)"
  shows "select_interrupt c =
    (if t \<noteq> kNone \<and> delegated c t \<and> mstatus_get ''sie'' (mstatus_of c) = 0 \<and> cpu_priv_mode c \<noteq> kUser
     then kNone else t)"
proof (cases "t = kNone")
  case True
  then show ?thesis using assms
    by (auto simp: select_interrupt_def irq_bits_def mstatus_of_def Let_def)
next
  case False
  then show ?thesis using assms(1) TrapToMask_deleg [OF False, of "State_Read (cpu_state c) kCsrMideleg"]
    unfolding t_def
    by (auto simp: select_interrupt_def irq_bits_def mstatus_of_def Let_def delegated_def)
qed

text \<open>C14: The interrupt taken is one of the six, it is pending and enabled, it is not masked (a
  delegated interrupt is never taken in machine mode and in supervisor mode only under \<open>sie\<close>, a
  non-delegated one in machine mode only under \<open>mie\<close>), and no interrupt ranked above it is pending,
  except delegated ones while the processor is in machine mode.\<close>

theorem interrupt_allowed:
  assumes "select_interrupt c = t" and "t \<noteq> kNone"
  shows "\<exists>us vs. kRankedIrqs = us @ t # vs \<and> pending c t \<and>
    (if delegated c t
     then cpu_priv_mode c \<noteq> kMachine \<and> (cpu_priv_mode c = kUser \<or> mstatus_get ''sie'' (mstatus_of c) \<noteq> 0)
     else cpu_priv_mode c \<noteq> kMachine \<or> mstatus_get ''mie'' (mstatus_of c) \<noteq> 0) \<and>
    (\<forall>u \<in> set us. \<not> pending c u \<or> (cpu_priv_mode c = kMachine \<and> delegated c u))"
proof (cases "cpu_priv_mode c = kMachine")
  case True
  from assms select_interrupt_machine [OF True] have mie: "mstatus_get ''mie'' (mstatus_of c) \<noteq> 0"
    and t: "InterruptBitsToTrap (irq_bits c AND NOT (State_Read (cpu_state c) kCsrMideleg)) = t"
    by (auto split: if_splits)
  from InterruptBitsToTrap_spec [OF t assms(2)] obtain us vs where *: "kRankedIrqs = us @ t # vs"
    "bit (irq_bits c AND NOT (State_Read (cpu_state c) kCsrMideleg)) (unat (kTrapToCauseTable t))"
    "\<forall>u \<in> set us. \<not> bit (irq_bits c AND NOT (State_Read (cpu_state c) kCsrMideleg)) (unat (kTrapToCauseTable u))" .
  have "unat (kTrapToCauseTable u) < 64" for u using cause_bound [of u] by linarith
  with * mie True show ?thesis
    by (intro exI [of _ us] exI [of _ vs]) (auto simp: pending_def delegated_def bit_and_iff bit_not_iff)
next
  case False
  from assms select_interrupt_lower [OF False] have t: "InterruptBitsToTrap (irq_bits c) = t"
    and d: "delegated c t \<longrightarrow> mstatus_get ''sie'' (mstatus_of c) \<noteq> 0 \<or> cpu_priv_mode c = kUser"
    by (auto split: if_splits)
  from InterruptBitsToTrap_spec [OF t assms(2)] False d show ?thesis
    by (metis pending_def)
qed

definition example_irq :: cpu where
  "example_irq = (example_cpu kUser 7)\<lparr>cpu_state := set_csr kCsrMip 0x80 (set_csr kCsrMie 0x80 State_init)\<rparr>"

lemma example_irq_bits: "irq_bits example_irq = 0x80" "cpu_priv_mode example_irq = kUser"
  by (simp_all add: irq_bits_def example_irq_def State_Read_plain example_cpu_def)

lemma example_irq_selected: "select_interrupt example_irq = kMachineTimerInterrupt"
  by (simp add: select_interrupt_lower example_irq_bits InterruptBitsToTrap_def kRankedIrqs_def TrapToMask_def)

theorem interrupt_allowed_witness: "pending example_irq kMachineTimerInterrupt"
  using interrupt_allowed [OF example_irq_selected] by auto

section \<open>Machine-level interrupts\<close>

abbreviation machine_irqs :: "TrapType set" where
  "machine_irqs \<equiv> {kMachineExternalInterrupt, kMachineSoftwareInterrupt, kMachineTimerInterrupt}"

lemma machine_irq_first:
  assumes "t \<in> machine_irqs" and "bit b (unat (kTrapToCauseTable t))"
  shows "InterruptBitsToTrap b \<in> machine_irqs"
proof -
  note m = TrapToMask_deleg [of kMachineExternalInterrupt b] TrapToMask_deleg [of kMachineSoftwareInterrupt b]
    TrapToMask_deleg [of kMachineTimerInterrupt b]
  show ?thesis using assms m by (auto simp: InterruptBitsToTrap_def kRankedIrqs_def)
qed

lemma machine_irq_not_delegated:
  assumes "csr_wf (cpu_state c)" and "t \<in> machine_irqs"
  shows "\<not> delegated c t"
proof
  assume "delegated c t"
  then have "bit (csr (cpu_state c) kCsrMideleg) (unat (kTrapToCauseTable t))"
    by (simp add: delegated_def State_Read_plain)
  with subset_bit [of "csr (cpu_state c) kCsrMideleg" kCsrSInterruptMask] assms(1)
  have "bit kCsrSInterruptMask (unat (kTrapToCauseTable t))" by (simp add: csr_wf_def)
  with assms(2) show False by (auto simp: const_defs)
qed

lemma trap_to_s_irq: "is_interrupt t \<Longrightarrow> trap_to_s t c \<longleftrightarrow> cpu_priv_mode c \<noteq> kMachine \<and> delegated c t"
  by (simp only: trap_to_s_def delegated_def if_True and.commute [of _ "push_bit _ 1"] and_single_bit)

lemma machine_irq_selected:
  assumes wf: "csr_wf (cpu_state c)" and t: "t \<in> machine_irqs" "pending c t"
    and on: "cpu_priv_mode c \<noteq> kMachine \<or> mstatus_get ''mie'' (mstatus_of c) \<noteq> 0"
  shows "select_interrupt c \<in> machine_irqs"
proof (cases "cpu_priv_mode c = kMachine")
  case True
  have "bit (irq_bits c AND NOT (State_Read (cpu_state c) kCsrMideleg)) (unat (kTrapToCauseTable t))"
    using t machine_irq_not_delegated [OF wf t(1)] by (auto simp: pending_def delegated_def bit_and_iff bit_not_iff)
  from machine_irq_first [OF t(1) this] on True show ?thesis by (simp add: select_interrupt_machine)
next
  case False
  from t have m: "InterruptBitsToTrap (irq_bits c) \<in> machine_irqs"
    by (intro machine_irq_first [OF t(1)]) (simp add: pending_def)
  with machine_irq_not_delegated [OF wf m] False show ?thesis by (simp add: select_interrupt_lower)
qed

lemma HandleInterrupt_machine:
  fixes a :: u64
  assumes "select_interrupt c = u" and "u \<noteq> kNone" and "is_interrupt u" and "\<not> delegated c u"
  defines "c' \<equiv> HandleInterrupt a c"
  shows "cpu_priv_mode c' = kMachine" and "cpu_pc c' = GetTrapPC (csr (cpu_state c) kCsrMtvec) (kTrapToCauseTable u)"
    and "csr (cpu_state c') kCsrMepc = a" and "csr (cpu_state c') kCsrMcause = cause_bits u"
    and "\<not> bit (csr (cpu_state c') kCsrMip) (unat (kTrapToCauseTable u))" and "\<not> GetWfi (cpu_state c')"
proof -
  have "unat (kTrapToCauseTable u) < 64" using cause_bound [of u] by linarith
  then have bu: "bit (TrapToMask u) (unat (kTrapToCauseTable u))"
    using assms(2) by (simp add: TrapToMask_def bit_exp_iff)
  then have m: "TrapToMask u \<noteq> 0" by auto
  have "\<not> trap_to_s u c" using assms by (simp add: trap_to_s_irq)
  note h = HandleTrap_machine [of "make_trap u (cpu_pc c)" c a, simplified, OF assms(2) this]
  have b: "\<not> bit ((w AND NOT (TrapToMask u)) AND k) (unat (kTrapToCauseTable u))" for w k
    using bu by (simp add: bit_and_iff bit_not_iff)
  show "cpu_priv_mode c' = kMachine" "cpu_pc c' = GetTrapPC (csr (cpu_state c) kCsrMtvec) (kTrapToCauseTable u)"
    "csr (cpu_state c') kCsrMepc = a" "csr (cpu_state c') kCsrMcause = cause_bits u" "\<not> GetWfi (cpu_state c')"
    using m by (simp_all add: c'_def HandleInterrupt_def assms(1) h Let_def State_Write_masked SetWfi_def GetWfi_def
        csr_distinct csr_distinct [THEN not_sym])
  show "\<not> bit (csr (cpu_state c') kCsrMip) (unat (kTrapToCauseTable u))"
    using m b by (simp add: c'_def HandleInterrupt_def assms(1) h Let_def State_Write_masked SetWfi_def)
qed



section \<open>Waiting for an interrupt\<close>

lemma select_interrupt_0: "irq_bits c = 0 \<Longrightarrow> select_interrupt c = kNone"
proof -
  have "InterruptBitsToTrap 0 = kNone" by (simp add: InterruptBitsToTrap_def first_irq_None)
  then show "irq_bits c = 0 \<Longrightarrow> ?thesis"
    by (cases "cpu_priv_mode c = kMachine") (simp_all add: select_interrupt_machine select_interrupt_lower)
qed

lemma HandleTrap_None [simp]: "trap_type t = kNone \<Longrightarrow> HandleTrap t epc c = c"
  by (simp add: HandleTrap_def)

lemma mip_write_back: "csr_wf s \<Longrightarrow> State_Write kCsrMip (State_Read s kCsrMip) s = s"
proof -
  assume "csr_wf s"
  then have "csr s kCsrMip AND NOT kCsrMInterruptMask = 0" by (simp add: csr_wf_def)
  then have "csr s kCsrMip AND kCsrMInterruptMask = csr s kCsrMip" by (metis merge_absorb merge_same)
  then show ?thesis by (simp add: State_Write_masked State_Read_plain)
qed

lemma HandleInterrupt_None:
  assumes "csr_wf (cpu_state c)" and "select_interrupt c = kNone"
  shows "HandleInterrupt a c = c"
  using assms by (simp add: HandleInterrupt_def Let_def TrapToMask_def mip_write_back)

lemma HandleTrap_wfi: "GetWfi (cpu_state (HandleTrap t epc c)) = GetWfi (cpu_state c)"
  by (simp add: HandleTrap_def Let_def GetWfi_def)

lemma HandleInterrupt_wfi: "\<not> GetWfi (cpu_state c) \<Longrightarrow> \<not> GetWfi (cpu_state (HandleInterrupt a c))"
  using HandleTrap_wfi [of "make_trap (select_interrupt c) (cpu_pc c)" a c]
  by (simp add: HandleInterrupt_def Let_def GetWfi_def SetWfi_def)

text \<open>C33: A processor that waits for an interrupt stands still: while nothing enabled is pending a
  cycle only counts (program counter, registers, memory, mode and all control registers but the
  counter are unchanged and it still waits), and the first cycle in which an enabled interrupt is
  pending ends the wait.\<close>

theorem wfi_waits:
  assumes "csr_wf (cpu_state c)" and "GetWfi (cpu_state c)"
  shows "if irq_bits c = 0
    then CPU_Tick0 env c = c\<lparr>cpu_instret := cpu_instret c + 1,
           cpu_state := State_Write kCsrMinstret (cpu_instret c + 1) (cpu_state c)\<rparr>
    else \<not> GetWfi (cpu_state (CPU_Tick0 env c))"
proof (cases "irq_bits c = 0")
  case True
  then have "TickOperate env c = (kNoneTrap, c)"
    using assms(2) by (simp add: TickOperate_def irq_bits_def and.commute Let_def)
  moreover have "HandleInterrupt (cpu_pc c) c = c"
    using assms(1) True by (simp add: HandleInterrupt_None select_interrupt_0)
  ultimately show ?thesis using True by (simp add: CPU_Tick0_def CPU_Tick_def Let_def)
next
  case False
  let ?c1 = "c\<lparr>cpu_state := SetWfi False (cpu_state c)\<rparr>"
  have "TickOperate env c = (kNoneTrap, ?c1)"
    using assms(2) False by (simp add: TickOperate_def irq_bits_def and.commute Let_def)
  moreover have "\<not> GetWfi (cpu_state (HandleInterrupt (cpu_pc ?c1) ?c1))"
    by (rule HandleInterrupt_wfi) (simp add: GetWfi_def SetWfi_def)
  ultimately show ?thesis using False by (simp add: CPU_Tick0_def CPU_Tick_def Let_def GetWfi_def)
qed

theorem wfi_waits_witness:
  "cpu_pc (CPU_Tick0 example_env (example_m\<lparr>cpu_state := SetWfi True State_init\<rparr>)) = 0x80000000"
proof -
  let ?c = "example_m\<lparr>cpu_state := SetWfi True State_init\<rparr>"
  have "csr_wf (cpu_state ?c)" by (simp add: csr_wf_init)
  moreover have "GetWfi (cpu_state ?c)" by (simp add: GetWfi_def SetWfi_def)
  moreover have "irq_bits ?c = 0"
    by (simp add: irq_bits_def State_Read_plain SetWfi_def State_init_def Let_def) (simp add: const_defs)
  ultimately show ?thesis using wfi_waits [of ?c example_env] by (simp add: example_cpu_def)
qed

section \<open>Every reachable state\<close>

text \<open>C9: In every state a processor can reach from construction, by any number of cycles with any
  instructions and interrupt lines, resets and changes of the program counter, register \<open>x0\<close> is
  zero, the control registers keep their read-only and reserved bits, the TLB has its two entries with
  a valid victim index and every device keeps its invariant. If every mounted device takes accesses of
  eight bytes, no access has ever left the storage of its device.\<close>

theorem cpu_reachable_wf:
  assumes "cpu_reach (CPU h (Sv39 b)) c" and "bus_wf b"
  shows "xreg c 0 = 0 \<and> csr_wf (cpu_state c) \<and> length (sv39_tlb (cpu_mmu c)) = 2 \<and>
    sv39_index (cpu_mmu c) < 2 \<and> bus_wf (cpu_bus c) \<and>
    (bus_width b = 8 \<and> bus_need b \<le> 8 \<longrightarrow> \<not> sv39_ub (cpu_mmu c))"
proof -
  have x0: "xreg (CPU h (Sv39 b)) 0 = 0" by (simp add: CPU_def)
  note r = cpu_reach_inv [OF assms(1) cpu_inv_init [OF assms(2)] x0]
  from r [of False] have "cpu_inv False (shape_of b) c" "xreg c 0 = 0" by simp_all
  moreover have "\<not> sv39_ub (cpu_mmu c)" if "bus_width b = 8 \<and> bus_need b \<le> 8"
    using r [of True] that by (simp add: cpu_inv_def sv39_inv_def)
  ultimately show ?thesis by (simp add: cpu_inv_def sv39_inv_def const_defs)
qed

theorem cpu_reachable_wf_witness:
  "xreg (CPU_Tick example_env True False False True True (CPU 0 (Sv39 bus_example))) 0 = 0"
proof -
  have "cpu_reach (CPU 0 (Sv39 bus_example)) (CPU_Tick example_env True False False True True (CPU 0 (Sv39 bus_example)))"
    by (rule cpu_reach.step [OF cpu_reach.start cpu_step.tick])
  from cpu_reachable_wf [OF this bus_example_wf] show ?thesis by simp
qed

text \<open>Every cycle counts: the instruction counter and the control register \<open>minstret\<close> advance by
  exactly one per cycle, whatever the instruction did to them, and trapping or waiting cycles count.\<close>

theorem every_cycle_counts:
  "cpu_instret (CPU_Tick env meip seip msip mtip upd c) = cpu_instret c + 1 \<and>
   State_Read (cpu_state (CPU_Tick env meip seip msip mtip upd c)) kCsrMinstret = cpu_instret c + 1"
  by (simp add: Tick_instret)

text \<open>C39: The members of the decoded instruction that its constructor leaves uninitialised never
  influence the machine: a cycle does the same whatever they hold.\<close>

theorem cycle_ignores_uninitialised:
  "CPU_Tick (env\<lparr>env_imm := i, env_mem_size := m\<rparr>) meip seip msip mtip upd c =
   CPU_Tick env meip seip msip mtip upd c"
proof -
  have "TickOperate (env\<lparr>env_imm := i, env_mem_size := m\<rparr>) = TickOperate env"
    by (rule ext, rule TickOperate_indet) simp_all
  then show ?thesis by (simp add: CPU_Tick_def)
qed

end
