(* ===== verification/Cpu_Run.thy ===== *)
theory Cpu_Run
  imports Cpu_Props Encode
begin

text \<open>
  Fetch, decode and execute put together: one cycle of the processor on an instruction word
  that lies in memory, in the encoding of the manual.
\<close>

lemma isa_formats:
  "list_all (\<lambda>(t, f, b). (b AND 0x7f = 0x13 \<longrightarrow> f \<in> {FmtI, FmtShamt6}) \<and> (b AND 0x7f = 0x33 \<longrightarrow> f = FmtR) \<and>
     ucast (b AND 0x7f) = token_op t) isa_table"
  by (simp add: isa_table_def fixed_def token_op_def const_defs)

lemma isa_format_imm:
  assumes "map_of isa_table t = Some (f, b)"
  shows "token_op t = kImm \<Longrightarrow> f \<in> {FmtI, FmtShamt6}" and "token_op t = kReg \<Longrightarrow> f = FmtR"
proof -
  from map_of_SomeD [OF assms] isa_formats have *: "b AND 0x7f = 0x13 \<longrightarrow> f \<in> {FmtI, FmtShamt6}"
    "b AND 0x7f = 0x33 \<longrightarrow> f = FmtR" "ucast (b AND 0x7f) = token_op t" by (auto simp: list_all_iff)
  have "(b AND 0x7f) AND 0x7f = b AND 0x7f" by (simp add: and.assoc)
  from ucast_opcode [OF this] *(3) have b: "b AND 0x7f = ucast (token_op t)" by simp
  show "token_op t = kImm \<Longrightarrow> f \<in> {FmtI, FmtShamt6}" and "token_op t = kReg \<Longrightarrow> f = FmtR"
    using *(1,2) b by (simp_all add: const_defs)
qed

text \<open>A fetch on physical addresses.\<close>

lemma CPU_Fetch_phys:
  assumes "cpu_priv_mode c = kMachine \<or> satp_get ''mode'' (State_Read (cpu_state c) kCsrSatp) = 0"
    and "Bus_Load (cpu_bus c) a n = Done (bs, b)"
  shows "CPU_Fetch c a n = (kNoneTrap, bs, set_bus b c)"
  using assms by (simp add: CPU_Fetch_def Mmu_Fetch_def Let_def phys_load_def Sv39_Load_def)

text \<open>The cycle of an instruction that only writes its destination register.\<close>

lemma Tick_alu:
  fixes env :: env
  assumes inv: "cpu_inv safe sh c" and wfi: "\<not> GetWfi (cpu_state c)" and irq: "irq_bits c = 0"
    and fetch: "CPU_Fetch c (cpu_pc c) 4 = (kNoneTrap, bs, c)"
  defines "info \<equiv> DecodeInfo_ctor (env_imm env) (env_mem_size env) (le_word bs) (cpu_pc c)"
  assumes ex: "Exec env info (c\<lparr>cpu_pc := cpu_pc c + 4\<rparr>) =
      (kNoneTrap, set_xreg d v (c\<lparr>cpu_pc := cpu_pc c + 4\<rparr>))"
    and known: "token info \<noteq> I_UNKNOWN"
  shows "CPU_Tick0 env c = c\<lparr>cpu_pc := cpu_pc c + 4, cpu_xregs := (cpu_xregs c)(d := v, 0 := 0),
    cpu_instret := cpu_instret c + 1, cpu_state := State_Write kCsrMinstret (cpu_instret c + 1) (cpu_state c)\<rparr>"
proof -
  let ?c1 = "c\<lparr>cpu_pc := cpu_pc c + 4, cpu_xregs := (cpu_xregs c)(d := v, 0 := 0)\<rparr>"
  have "inst_size info = 4" by (simp add: info_def DecodeInfo_ctor_def)
  then have "TickOperate env c = (kNoneTrap, ?c1)"
    using wfi fetch ex known by (simp add: TickOperate_def Let_def info_def)
  moreover have "HandleInterrupt (cpu_pc ?c1) ?c1 = ?c1"
    using inv irq by (intro HandleInterrupt_None select_interrupt_0) (simp_all add: cpu_inv_def irq_bits_def)
  ultimately show ?thesis by (simp add: CPU_Tick0_def CPU_Tick_def Let_def)
qed

text \<open>Fetch, decode and execute together: if the program counter points at the manual's encoding
  of a register-register or register-immediate instruction in memory and no interrupt is pending, one
  cycle writes exactly the result of that operation on the source registers to the destination register
  (unless it is \<open>x0\<close>), advances the program counter by four, counts the instruction and changes
  nothing else.\<close>

theorem cycle_executes_instruction:
  assumes inv: "cpu_inv safe sh c" and wfi: "\<not> GetWfi (cpu_state c)" and irq: "irq_bits c = 0"
    and phys: "cpu_priv_mode c = kMachine \<or> satp_get ''mode'' (State_Read (cpu_state c) kCsrSatp) = 0"
    and mem: "Bus_Load (cpu_bus c) (cpu_pc c) 4 = Done (le_bytes 4 w, cpu_bus c)"
    and isa: "map_of isa_table t = Some (f, b)" and regs: "unat d < 32" "unat s1 < 32" "unat s2 < 32" and im: "imm_ok f i"
    and w: "encode t (ucast d) (ucast s1) (ucast s2) i = Some w"
    and v: "token_op t = kImm \<and> imm_val t (xreg c s1) i = Some v \<or>
      token_op t = kReg \<and> reg_val t (xreg c s1) (xreg c s2) = Some v"
  shows "CPU_Tick0 env c = c\<lparr>cpu_pc := cpu_pc c + 4, cpu_xregs := (cpu_xregs c)(d := v, 0 := 0),
    cpu_instret := cpu_instret c + 1, cpu_state := State_Write kCsrMinstret (cpu_instret c + 1) (cpu_state c)\<rparr>"
proof -
  let ?i = "DecodeInfo_ctor (env_imm env) (env_mem_size env) w (cpu_pc c)" and ?c = "c\<lparr>cpu_pc := cpu_pc c + 4\<rparr>"
  note dec = decode_encode_fields [OF isa regs im w, of "env_imm env" "env_mem_size env" "cpu_pc c"]
  have lw: "le_word (le_bytes 4 w) = w" by (simp add: le_word_le_bytes take_bit_word_eq_self)
  have fetch: "CPU_Fetch c (cpu_pc c) 4 = (kNoneTrap, le_bytes 4 w, c)"
    using CPU_Fetch_phys [OF phys mem] by simp
  have "t \<noteq> I_UNKNOWN" using map_of_SomeD [OF isa] isa_table_tokens by (auto simp: list_all_iff)
  then have known: "token (DecodeInfo_ctor (env_imm env) (env_mem_size env) (le_word (le_bytes 4 w)) (cpu_pc c)) \<noteq> I_UNKNOWN"
    using dec(1) by (simp add: lw)
  have "Exec env ?i ?c = (kNoneTrap, set_xreg d v ?c)"
    using v
  proof (elim disjE conjE)
    assume o: "token_op t = kImm" and r: "imm_val t (xreg c s1) i = Some v"
    with isa_format_imm(1) [OF isa] dec show ?thesis by (auto simp: Exec_op(2) ImmTypeExec_def write_back_Some)
  next
    assume o: "token_op t = kReg" and r: "reg_val t (xreg c s1) (xreg c s2) = Some v"
    with isa_format_imm(2) [OF isa] dec show ?thesis by (auto simp: Exec_op(1) RegTypeExec_def write_back_Some)
  qed
  then show ?thesis using Tick_alu [OF inv wfi irq fetch _ known] by (simp only: lw)
qed

text \<open>A processor with \<open>ADDI x1, x2, -5\<close> in its memory and 7 in its registers.\<close>

definition example_run :: cpu where
  "example_run = set_bus \<lparr>bus_device = [\<lparr>node_base = 0x80000000, node_size = 4,
     node_dev = DevDram \<lparr>dram_size = 4, dram_memory = [0x93, 0x00, 0xb1, 0xff]\<rparr>\<rparr>]\<rparr> (example_cpu kMachine 7)"

theorem cycle_executes_instruction_witness:
  "xreg (CPU_Tick0 example_env example_run) 1 = 2 \<and> cpu_pc (CPU_Tick0 example_env example_run) = 0x80000004"
proof -
  have s: "cpu_state example_run = State_init" "cpu_priv_mode example_run = kMachine" "cpu_pc example_run = 0x80000000"
    "xreg example_run 2 = 7" by (simp_all add: example_run_def example_cpu_def)
  have inv: "cpu_inv False (shape_of (cpu_bus example_run)) example_run"
    using example_inv by (simp add: cpu_inv_def s csr_wf_init sv39_inv_def example_run_def example_cpu_def bus_wf_def
        node_wf_def dram_wf_def)
  have wfi: "\<not> GetWfi (cpu_state example_run)" by (simp add: s GetWfi_def State_init_def Let_def)
  have irq: "irq_bits example_run = 0"
    by (simp add: irq_bits_def s State_Read_plain State_init_def Let_def) (simp add: const_defs)
  have lw: "le_bytes 4 (0xffb10093 :: u32) = [0x93, 0x00, 0xb1, 0xff]" by code_simp
  have bus: "cpu_bus example_run = \<lparr>bus_device = [\<lparr>node_base = 0x80000000, node_size = 4,
     node_dev = DevDram \<lparr>dram_size = 4, dram_memory = [0x93, 0x00, 0xb1, 0xff]\<rparr>\<rparr>]\<rparr>"
    by (simp add: example_run_def)
  have mem: "Bus_Load (cpu_bus example_run) (cpu_pc example_run) 4 = Done (le_bytes 4 (0xffb10093 :: u32), cpu_bus example_run)"
    unfolding lw bus s by code_simp
  have isa: "map_of isa_table I_ADDI = Some (FmtI, fixed 0x13 0 0)" by (simp add: isa_table_def)
  have i: "imm_ok FmtI (- 5)" by code_simp
  have w: "encode I_ADDI (ucast (1 :: u8)) (ucast (2 :: u8)) (ucast (0 :: u8)) (- 5) = Some 0xffb10093"
    by (simp add: encode_def isa) code_simp
  have "scast (- 5 :: u32) = (- 5 :: u64)" by code_simp
  then have v: "token_op I_ADDI = kImm \<and> imm_val I_ADDI (xreg example_run 2) (- 5) = Some 2"
    by (simp add: token_op_def imm_val_def s)
  from cycle_executes_instruction [OF inv wfi irq _ mem isa _ _ _ i w, of 2 example_env] v s show ?thesis by simp
qed

end
