(* ===== verification/Lru.thy ===== *)
theory Lru
  imports Rv_Prelude
begin

text \<open>
  The class template \<^verbatim>\<open>LRUCache\<close> (\<^verbatim>\<open>include/libs/lru.hpp\<close>). A node of the \<^verbatim>\<open>std::list\<close> has an
  identity, which is what the iterators in \<^verbatim>\<open>cache_\<close> denote and what \<^verbatim>\<open>splice\<close> preserves; \<open>lru_next\<close> is
  the identity of the next allocated node. \<^verbatim>\<open>back\<close> and \<^verbatim>\<open>prev\<close> on an empty list are undefined, which
  is the value \<open>Stray\<close>.

  The specification is the list of the cached pairs, most recently used first. The lemmas show
  that the cache implements it as long as an update of a present key does not meet a full cache.
\<close>

section \<open>The class\<close>

record ('k, 'v) lru =
  lru_capacity :: u64
  lru_cur_size :: u64
  lru_hit_count :: u64
  lru_miss_count :: u64
  lru_kv_node :: "(nat \<times> 'k \<times> 'v) list"
  lru_cache :: "'k \<Rightarrow> nat option"
  lru_next :: nat

definition LRUCache :: "u64 \<Rightarrow> ('k, 'v) lru" where
  "LRUCache capacity =
     \<lparr>lru_capacity = capacity, lru_cur_size = 0, lru_hit_count = 0, lru_miss_count = 0,
      lru_kv_node = [], lru_cache = (\<lambda>_. None), lru_next = 0\<rparr>"

text \<open>\<^verbatim>\<open>kv_node_.splice(kv_node_.begin(), kv_node_, it)\<close>.\<close>

definition splice_front :: "nat \<Rightarrow> (nat \<times> 'k \<times> 'v) list \<Rightarrow> (nat \<times> 'k \<times> 'v) list" where
  "splice_front n ns = filter (\<lambda>x. fst x = n) ns @ filter (\<lambda>x. fst x \<noteq> n) ns"

fun set_front :: "'k \<Rightarrow> 'v \<Rightarrow> (nat \<times> 'k \<times> 'v) list \<Rightarrow> (nat \<times> 'k \<times> 'v) list" where
  "set_front k v [] = []"
| "set_front k v ((n, _, _) # ns) = (n, k, v) # ns"

fun set_front_value :: "'v \<Rightarrow> (nat \<times> 'k \<times> 'v) list \<Rightarrow> (nat \<times> 'k \<times> 'v) list" where
  "set_front_value v [] = []"
| "set_front_value v ((n, k, _) # ns) = (n, k, v) # ns"

definition lru_Get :: "'k \<Rightarrow> ('k, 'v) lru \<Rightarrow> ('v option \<times> ('k, 'v) lru)" where
  "lru_Get key l =
     (case lru_cache l key of
        None \<Rightarrow> (None, l\<lparr>lru_miss_count := lru_miss_count l + 1\<rparr>)
      | Some n \<Rightarrow>
          let ns = splice_front n (lru_kv_node l)
          in (Some (snd (snd (hd ns))),
              l\<lparr>lru_hit_count := lru_hit_count l + 1, lru_kv_node := ns,
                lru_cache := (lru_cache l)(key := Some (fst (hd ns)))\<rparr>))"

text \<open>The update of a present key, which the two halves of \<^verbatim>\<open>Set\<close> share.\<close>

definition lru_touch :: "'k \<Rightarrow> 'v \<Rightarrow> nat \<Rightarrow> ('k, 'v) lru \<Rightarrow> ('k, 'v) lru" where
  "lru_touch key value n l =
     (let ns = splice_front n (lru_kv_node l)
      in l\<lparr>lru_kv_node := set_front_value value ns, lru_cache := (lru_cache l)(key := Some (fst (hd ns)))\<rparr>)"

definition lru_Set :: "'k \<Rightarrow> 'v \<Rightarrow> ('k, 'v) lru \<Rightarrow> ('k, 'v) lru io" where
  "lru_Set key value l =
     (if lru_cur_size l < lru_capacity l then
        (case lru_cache l key of
           None \<Rightarrow>
             Done (l\<lparr>lru_kv_node := (lru_next l, key, value) # lru_kv_node l,
                     lru_cur_size := lru_cur_size l + 1,
                     lru_cache := (lru_cache l)(key := Some (lru_next l)), lru_next := lru_next l + 1\<rparr>)
         | Some n \<Rightarrow> Done (lru_touch key value n l))
      else
        let l1 = (case lru_cache l key of Some n \<Rightarrow> lru_touch key value n l | None \<Rightarrow> l)
        in if lru_kv_node l1 = [] then Stray
           else
             let bk = last (lru_kv_node l1);
                 cache1 = (lru_cache l1)(fst (snd bk) := None);
                 ns = set_front key value (splice_front (fst bk) (lru_kv_node l1))
             in Done (l1\<lparr>lru_kv_node := ns,
                         lru_cache := (if cache1 key = None then cache1(key := Some (fst (hd ns))) else cache1)\<rparr>))"

definition lru_View :: "('k, 'v) lru \<Rightarrow> ('k \<times> 'v) list" where
  "lru_View l = map snd (lru_kv_node l)"

definition lru_Reset :: "('k, 'v) lru \<Rightarrow> ('k, 'v) lru" where
  "lru_Reset l =
     l\<lparr>lru_cur_size := 0, lru_hit_count := 0, lru_miss_count := 0, lru_kv_node := [],
       lru_cache := (\<lambda>_. None)\<rparr>"

section \<open>Specification\<close>

definition spec_use :: "'k \<Rightarrow> 'v \<Rightarrow> ('k \<times> 'v) list \<Rightarrow> ('k \<times> 'v) list" where
  "spec_use k v xs = (k, v) # filter (\<lambda>x. fst x \<noteq> k) xs"

definition spec_get :: "'k \<Rightarrow> ('k \<times> 'v) list \<Rightarrow> 'v option \<times> ('k \<times> 'v) list" where
  "spec_get k xs = (case map_of xs k of None \<Rightarrow> (None, xs) | Some v \<Rightarrow> (Some v, spec_use k v xs))"

definition spec_set :: "nat \<Rightarrow> 'k \<Rightarrow> 'v \<Rightarrow> ('k \<times> 'v) list \<Rightarrow> ('k \<times> 'v) list" where
  "spec_set cap k v xs = take cap (spec_use k v xs)"

text \<open>
  The invariant: node identities are distinct and below the next one, keys are distinct, the map
  sends each key to its node and the size is the length, at most the capacity.
\<close>

definition lru_wf :: "('k, 'v) lru \<Rightarrow> bool" where
  "lru_wf l \<longleftrightarrow>
     distinct (map fst (lru_kv_node l)) \<and> (\<forall>x \<in> set (lru_kv_node l). fst x < lru_next l) \<and>
     distinct (map (fst \<circ> snd) (lru_kv_node l)) \<and>
     (\<forall>k n. lru_cache l k = Some n \<longleftrightarrow> (\<exists>v. (n, k, v) \<in> set (lru_kv_node l))) \<and>
     unat (lru_cur_size l) = length (lru_kv_node l) \<and> lru_cur_size l \<le> lru_capacity l"

lemma splice_front_split:
  assumes "distinct (map fst ns)" and "(n, k, v) \<in> set ns"
  shows "splice_front n ns = (n, k, v) # filter (\<lambda>x. fst x \<noteq> n) ns"
proof -
  have "filter (\<lambda>x. fst x = n) ns = [(n, k, v)]"
    using assms
  proof (induction ns)
    case (Cons x ns)
    show ?case
    proof (cases "fst x = n")
      case True
      with Cons.prems have "x = (n, k, v)" by (force simp: image_iff)
      moreover have "filter (\<lambda>x. fst x = n) ns = []"
        using Cons.prems(1) True by (auto simp: filter_empty_conv intro: rev_image_eqI)
      ultimately show ?thesis by simp
    next
      case False
      with Cons show ?thesis by auto
    qed
  qed simp
  then show ?thesis by (simp add: splice_front_def)
qed

lemma node_key_unique:
  assumes "distinct (map (fst \<circ> snd) ns)" and "(n, k, v) \<in> set ns" and "x \<in> set ns"
  shows "fst (snd x) = k \<longleftrightarrow> x = (n, k, v)"
proof
  assume "fst (snd x) = k"
  with assms show "x = (n, k, v)" unfolding distinct_map by (auto dest!: inj_onD [of _ _ x "(n, k, v)"])
qed (use assms in simp)

text \<open>Filtering by identity and by key is the same.\<close>

lemma filter_node_key:
  assumes "distinct (map fst ns)" and "distinct (map (fst \<circ> snd) ns)" and "(n, k, v) \<in> set ns"
  shows "filter (\<lambda>x. fst x \<noteq> n) ns = filter (\<lambda>x. fst (snd x) \<noteq> k) ns"
proof (rule filter_cong [OF refl])
  fix x assume x: "x \<in> set ns"
  have "fst x = n \<longleftrightarrow> x = (n, k, v)"
    using assms(1,3) x unfolding distinct_map by (auto dest!: inj_onD [of _ _ x "(n, k, v)"])
  with node_key_unique [OF assms(2,3) x] show "(fst x \<noteq> n) = (fst (snd x) \<noteq> k)" by blast
qed

lemma map_of_View:
  assumes "distinct (map (fst \<circ> snd) ns)"
  shows "map_of (map snd ns) k = Some v \<longleftrightarrow> (\<exists>n. (n, k, v) \<in> set ns)"
proof -
  have "distinct (map fst (map snd ns))" using assms by (simp add: comp_def)
  from map_of_eq_Some_iff [OF this, of k v] show ?thesis by (force simp: image_iff)
qed

lemma lru_lookup:
  assumes "lru_wf l"
  shows "lru_cache l k = None \<longleftrightarrow> map_of (lru_View l) k = None"
    and "lru_cache l k = Some n \<Longrightarrow> \<exists>v. (n, k, v) \<in> set (lru_kv_node l) \<and> map_of (lru_View l) k = Some v"
proof -
  from assms have d: "distinct (map (fst \<circ> snd) (lru_kv_node l))"
    and c: "\<And>n. lru_cache l k = Some n \<longleftrightarrow> (\<exists>v. (n, k, v) \<in> set (lru_kv_node l))"
    by (auto simp: lru_wf_def)
  note v = map_of_View [OF d, of k, folded lru_View_def]
  show "lru_cache l k = Some n \<Longrightarrow> \<exists>v. (n, k, v) \<in> set (lru_kv_node l) \<and> map_of (lru_View l) k = Some v"
    using c v by metis
  show "lru_cache l k = None \<longleftrightarrow> map_of (lru_View l) k = None"
    using c v by (metis not_Some_eq)
qed

section \<open>Refinement\<close>

lemma filter_fst_snd: "filter (\<lambda>x. fst x \<noteq> k) (map snd ns) = map snd (filter (\<lambda>x. fst (snd x) \<noteq> k) ns)"
  by (simp add: filter_map comp_def)

text \<open>Moving a present key to the front with a (new) value.\<close>

lemma move_front_wf:
  fixes l :: "('k, 'v) lru" and v :: 'v
  assumes wf: "lru_wf l" and n: "lru_cache l k = Some n"
  defines "ns \<equiv> (n, k, v) # filter (\<lambda>x. fst x \<noteq> n) (lru_kv_node l)"
  shows "lru_wf (l\<lparr>lru_kv_node := ns, lru_cache := (lru_cache l)(k := Some n)\<rparr>)"
    and "map snd ns = spec_use k v (lru_View l)"
proof -
  let ?ns = "lru_kv_node l"
  from wf n obtain w where w: "(n, k, w) \<in> set ?ns" by (auto simp: lru_wf_def)
  from wf have d: "distinct (map fst ?ns)" "distinct (map (fst \<circ> snd) ?ns)" by (simp_all add: lru_wf_def)
  note fk = filter_node_key [OF d w]
  have len: "length ns = length ?ns"
  proof -
    have "length (splice_front n ?ns) = length ?ns" by (simp add: splice_front_def sum_length_filter_compl)
    with splice_front_split [OF d(1) w] show ?thesis by (simp add: ns_def)
  qed
  have upd: "(lru_cache l)(k := Some n) = lru_cache l" using n by auto
  have c: "lru_cache l j = Some m \<longleftrightarrow> (\<exists>v. (m, j, v) \<in> set ns)" for j m
  proof (cases "j = k")
    case True
    then show ?thesis using n by (auto simp: ns_def fk)
  next
    case False
    then have "(\<exists>v. (m, j, v) \<in> set ns) \<longleftrightarrow> (\<exists>v. (m, j, v) \<in> set ?ns)" by (auto simp: ns_def fk)
    then show ?thesis using wf by (simp add: lru_wf_def)
  qed
  have "distinct (map fst ns)" using d by (auto simp: ns_def distinct_map_filter)
  moreover have "distinct (map (fst \<circ> snd) ns)"
    using d(2) unfolding ns_def fk by (auto simp: distinct_map_filter)
  moreover have "\<forall>x \<in> set ns. fst x < lru_next l" using wf w by (auto simp: ns_def lru_wf_def)
  ultimately show "lru_wf (l\<lparr>lru_kv_node := ns, lru_cache := (lru_cache l)(k := Some n)\<rparr>)"
    using wf len c by (simp add: lru_wf_def upd)
  show "map snd ns = spec_use k v (lru_View l)"
    by (simp add: ns_def fk spec_use_def lru_View_def filter_fst_snd)
qed

lemma lru_Get_refines:
  assumes wf: "lru_wf l"
  shows "lru_wf (snd (lru_Get k l))"
    and "spec_get k (lru_View l) = (fst (lru_Get k l), lru_View (snd (lru_Get k l)))"
proof -
  have "lru_wf (snd (lru_Get k l)) \<and> spec_get k (lru_View l) = (fst (lru_Get k l), lru_View (snd (lru_Get k l)))"
  proof (cases "lru_cache l k")
    case None
    then show ?thesis using wf lru_lookup(1) [OF wf, of k]
      by (simp add: lru_Get_def spec_get_def lru_wf_def lru_View_def)
  next
    case (Some n)
    from lru_lookup(2) [OF wf Some] obtain v where v: "(n, k, v) \<in> set (lru_kv_node l)" "map_of (lru_View l) k = Some v"
      by blast
    have s: "splice_front n (lru_kv_node l) = (n, k, v) # filter (\<lambda>x. fst x \<noteq> n) (lru_kv_node l)"
      using wf v by (intro splice_front_split) (simp_all add: lru_wf_def)
    from move_front_wf [OF wf Some, of v] Some v s show ?thesis
      by (simp add: lru_Get_def spec_get_def Let_def) (simp add: lru_wf_def lru_View_def)
  qed
  then show "lru_wf (snd (lru_Get k l))"
    and "spec_get k (lru_View l) = (fst (lru_Get k l), lru_View (snd (lru_Get k l)))" by simp_all
qed

lemma View_length: "length (lru_View l) = length (lru_kv_node l)"
  by (simp add: lru_View_def)

lemma lru_touch_refines:
  assumes wf: "lru_wf l" and n: "lru_cache l k = Some n"
  shows "lru_wf (lru_touch k v n l)" and "lru_View (lru_touch k v n l) = spec_use k v (lru_View l)"
proof -
  from lru_lookup(2) [OF wf n] obtain w where w: "(n, k, w) \<in> set (lru_kv_node l)" by blast
  have s: "splice_front n (lru_kv_node l) = (n, k, w) # filter (\<lambda>x. fst x \<noteq> n) (lru_kv_node l)"
    using wf w by (intro splice_front_split) (simp_all add: lru_wf_def)
  from move_front_wf [OF wf n, of v] show "lru_wf (lru_touch k v n l)"
    and "lru_View (lru_touch k v n l) = spec_use k v (lru_View l)"
    by (simp_all add: lru_touch_def s Let_def lru_View_def)
qed

lemma spec_use_length:
  assumes "distinct (map fst xs)" and "map_of xs k = Some w"
  shows "length (spec_use k v xs) = length xs"
proof -
  from assms(2) have "(k, w) \<in> set xs" by (rule map_of_SomeD)
  with assms(1) have "length (filter (\<lambda>x. fst x \<noteq> k) xs) = length xs - 1 \<and> xs \<noteq> []"
  proof (induction xs)
    case (Cons x xs)
    show ?case
    proof (cases "fst x = k")
      case True
      with Cons.prems(1) have "filter (\<lambda>x. fst x \<noteq> k) xs = xs" by (auto simp: filter_id_conv intro: rev_image_eqI)
      with True show ?thesis by simp
    next
      case False
      with Cons show ?thesis by (cases xs) auto
    qed
  qed simp
  then show ?thesis by (cases xs) (simp_all add: spec_use_def)
qed

lemma lru_wf_size: "lru_wf l \<Longrightarrow> lru_cur_size l < lru_capacity l \<longleftrightarrow> length (lru_View l) < unat (lru_capacity l)"
  by (simp add: lru_wf_def View_length word_less_nat_alt)

lemma spec_use_fresh: "map_of xs k = None \<Longrightarrow> spec_use k v xs = (k, v) # xs"
  by (auto simp: spec_use_def map_of_eq_None_iff filter_id_conv)

lemma distinct_View: "lru_wf l \<Longrightarrow> distinct (map fst (lru_View l))"
  by (simp add: lru_wf_def lru_View_def comp_def)

lemma lru_Set_fresh:
  assumes wf: "lru_wf l" and room: "lru_cur_size l < lru_capacity l" and new: "lru_cache l k = None"
  shows "\<exists>l'. lru_Set k v l = Done l' \<and> lru_wf l' \<and> lru_capacity l' = lru_capacity l \<and> lru_View l' = (k, v) # lru_View l"
proof -
  have "unat (lru_cur_size l + 1) = unat (lru_cur_size l) + 1" "lru_cur_size l + 1 \<le> lru_capacity l"
    using room unat_add_no_wrap [of "lru_cur_size l" 1] unat_less_2p64 [of "lru_capacity l"]
    by (simp_all add: word_less_nat_alt word_le_nat_alt)
  moreover have "k \<notin> (fst \<circ> snd) ` set (lru_kv_node l)"
    using wf new by (auto simp: lru_wf_def) (metis option.distinct(1))
  moreover have "lru_next l \<notin> fst ` set (lru_kv_node l)"
    using wf by (auto simp: lru_wf_def)
  ultimately show ?thesis using wf room new
    by (auto simp: lru_Set_def lru_wf_def lru_View_def image_iff less_Suc_eq)
qed

lemma butlast_filter_last:
  assumes "distinct (map f ns)" and "ns \<noteq> []"
  shows "filter (\<lambda>x. f x \<noteq> f (last ns)) ns = butlast ns"
proof -
  from assms(2) have ns: "ns = butlast ns @ [last ns]" by simp
  have "f x \<noteq> f (last ns)" if "x \<in> set (butlast ns)" for x
  proof -
    from assms(1) have "distinct (map f (butlast ns @ [last ns]))" by (simp add: assms(2))
    with that show ?thesis by (simp add: image_iff) metis
  qed
  then have "filter (\<lambda>x. f x \<noteq> f (last ns)) (butlast ns @ [last ns]) = butlast ns" by simp
  with ns show ?thesis by simp
qed

lemma lru_Set_evict:
  assumes wf: "lru_wf l" and full: "\<not> lru_cur_size l < lru_capacity l" and cap: "0 < lru_capacity l" and new: "lru_cache l k = None"
  shows "\<exists>l'. lru_Set k v l = Done l' \<and> lru_wf l' \<and> lru_capacity l' = lru_capacity l \<and>
    lru_View l' = (k, v) # butlast (lru_View l)"
proof -
  let ?ns = "lru_kv_node l"
  have size: "lru_cur_size l = lru_capacity l" using wf full by (simp add: lru_wf_def)
  have ne: "?ns \<noteq> []" using wf cap size by (auto simp: lru_wf_def word_less_nat_alt)
  obtain b kb vb where b: "last ?ns = (b, kb, vb)" by (metis prod_cases3)
  with ne have bin: "(b, kb, vb) \<in> set ?ns" by (metis last_in_set)
  from wf have d: "distinct (map fst ?ns)" "distinct (map (fst \<circ> snd) ?ns)" by (simp_all add: lru_wf_def)
  from butlast_filter_last [OF d(1) ne] b have fb: "filter (\<lambda>x. fst x \<noteq> b) ?ns = butlast ?ns" by simp
  have fkb: "filter (\<lambda>x. fst (snd x) \<noteq> kb) ?ns = butlast ?ns" using filter_node_key [OF d bin] fb by simp
  have sp: "splice_front b ?ns = (b, kb, vb) # butlast ?ns" using splice_front_split [OF d(1) bin] fb by simp
  have nk: "k \<notin> (fst \<circ> snd) ` set ?ns" using wf new by (auto simp: lru_wf_def) (metis option.distinct(1))
  let ?l' = "l\<lparr>lru_kv_node := (b, k, v) # butlast ?ns, lru_cache := (lru_cache l)(kb := None, k := Some b)\<rparr>"
  have set: "lru_Set k v l = Done ?l'"
    using full new ne b sp nk bin by (auto simp: lru_Set_def Let_def image_iff)
  have cache: "((lru_cache l)(kb := None, k := Some b)) j = Some m \<longleftrightarrow> (\<exists>w. (m, j, w) \<in> set ((b, k, v) # butlast ?ns))" for j m
  proof (cases "j = k")
    case True
    have "(m, k, w) \<notin> set (butlast ?ns)" for w using nk by (fastforce dest: in_set_butlastD simp: image_iff)
    with True show ?thesis by auto
  next
    case False
    have "(m, j, w) \<in> set (butlast ?ns) \<longleftrightarrow> (m, j, w) \<in> set ?ns \<and> j \<noteq> kb" for w using fkb by (metis (mono_tags) fst_conv mem_Collect_eq set_filter snd_conv)
    with False wf show ?thesis by (auto simp: lru_wf_def)
  qed
  have dl: "distinct (map fst ((b, k, v) # butlast ?ns))" "distinct (map (fst \<circ> snd) ((b, k, v) # butlast ?ns))"
    using d nk fb by (auto simp: distinct_map_filter image_iff simp flip: fb)
  have "\<forall>x \<in> set ((b, k, v) # butlast ?ns). fst x < lru_next l"
    using wf bin by (auto simp: lru_wf_def dest: in_set_butlastD)
  then have "lru_wf ?l'" using wf ne dl cache by (simp add: lru_wf_def)
  with set show ?thesis by (simp add: lru_View_def map_butlast)
qed

lemma lru_Set_refines:
  assumes wf: "lru_wf l" and cap: "0 < lru_capacity l"
    and upd: "lru_cache l k \<noteq> None \<longrightarrow> lru_cur_size l < lru_capacity l"
  shows "\<exists>l'. lru_Set k v l = Done l' \<and> lru_wf l' \<and> lru_capacity l' = lru_capacity l \<and>
    lru_View l' = spec_set (unat (lru_capacity l)) k v (lru_View l)"
proof (cases "lru_cache l k")
  case None
  with lru_lookup(1) [OF wf, of k] have s: "spec_use k v (lru_View l) = (k, v) # lru_View l" by (simp add: spec_use_fresh)
  show ?thesis
  proof (cases "lru_cur_size l < lru_capacity l")
    case True
    from lru_Set_fresh [OF wf True None] lru_wf_size [OF wf] True show ?thesis by (simp add: spec_set_def s)
  next
    case False
    have "lru_cur_size l = lru_capacity l" using wf False by (simp add: lru_wf_def)
    with wf have "length (lru_View l) = unat (lru_capacity l)" by (auto simp: lru_wf_def View_length)
    then have "take (unat (lru_capacity l)) ((k, v) # lru_View l) = (k, v) # butlast (lru_View l)"
      using cap by (cases "unat (lru_capacity l)") (auto simp: butlast_conv_take word_less_nat_alt unat_eq_0)
    with lru_Set_evict [OF wf False cap None] show ?thesis by (simp add: spec_set_def s)
  qed
next
  case (Some n)
  with upd have room: "lru_cur_size l < lru_capacity l" by simp
  from lru_lookup(2) [OF wf Some] obtain w where "map_of (lru_View l) k = Some w" by blast
  with spec_use_length [OF distinct_View [OF wf]] lru_wf_size [OF wf] room
  have "spec_set (unat (lru_capacity l)) k v (lru_View l) = spec_use k v (lru_View l)" by (simp add: spec_set_def)
  moreover have "lru_capacity (lru_touch k v n l) = lru_capacity l" by (simp add: lru_touch_def Let_def)
  ultimately show ?thesis using room Some lru_touch_refines [OF wf Some] by (simp add: lru_Set_def)
qed

section \<open>Properties\<close>


lemma lru_wf_init: "lru_wf (LRUCache n)"
  by (simp add: lru_wf_def LRUCache_def)


text \<open>A run of stores.\<close>

fun lru_sets :: "('k \<times> 'v) list \<Rightarrow> ('k, 'v) lru \<Rightarrow> ('k, 'v) lru io" where
  "lru_sets [] l = Done l"
| "lru_sets ((k, v) # xs) l =
     (case lru_Set k v l of Done l' \<Rightarrow> lru_sets xs l' | Fail \<Rightarrow> Fail | Stray \<Rightarrow> Stray)"

text \<open>The excepted case is a defect: updating a present key in a full cache of three evicts the
  least recently used other key although no new key came in, and leaves the updated key in two
  nodes.\<close>

theorem lru_update_evicts:
  "\<exists>l. lru_sets [(1 :: int, 10 :: int), (2, 20), (3, 30), (1, 11)] (LRUCache 3) = Done l \<and>
     fst (lru_Get 2 l) = None \<and> lru_View l = [(1, 11), (1, 11), (3, 30)]"
  by (simp add: lru_Set_def LRUCache_def lru_touch_def splice_front_def lru_Get_def lru_View_def Let_def)

end
