(* ===== verification/Loader.thy ===== *)
theory Loader
  imports Exec_Memory
begin

text \<open>
  Loading an executable (\<^verbatim>\<open>LoadElf\<close> and \<^verbatim>\<open>CheckSectionExist\<close> of \<^verbatim>\<open>src/libs/utils.cc\<close>). The ELF reader is a
  third-party library; the record \<open>elf\<close> holds what its accessors return. The lemmas view main
  memory as a map from addresses to bytes, on which the loader's stores are updates.
\<close>

section \<open>The loader\<close>

record elf_segment =
  seg_type :: u32
  seg_file_size :: u64
  seg_memory_size :: u64
  seg_virtual_address :: u64
  seg_data :: "u8 list"

record elf_section =
  sec_type :: u32
  sec_flags :: u64
  sec_size :: u64
  sec_data :: "u8 list"
  sec_address :: u64
  sec_name_offset :: u32

record elf =
  elf_validate :: string
  elf_segments :: "elf_segment list"
  elf_sections :: "elf_section list"
  elf_shstrndx :: u16
  elf_string :: "u16 \<Rightarrow> u32 \<Rightarrow> string option"

definition PT_LOAD :: u32 where [const_defs]: "PT_LOAD = 1"
definition SHN_UNDEF :: u16 where [const_defs]: "SHN_UNDEF = 0"
definition kInvalidFile :: int where [const_defs]: "kInvalidFile = - 400 - 1"

lemma unat_Suc_less: "(i :: u64) < stop \<Longrightarrow> unat (i + 1) = Suc (unat i)"
  using unat_add_no_wrap [of i 1] unat_less_2p64 [of stop] by (simp add: word_less_nat_alt)

text \<open>
  The copy loop of one segment, from address \<open>i\<close> to \<open>stop\<close>; the end is computed modulo 2 ^ 64, so
  a segment that reaches the end of the address space is not copied at all. Reading past the
  segment's data is \<open>Stray\<close>. The trap of a store is ignored.
\<close>

function load_bytes :: "u8 list \<Rightarrow> u64 \<Rightarrow> u64 \<Rightarrow> u64 \<Rightarrow> u64 \<Rightarrow> cpu \<Rightarrow> cpu io" where
  "load_bytes bytes kSegAddr kSegFileSize stop i c =
     (if i < stop then
        (if i < kSegAddr + kSegFileSize \<and> length bytes \<le> unat (i - kSegAddr) then Stray
         else
           let kVal = (if i < kSegAddr + kSegFileSize then bytes ! unat (i - kSegAddr) else 0)
           in load_bytes bytes kSegAddr kSegFileSize stop (i + 1) (snd (CPU_Store c i 1 [kVal])))
      else Done c)"
  by pat_completeness auto

termination
  by (relation "measure (\<lambda>(bytes, a, f, stop, i, c). unat stop - unat i)")
    (auto simp: unat_Suc_less word_less_nat_alt)

declare load_bytes.simps [simp del]

definition load_segment :: "elf_segment \<Rightarrow> cpu \<Rightarrow> cpu io" where
  "load_segment segment c =
     (if seg_type segment \<noteq> PT_LOAD then Done c
      else load_bytes (seg_data segment) (seg_virtual_address segment) (seg_file_size segment)
             (seg_virtual_address segment + seg_memory_size segment) (seg_virtual_address segment) c)"

fun load_segments :: "elf_segment list \<Rightarrow> cpu \<Rightarrow> cpu io" where
  "load_segments [] c = Done c"
| "load_segments (s # ss) c =
     (case load_segment s c of Done c' \<Rightarrow> load_segments ss c' | Fail \<Rightarrow> Fail | Stray \<Rightarrow> Stray)"

text \<open>The number of segments is kept in 16 bits. A file that does not validate ends the program.\<close>

definition LoadElf :: "elf \<Rightarrow> cpu \<Rightarrow> int + cpu io" where
  "LoadElf reader c =
     (if elf_validate reader \<noteq> [] then Inl kInvalidFile
      else Inr (load_segments (take (length (elf_segments reader) mod 2 ^ 16) (elf_segments reader)) c))"

text \<open>
  The string accessor returns a null pointer for an offset outside the string table, and the
  comparison then reads through it. The result is the address of the section, if there is one.
\<close>

fun find_section :: "(u32 \<Rightarrow> string option) \<Rightarrow> string \<Rightarrow> elf_section list \<Rightarrow> u64 option io" where
  "find_section str_reader name [] = Done None"
| "find_section str_reader name (s # ss) =
     (case str_reader (sec_name_offset s) of
        None \<Rightarrow> Stray
      | Some p \<Rightarrow> if p = name then Done (Some (sec_address s)) else find_section str_reader name ss)"

definition CheckSectionExist :: "elf \<Rightarrow> string \<Rightarrow> u64 option io" where
  "CheckSectionExist reader name =
     (let kShStrIndex = elf_shstrndx reader; kSectionNum = length (elf_sections reader) mod 2 ^ 16
      in if SHN_UNDEF \<noteq> kShStrIndex
         then find_section (elf_string reader kShStrIndex) name (take kSectionNum (elf_sections reader))
         else Done None)"

section \<open>Main memory as a map\<close>

definition byte_at :: "bus \<Rightarrow> u64 \<Rightarrow> u8 option" where
  "byte_at b a =
     (case GetDeviceByRange b a of
        None \<Rightarrow> None
      | Some i \<Rightarrow>
          (case node_dev (bus_device b ! i) of
             DevDram d \<Rightarrow>
               let off = unat (a - node_base (bus_device b ! i))
               in if off < length (dram_memory d) then Some (dram_memory d ! off) else None
           | _ \<Rightarrow> None))"

lemma byte_atE:
  assumes "byte_at b a = Some v"
  obtains i d where "GetDeviceByRange b a = Some i" and "i < length (bus_device b)"
    and "node_dev (bus_device b ! i) = DevDram d"
    and "unat (a - node_base (bus_device b ! i)) < length (dram_memory d)"
    and "dram_memory d ! unat (a - node_base (bus_device b ! i)) = v"
  using assms
  by (auto simp: byte_at_def Let_def GetDeviceByRange_Some split: option.splits device.splits if_splits)

text \<open>A one-byte store through the bus is an update of the map, a one-byte load reads it.\<close>

lemma Bus_Store_byte:
  assumes wf: "bus_wf b" and a: "byte_at b a = Some w"
  obtains b' where "Bus_Store b a 1 [v] = Done b'" and "bus_wf b'" and "byte_at b' = (byte_at b)(a \<mapsto> v)"
proof -
  from a obtain i d where i: "GetDeviceByRange b a = Some i" "i < length (bus_device b)"
    and d: "node_dev (bus_device b ! i) = DevDram d"
    and off: "unat (a - node_base (bus_device b ! i)) < length (dram_memory d)" by (rule byte_atE)
  let ?base = "node_base (bus_device b ! i)"
  let ?off = "a - ?base"
  from bus_offset [OF wf i(1)] d have dw: "dram_wf d" and small: "unat ?off < 2 ^ 32" by simp_all
  have "unat (?off + 1) = unat ?off + 1" using unat_add_no_wrap [of ?off 1] small by simp
  with off dw have fits: "?off + 1 \<le> dram_size d" by (simp add: word_le_nat_alt dram_wf_def)
  let ?d = "d\<lparr>dram_memory := (dram_memory d)[unat ?off := v]\<rparr>"
  have poke: "poke_list (dram_memory d) (unat ?off) [v] = (dram_memory d)[unat ?off := v]"
    by (simp add: poke_def set_byte_def fset_def) (rule arg_cong [where f = "list_update _ _"], rule bit_eqI, auto simp: bit_simps)
  have st: "Dram_Store d ?off 1 [v] = Done ?d"
    using fits off poke by (simp add: Dram_Store_def copy_in_def)
  let ?b = "set_dev i (DevDram ?d) b"
  have store: "Bus_Store b a 1 [v] = Done ?b" using i d st by (simp add: Bus_Store_def Let_def)
  have wf': "bus_wf ?b" using bus_wf_Store [OF wf store] .
  have "byte_at ?b x = ((byte_at b)(a \<mapsto> v)) x" for x
  proof (cases "GetDeviceByRange b x = Some i")
    case True
    have inj: "unat (x - ?base) = unat ?off \<longleftrightarrow> x = a" by (simp flip: word_unat_eq_iff)
    show ?thesis using True i d off inj
      by (auto simp: byte_at_def set_dev_nth Let_def nth_list_update)
  next
    case False
    with i(1) have "x \<noteq> a" by auto
    moreover have "byte_at ?b x = byte_at b x"
      using False i(2) by (auto simp: byte_at_def set_dev_nth split: option.splits device.splits)
    ultimately show ?thesis by simp
  qed
  then have "byte_at ?b = (byte_at b)(a \<mapsto> v)" by (rule ext)
  with store wf' show ?thesis by (rule that)
qed

lemma Bus_Load_byte:
  assumes wf: "bus_wf b" and a: "byte_at b a = Some v"
  shows "Bus_Load b a 1 = Done ([v], b)"
proof -
  from a obtain i d where i: "GetDeviceByRange b a = Some i" "i < length (bus_device b)"
    and d: "node_dev (bus_device b ! i) = DevDram d"
    and off: "unat (a - node_base (bus_device b ! i)) < length (dram_memory d)"
    and v: "dram_memory d ! unat (a - node_base (bus_device b ! i)) = v" by (rule byte_atE)
  let ?off = "a - node_base (bus_device b ! i)"
  from bus_offset [OF wf i(1)] d have dw: "dram_wf d" and small: "unat ?off < 2 ^ 32" by simp_all
  have "unat (?off + 1) = unat ?off + 1" using unat_add_no_wrap [of ?off 1] small by simp
  with off dw have fits: "?off + 1 \<le> dram_size d" by (simp add: word_le_nat_alt dram_wf_def)
  have "get_byte v 0 = v" for v :: u8 by (simp add: get_byte_def)
  then have "Dram_Load d ?off 1 = Done ([v], d)"
    using fits off v by (simp add: Dram_Load_def copy_out_def peek_def)
  then show ?thesis using i d set_dev_same [OF i(2)] by (simp add: Bus_Load_def Let_def)
qed

section \<open>What the loader leaves in memory\<close>

lemma CPU_Store_byte:
  assumes "phys c" and "Bus_Store (cpu_bus c) a 1 [v] = Done b"
  shows "CPU_Store c a 1 [v] = (kNoneTrap, set_bus b c)"
  using assms by (simp add: CPU_Store_def Mmu_Store_def phys_def Let_def phys_store_def Sv39_Store_def)

definition seg_byte :: "u8 list \<Rightarrow> u64 \<Rightarrow> u64 \<Rightarrow> u64 \<Rightarrow> u8" where
  "seg_byte bytes a fsize x = (if x < a + fsize then bytes ! unat (x - a) else 0)"

lemma load_bytes_memory:
  assumes "phys c" and "bus_wf (cpu_bus c)"
    and "\<forall>x. i \<le> x \<and> x < stop \<longrightarrow> byte_at (cpu_bus c) x \<noteq> None"
    and "\<forall>x. i \<le> x \<and> x < stop \<and> x < a + fsize \<longrightarrow> unat (x - a) < length bytes"
  shows "\<exists>b. load_bytes bytes a fsize stop i c = Done (set_bus b c) \<and> bus_wf b \<and>
    byte_at b = (\<lambda>x. if i \<le> x \<and> x < stop then Some (seg_byte bytes a fsize x) else byte_at (cpu_bus c) x)"
  using assms
proof (induction bytes a fsize stop i c rule: load_bytes.induct)
  case (1 bytes a fsize stop i c)
  show ?case
  proof (cases "i < stop")
    case False
    then have "(\<lambda>x. if i \<le> x \<and> x < stop then Some (seg_byte bytes a fsize x) else byte_at (cpu_bus c) x) = byte_at (cpu_bus c)"
      by (auto simp: fun_eq_iff dest: le_less_trans)
    with False "1.prems"(2) show ?thesis by (intro exI [of _ "cpu_bus c"]) (simp add: load_bytes.simps)
  next
    case True
    let ?v = "seg_byte bytes a fsize i"
    have len: "\<not> (i < a + fsize \<and> length bytes \<le> unat (i - a))" using "1.prems"(4) True by (auto simp: not_le)
    from "1.prems"(3) True obtain w where "byte_at (cpu_bus c) i = Some w" by fastforce
    from Bus_Store_byte [OF "1.prems"(2) this, of ?v] obtain b1 where
      st: "Bus_Store (cpu_bus c) i 1 [?v] = Done b1" and wf1: "bus_wf b1" and m1: "byte_at b1 = (byte_at (cpu_bus c))(i \<mapsto> ?v)" .
    let ?c1 = "set_bus b1 c"
    have c1: "snd (CPU_Store c i 1 [?v]) = ?c1" using CPU_Store_byte [OF "1.prems"(1) st] by simp
    have step: "load_bytes bytes a fsize stop i c = load_bytes bytes a fsize stop (i + 1) ?c1"
      using True len c1 by (subst load_bytes.simps) (auto simp: seg_byte_def)
    have ge: "i + 1 \<le> x \<longleftrightarrow> i \<le> x \<and> x \<noteq> i" for x
      using unat_Suc_less [OF True] by (auto simp: word_le_nat_alt word_unat_eq_iff)
    have IH: "\<exists>b. load_bytes bytes a fsize stop (i + 1) ?c1 = Done (set_bus b ?c1) \<and> bus_wf b \<and>
        byte_at b = (\<lambda>x. if i + 1 \<le> x \<and> x < stop then Some (seg_byte bytes a fsize x) else byte_at (cpu_bus ?c1) x)"
      using "1.IH" [OF True len refl, folded seg_byte_def, unfolded c1] "1.prems" wf1 m1 by (simp add: ge)
    then obtain b where b: "load_bytes bytes a fsize stop (i + 1) ?c1 = Done (set_bus b ?c1)" "bus_wf b"
      "byte_at b = (\<lambda>x. if i + 1 \<le> x \<and> x < stop then Some (seg_byte bytes a fsize x) else byte_at (cpu_bus ?c1) x)" by blast
    have "byte_at b = (\<lambda>x. if i \<le> x \<and> x < stop then Some (seg_byte bytes a fsize x) else byte_at (cpu_bus c) x)"
      using b(3) m1 True by (auto simp: fun_eq_iff ge)
    with b step show ?thesis by (intro exI [of _ b]) simp
  qed
qed

text \<open>
  The image of an executable: an address holds the byte of the last loadable segment that covers
  it, and zero past the bytes that segment has in the file.
\<close>

definition covers :: "elf_segment \<Rightarrow> u64 \<Rightarrow> bool" where
  "covers s x \<longleftrightarrow> seg_type s = PT_LOAD \<and> seg_virtual_address s \<le> x \<and>
     unat x < unat (seg_virtual_address s) + unat (seg_memory_size s)"

definition segment_byte :: "elf_segment \<Rightarrow> u64 \<Rightarrow> u8" where
  "segment_byte s x =
     (let off = unat x - unat (seg_virtual_address s)
      in if off < unat (seg_file_size s) then seg_data s ! off else 0)"

fun image :: "elf_segment list \<Rightarrow> (u64 \<Rightarrow> u8 option) \<Rightarrow> u64 \<Rightarrow> u8 option" where
  "image [] m x = m x"
| "image (s # ss) m x = image ss (\<lambda>y. if covers s y then Some (segment_byte s y) else m y) x"

definition segment_ok :: "elf_segment \<Rightarrow> bool" where
  "segment_ok s \<longleftrightarrow> seg_type s = PT_LOAD \<longrightarrow>
     seg_file_size s \<le> seg_memory_size s \<and> length (seg_data s) = unat (seg_file_size s) \<and>
     unat (seg_virtual_address s) + unat (seg_memory_size s) < 2 ^ 64"

lemma image_outside: "(\<forall>s\<in>set ss. \<not> covers s x) \<Longrightarrow> image ss m x = m x"
  by (induction ss arbitrary: m) auto

lemma image_last:
  "covers s x \<Longrightarrow> (\<forall>s'\<in>set ss2. \<not> covers s' x) \<Longrightarrow> image (ss1 @ s # ss2) m x = Some (segment_byte s x)"
  by (induction ss1 arbitrary: m) (auto simp: image_outside)

lemma segment_range:
  assumes "segment_ok s" and "seg_type s = PT_LOAD"
  shows "seg_virtual_address s \<le> x \<and> x < seg_virtual_address s + seg_memory_size s \<longleftrightarrow> covers s x"
    and "covers s x \<Longrightarrow> seg_byte (seg_data s) (seg_virtual_address s) (seg_file_size s) x = segment_byte s x"
    and "covers s x \<Longrightarrow> x < seg_virtual_address s + seg_file_size s \<Longrightarrow>
      unat (x - seg_virtual_address s) < length (seg_data s)"
proof -
  let ?a = "seg_virtual_address s"
  from assms have f: "unat (seg_file_size s) \<le> unat (seg_memory_size s)" and len: "length (seg_data s) = unat (seg_file_size s)"
    and top: "unat ?a + unat (seg_memory_size s) < 2 ^ 64" by (auto simp: segment_ok_def word_le_nat_alt)
  from f top have m: "unat (?a + seg_memory_size s) = unat ?a + unat (seg_memory_size s)"
    and fs: "unat (?a + seg_file_size s) = unat ?a + unat (seg_file_size s)" by (simp_all add: unat_add_no_wrap)
  show "?a \<le> x \<and> x < ?a + seg_memory_size s \<longleftrightarrow> covers s x"
    using assms(2) m by (simp add: covers_def word_less_nat_alt)
  assume c: "covers s x"
  then have le: "?a \<le> x" by (simp add: covers_def)
  then have sub: "unat (x - ?a) = unat x - unat ?a" by (rule unat_sub)
  from le have le': "unat ?a \<le> unat x" by (simp add: word_le_nat_alt)
  show "seg_byte (seg_data s) ?a (seg_file_size s) x = segment_byte s x"
    using le' fs by (auto simp: seg_byte_def segment_byte_def Let_def sub word_less_nat_alt)
  show "x < ?a + seg_file_size s \<Longrightarrow> unat (x - ?a) < length (seg_data s)"
    using le' fs len by (simp add: sub word_less_nat_alt)
qed

lemma load_segment_memory:
  assumes c: "phys c" "bus_wf (cpu_bus c)" and ok: "segment_ok s"
    and mem: "\<And>x. covers s x \<Longrightarrow> byte_at (cpu_bus c) x \<noteq> None"
  shows "\<exists>b. load_segment s c = Done (set_bus b c) \<and> bus_wf b \<and>
    byte_at b = (\<lambda>x. if covers s x then Some (segment_byte s x) else byte_at (cpu_bus c) x)"
proof (cases "seg_type s = PT_LOAD")
  case False
  then show ?thesis using c by (intro exI [of _ "cpu_bus c"]) (simp add: load_segment_def covers_def)
next
  case True
  note r = segment_range [OF ok True]
  let ?a = "seg_virtual_address s"
  have "\<exists>b. load_bytes (seg_data s) ?a (seg_file_size s) (?a + seg_memory_size s) ?a c = Done (set_bus b c) \<and> bus_wf b \<and>
      byte_at b = (\<lambda>x. if ?a \<le> x \<and> x < ?a + seg_memory_size s
        then Some (seg_byte (seg_data s) ?a (seg_file_size s) x) else byte_at (cpu_bus c) x)"
    using r mem by (intro load_bytes_memory [OF c]) blast+
  then obtain b where "load_segment s c = Done (set_bus b c)" "bus_wf b"
    "byte_at b = (\<lambda>x. if covers s x then Some (seg_byte (seg_data s) ?a (seg_file_size s) x) else byte_at (cpu_bus c) x)"
    unfolding r(1) by (auto simp: load_segment_def True)
  then show ?thesis using r(2) by (intro exI [of _ b]) (auto simp: fun_eq_iff)
qed

lemma load_segments_memory:
  assumes "phys c" and "bus_wf (cpu_bus c)" and "\<forall>s\<in>set ss. segment_ok s"
    and "\<forall>s\<in>set ss. \<forall>x. covers s x \<longrightarrow> byte_at (cpu_bus c) x \<noteq> None"
  shows "\<exists>b. load_segments ss c = Done (set_bus b c) \<and> bus_wf b \<and> byte_at b = image ss (byte_at (cpu_bus c))"
  using assms
proof (induction ss arbitrary: c)
  case Nil
  then show ?case by (intro exI [of _ "cpu_bus c"]) (simp add: fun_eq_iff)
next
  case (Cons s ss)
  from Cons.prems load_segment_memory [of c s] obtain b where b: "load_segment s c = Done (set_bus b c)" "bus_wf b"
    and m: "byte_at b = (\<lambda>x. if covers s x then Some (segment_byte s x) else byte_at (cpu_bus c) x)" by auto
  have "\<exists>b'. load_segments ss (set_bus b c) = Done (set_bus b' (set_bus b c)) \<and> bus_wf b' \<and> byte_at b' = image ss (byte_at (cpu_bus (set_bus b c)))"
    using Cons.prems b(2) m by (intro Cons.IH) auto
  then obtain b' where b': "load_segments ss (set_bus b c) = Done (set_bus b' (set_bus b c))" "bus_wf b'"
    "byte_at b' = image ss (byte_at b)" by auto
  have "byte_at b' = image (s # ss) (byte_at (cpu_bus c))" using b'(3) m by (simp add: fun_eq_iff)
  with b(1) b'(1,2) show ?case by (intro exI [of _ b']) simp
qed

lemma example_byte_at:
  assumes "unat x - unat (0x80000000 :: u64) < 2" and "0x80000000 \<le> x"
  shows "byte_at (cpu_bus example_m) x \<noteq> None"
proof -
  have "unat (x - 0x80000000) = unat x - unat (0x80000000 :: u64)" using assms(2) by (rule unat_sub)
  then have "unat (x - 0x80000000) = 0 \<or> unat (x - 0x80000000) = 1" using assms(1) by linarith
  then have "x - 0x80000000 = 0 \<or> x - 0x80000000 = 1" by (auto simp: word_unat_eq_iff)
  then have "x = 0x80000000 \<or> x = 0x80000001" by (auto simp: algebra_simps)
  moreover have "cpu_bus example_m = sv39_bus example_sv39" by (simp add: example_cpu_def)
  moreover have "byte_at (sv39_bus example_sv39) 0x80000000 \<noteq> None" "byte_at (sv39_bus example_sv39) 0x80000001 \<noteq> None"
    unfolding example_bus example_mem_def by code_simp+
  ultimately show ?thesis by auto
qed

text \<open>C26: Loading an executable. A file that does not validate is refused with the error code. For a
  valid file whose loadable segments are well formed and lie in main memory, the loader ends, changes
  nothing but memory, and memory holds the image: a one-byte load at an address returns the byte of
  the last loadable segment that covers it (zero past its bytes in the file), and every byte that no
  loadable segment covers is what it was.\<close>

theorem elf_loaded:
  fixes reader :: elf and c :: cpu
  assumes "phys c" and "bus_wf (cpu_bus c)"
    and ok: "elf_validate reader = []" "length (elf_segments reader) < 2 ^ 16" "\<forall>s\<in>set (elf_segments reader). segment_ok s"
    and mem: "\<forall>s\<in>set (elf_segments reader). \<forall>x. covers s x \<longrightarrow> byte_at (cpu_bus c) x \<noteq> None"
  shows "\<exists>b. LoadElf reader c = Inr (Done (set_bus b c)) \<and> bus_wf b \<and>
    (\<forall>x. (\<forall>s\<in>set (elf_segments reader). \<not> covers s x) \<longrightarrow> byte_at b x = byte_at (cpu_bus c) x) \<and>
    (\<forall>ss1 s ss2 x. elf_segments reader = ss1 @ s # ss2 \<and> covers s x \<and> (\<forall>s'\<in>set ss2. \<not> covers s' x) \<longrightarrow>
       Bus_Load b x 1 = Done ([segment_byte s x], b))"
proof -
  from load_segments_memory [OF assms(1,2) ok(3) mem] obtain b where
    b: "load_segments (elf_segments reader) c = Done (set_bus b c)" "bus_wf b"
    and m: "byte_at b = image (elf_segments reader) (byte_at (cpu_bus c))" by blast
  have "LoadElf reader c = Inr (Done (set_bus b c))" using ok b(1) by (simp add: LoadElf_def)
  with b(2) show ?thesis
    by (intro exI [of _ b]) (auto simp: m image_outside image_last intro!: Bus_Load_byte)
qed

definition example_elf :: elf where
  "example_elf = \<lparr>elf_validate = [],
     elf_segments = [\<lparr>seg_type = 1, seg_file_size = 1, seg_memory_size = 2,
        seg_virtual_address = 0x80000000, seg_data = [7]\<rparr>],
     elf_sections = [], elf_shstrndx = 0, elf_string = (\<lambda>_ _. None)\<rparr>"

theorem elf_loaded_witness:
  "\<exists>b. LoadElf example_elf example_m = Inr (Done (set_bus b example_m)) \<and>
     Bus_Load b 0x80000000 1 = Done ([7], b) \<and> Bus_Load b 0x80000001 1 = Done ([0], b)"
proof -
  let ?s = "hd (elf_segments example_elf)"
  have segs: "elf_segments example_elf = [?s]" by (simp add: example_elf_def)
  have cov: "covers ?s 0x80000000" "covers ?s 0x80000001" by (simp_all add: example_elf_def covers_def PT_LOAD_def)
  have byte: "segment_byte ?s 0x80000000 = 7" "segment_byte ?s 0x80000001 = 0"
    by (simp_all add: example_elf_def segment_byte_def)
  have ok: "elf_validate example_elf = []" "length (elf_segments example_elf) < 2 ^ 16"
    "\<forall>s\<in>set (elf_segments example_elf). segment_ok s" by (simp_all add: example_elf_def segment_ok_def)
  have "bus_wf (cpu_bus example_m)" using example_m_inv by (simp add: cpu_inv_def sv39_inv_def)
  moreover have "\<forall>s\<in>set (elf_segments example_elf). \<forall>x. covers s x \<longrightarrow> byte_at (cpu_bus example_m) x \<noteq> None"
    using example_byte_at by (auto simp: example_elf_def covers_def)
  ultimately obtain b where "LoadElf example_elf example_m = Inr (Done (set_bus b example_m))" and
    "\<forall>ss1 s ss2 x. elf_segments example_elf = ss1 @ s # ss2 \<and> covers s x \<and> (\<forall>s'\<in>set ss2. \<not> covers s' x) \<longrightarrow>
       Bus_Load b x 1 = Done ([segment_byte s x], b)"
    using elf_loaded [OF example_m_phys _ ok] by blast
  then show ?thesis using segs cov byte by (metis append_Nil empty_iff empty_set)
qed

end
