(* ===== verification/Machine.thy ===== *)
theory Machine
  imports Cpu_Props Loader
begin

text \<open>
  The emulator program (\<^verbatim>\<open>src/rv64_emulator.cc\<close>, \<^verbatim>\<open>include/conf.h\<close>): the memory map, the construction
  of the machine, the main loop, and the two other sources of activity, the input thread and the
  handler of the interrupt key. The devices belong to the bus inside the processor; the program
  keeps raw pointers to three of them, which are their positions on the bus. Using a pointer to a
  device of another class is \<open>Stray\<close>.

  The main loop is given twice: as the function \<open>main_loop\<close> that runs one iteration, and as the
  operation \<open>main_step\<close> of one statement, whose steps interleave with the other threads in the
  relation \<open>mach_step\<close>.
\<close>

section \<open>Configuration\<close>

definition kDramSize :: u64 where "kDramSize = 64 * 1024 * 1024"
definition kDramBaseAddr :: u64 where [const_defs]: "kDramBaseAddr = 0x80000000"
definition kPlicBase :: u64 where [const_defs]: "kPlicBase = 0xc000000"
definition kPlicAddrSpaceRange :: u64 where [const_defs]: "kPlicAddrSpaceRange = 0x4000000"
definition kClintBase :: u64 where [const_defs]: "kClintBase = 0x2000000"
definition kClintAddrSpaceRange :: u64 where [const_defs]: "kClintAddrSpaceRange = 0x10000"
definition kUartBase :: u64 where [const_defs]: "kUartBase = 0x60100000"
definition kUartAddrSpaceRange :: u64 where [const_defs]: "kUartAddrSpaceRange = 0x1000"

section \<open>State\<close>

text \<open>What the program prints is the list of bytes written to the standard output.\<close>

record console =
  delay_cr :: bool
  printed :: "u8 list"

record machine =
  mach_cpu :: cpu
  mach_console :: console
  send_ctrl_c :: bool
  last_time :: int

fun bind_io :: "'a io \<Rightarrow> ('a \<Rightarrow> 'b io) \<Rightarrow> 'b io" where
  "bind_io (Done x) f = f x"
| "bind_io Fail f = Fail"
| "bind_io Stray f = Stray"

text \<open>The raw pointers: the positions at which \<open>main\<close> mounts the devices.\<close>

definition raw_clint :: nat where [const_defs]: "raw_clint = 0"
definition raw_plic :: nat where [const_defs]: "raw_plic = 1"
definition raw_uart :: nat where [const_defs]: "raw_uart = 2"

definition dev_at :: "nat \<Rightarrow> cpu \<Rightarrow> device" where
  "dev_at i c = node_dev (bus_device (cpu_bus c) ! i)"

definition put_dev :: "nat \<Rightarrow> device \<Rightarrow> cpu \<Rightarrow> cpu" where
  "put_dev i d c = set_bus (set_dev i d (cpu_bus c)) c"

section \<open>The input thread and the interrupt key\<close>

definition UartInput :: "u8 \<Rightarrow> cpu \<Rightarrow> cpu io" where
  "UartInput ch c =
     (case dev_at raw_uart c of
        DevUart u \<Rightarrow> Done (put_dev raw_uart (DevUart (Putc (if ch = 10 then 13 else ch) u)) c)
      | _ \<Rightarrow> Stray)"

text \<open>The two readings of the clock are arguments; the second interrupt within a second ends the
  program.\<close>

definition SigintHangler :: "int \<Rightarrow> int \<Rightarrow> machine \<Rightarrow> machine option" where
  "SigintHangler now now' m =
     (if now - last_time m < 1 then None else Some (m\<lparr>last_time := now', send_ctrl_c := True\<rparr>))"

section \<open>Construction\<close>

definition MakeCPU :: "u32 \<Rightarrow> bus \<Rightarrow> cpu" where
  "MakeCPU hart_id b = CPU hart_id (Sv39 b)"

definition make_bus :: "u64 \<Rightarrow> dram \<Rightarrow> bus io" where
  "make_bus ts d =
     bind_io (MountDevice \<lparr>node_base = kClintBase, node_size = kClintAddrSpaceRange, node_dev = DevClint (Clint ts 1)\<rparr> Bus) (\<lambda>b.
     bind_io (MountDevice \<lparr>node_base = kPlicBase, node_size = kPlicAddrSpaceRange, node_dev = DevPlic (Plic 1 True 2)\<rparr> b) (\<lambda>b.
     bind_io (MountDevice \<lparr>node_base = kUartBase, node_size = kUartAddrSpaceRange, node_dev = DevUart Uart\<rparr> b) (\<lambda>b.
     MountDevice \<lparr>node_base = kDramBaseAddr, node_size = kDramSize, node_dev = DevDram d\<rparr> b)))"

text \<open>The start of \<open>main\<close>, up to the loop; without a file name the program exits with -1.\<close>

definition main_init :: "u64 \<Rightarrow> u8 list list \<Rightarrow> int + machine io" where
  "main_init ts files =
     (if length files \<noteq> 1 then Inl (- 1)
      else Inr (bind_io (DRAM_file kDramSize (hd files)) (\<lambda>d.
                bind_io (make_bus ts d) (\<lambda>b.
                Done \<lparr>mach_cpu = (MakeCPU 0 b)\<lparr>cpu_pc := kDramBaseAddr\<rparr>,
                      mach_console = \<lparr>delay_cr = False, printed = []\<rparr>,
                      send_ctrl_c = False, last_time = 0\<rparr>))))"

section \<open>The main loop\<close>

definition update_time :: "u64 \<Rightarrow> cpu \<Rightarrow> cpu io" where
  "update_time ts c =
     (case dev_at raw_clint c of
        DevClint x \<Rightarrow> Done (put_dev raw_clint (DevClint (UpdateMtime ts x)) c)
      | _ \<Rightarrow> Stray)"

definition update_ext :: "cpu \<Rightarrow> cpu io" where
  "update_ext c =
     (case (dev_at raw_plic c, dev_at raw_uart c) of
        (DevPlic p, DevUart u) \<Rightarrow> map_io (\<lambda>p'. put_dev raw_plic (DevPlic p') c) (UpdateExt 1 (Irq u) p)
      | _ \<Rightarrow> Stray)"

definition query :: "u64 \<Rightarrow> cpu \<Rightarrow> (bool \<times> cpu) io" where
  "query ctx c =
     (case dev_at raw_plic c of
        DevPlic p \<Rightarrow> map_io (\<lambda>(irq, p'). (irq, put_dev raw_plic (DevPlic p') c)) (GetInterrupt ctx p)
      | _ \<Rightarrow> Stray)"

text \<open>The arguments of the cycle. C++ leaves open which of them is evaluated first: \<open>left\<close> chooses
  between the two orders of the calls that change the interrupt controller.\<close>

definition irq_lines :: "bool \<Rightarrow> cpu \<Rightarrow> (bool \<times> bool \<times> bool \<times> bool \<times> cpu) io" where
  "irq_lines left c =
     bind_io (if left
              then bind_io (query 0 c) (\<lambda>(meip, c1). bind_io (query 1 c1) (\<lambda>(seip, c2). Done (meip, seip, c2)))
              else bind_io (query 1 c) (\<lambda>(seip, c1). bind_io (query 0 c1) (\<lambda>(meip, c2). Done (meip, seip, c2))))
       (\<lambda>(meip, seip, c').
          case dev_at raw_clint c' of
            DevClint x \<Rightarrow>
              bind_io (MachineSoftwareIrq x 0) (\<lambda>msip.
              bind_io (MachineTimerIrq x 0) (\<lambda>mtip. Done (meip, seip, msip, mtip, c')))
          | _ \<Rightarrow> Stray)"

definition run_cycle :: "bool \<Rightarrow> env \<Rightarrow> cpu \<Rightarrow> cpu io" where
  "run_cycle left env c =
     bind_io (irq_lines left c) (\<lambda>(meip, seip, msip, mtip, c'). Done (CPU_Tick env meip seip msip mtip True c'))"

text \<open>One character of the output, and the loop over the transmit queue.\<close>

definition emit :: "u8 \<Rightarrow> console \<Rightarrow> console" where
  "emit ch s =
     (if ch = 13 then s\<lparr>delay_cr := True\<rparr>
      else s\<lparr>printed := printed s @ (if delay_cr s \<and> ch \<noteq> 10 then [13] else []) @ [ch], delay_cr := False\<rparr>)"

function drain :: "uart \<Rightarrow> console \<Rightarrow> uart \<times> console" where
  "drain u s =
     (if TxBufferNotEmpty u then let (ch, u') = Getc u in drain u' (emit ch s) else (u, s))"
  by pat_completeness auto

termination
  by (relation "measure (\<lambda>(u, s). length (tx_buffer u))")
    (auto simp: TxBufferNotEmpty_def Getc_def split: list.splits if_splits)

declare drain.simps [simp del]

definition drain_output :: "machine \<Rightarrow> machine io" where
  "drain_output m =
     (case dev_at raw_uart (mach_cpu m) of
        DevUart u \<Rightarrow>
          let (u', s') = drain u (mach_console m)
          in Done (m\<lparr>mach_cpu := put_dev raw_uart (DevUart u') (mach_cpu m), mach_console := s'\<rparr>)
      | _ \<Rightarrow> Stray)"

definition forward_ctrl_c :: "machine \<Rightarrow> machine io" where
  "forward_ctrl_c m =
     (if send_ctrl_c m then
        case dev_at raw_uart (mach_cpu m) of
          DevUart u \<Rightarrow> Done (m\<lparr>mach_cpu := put_dev raw_uart (DevUart (Putc 3 u)) (mach_cpu m), send_ctrl_c := False\<rparr>)
        | _ \<Rightarrow> Stray
      else Done m)"

definition main_loop :: "bool \<Rightarrow> env \<Rightarrow> u64 \<Rightarrow> machine \<Rightarrow> machine io" where
  "main_loop left env ts m =
     bind_io (update_time ts (mach_cpu m)) (\<lambda>c.
     bind_io (update_ext c) (\<lambda>c.
     bind_io (run_cycle left env c) (\<lambda>c.
     bind_io (drain_output (m\<lparr>mach_cpu := c\<rparr>)) forward_ctrl_c)))"

section \<open>Interleaving\<close>

text \<open>The statement of the loop that comes next.\<close>

datatype phase = AtTime | AtExt | AtTick | AtDrain | AtCtrlC

definition with_cpu :: "phase \<Rightarrow> machine \<Rightarrow> cpu io \<Rightarrow> (phase \<times> machine) io" where
  "with_cpu p m r = map_io (\<lambda>c. (p, m\<lparr>mach_cpu := c\<rparr>)) r"

fun main_step :: "bool \<Rightarrow> env \<Rightarrow> u64 \<Rightarrow> phase \<times> machine \<Rightarrow> (phase \<times> machine) io" where
  "main_step left env ts (AtTime, m) = with_cpu AtExt m (update_time ts (mach_cpu m))"
| "main_step left env ts (AtExt, m) = with_cpu AtTick m (update_ext (mach_cpu m))"
| "main_step left env ts (AtTick, m) = with_cpu AtDrain m (run_cycle left env (mach_cpu m))"
| "main_step left env ts (AtDrain, m) =
     (case dev_at raw_uart (mach_cpu m) of
        DevUart u \<Rightarrow>
          if TxBufferNotEmpty u
          then let (ch, u') = Getc u
               in Done (AtDrain, m\<lparr>mach_cpu := put_dev raw_uart (DevUart u') (mach_cpu m),
                                   mach_console := emit ch (mach_console m)\<rparr>)
          else Done (AtCtrlC, m)
      | _ \<Rightarrow> Stray)"
| "main_step left env ts (AtCtrlC, m) = map_io (\<lambda>m'. (AtTime, m')) (forward_ctrl_c m)"

inductive mach_step :: "phase \<times> machine \<Rightarrow> phase \<times> machine \<Rightarrow> bool" where
  main: "main_step left env ts s = Done s' \<Longrightarrow> mach_step s s'"
| key: "UartInput ch (mach_cpu m) = Done c \<Longrightarrow> mach_step (p, m) (p, m\<lparr>mach_cpu := c\<rparr>)"
| sigint: "SigintHangler now now' m = Some m' \<Longrightarrow> mach_step (p, m) (p, m')"

inductive_cases mach_stepE: "mach_step s s'"

inductive mach_reach :: "machine \<Rightarrow> phase \<times> machine \<Rightarrow> bool" for m0 where
  start: "mach_reach m0 (AtTime, m0)"
| step: "mach_reach m0 s \<Longrightarrow> mach_step s s' \<Longrightarrow> mach_reach m0 s'"

section \<open>Invariant\<close>

definition machine_shape :: bus_shape where
  "machine_shape =
     [(kClintBase, kClintAddrSpaceRange, ClassClint 1), (kPlicBase, kPlicAddrSpaceRange, ClassPlic 2 3),
      (kUartBase, kUartAddrSpaceRange, ClassUart), (kDramBaseAddr, kDramSize, ClassDram kDramSize)]"

definition machine_cpu :: "cpu \<Rightarrow> bool" where
  "machine_cpu c \<longleftrightarrow> cpu_inv False machine_shape c \<and> xreg c 0 = 0"

lemma class_of_iff:
  "class_of d = ClassClint n \<longleftrightarrow> (\<exists>x. d = DevClint x \<and> clint_harts x = n)"
  "class_of d = ClassPlic k v \<longleftrightarrow> (\<exists>p. d = DevPlic p \<and> length (plic_contexts p) = k \<and> plic_dev_num p = v)"
  "class_of d = ClassUart \<longleftrightarrow> (\<exists>u. d = DevUart u)"
  "class_of d = ClassDram n \<longleftrightarrow> (\<exists>x. d = DevDram x \<and> dram_size x = n)"
  by (cases d; simp)+

lemma machine_devs:
  assumes "machine_cpu c"
  shows "length (bus_device (cpu_bus c)) = 4"
    and "\<exists>x. dev_at raw_clint c = DevClint x \<and> clint_harts x = 1 \<and> clint_wf x"
    and "\<exists>p. dev_at raw_plic c = DevPlic p \<and> length (plic_contexts p) = 2 \<and> plic_dev_num p = 3 \<and> plic_wf p"
    and "\<exists>u. dev_at raw_uart c = DevUart u"
proof -
  from assms have sh: "map (\<lambda>nd. (node_base nd, node_size nd, class_of (node_dev nd))) (bus_device (cpu_bus c)) = machine_shape"
    and wf: "bus_wf (cpu_bus c)" by (auto simp: machine_cpu_def cpu_inv_def sv39_inv_def shape_of_def)
  from arg_cong [OF sh, of length] show len: "length (bus_device (cpu_bus c)) = 4" by (simp add: machine_shape_def)
  have cls: "class_of (dev_at i c) = snd (snd (machine_shape ! i))" if "i < 4" for i
    using len that arg_cong [OF sh, of "\<lambda>xs. snd (snd (xs ! i))"] by (auto simp: dev_at_def)
  have dwf: "device_wf (dev_at i c)" if "i < 4" for i
    using wf len that by (simp add: bus_wf_def list_all_length node_wf_def dev_at_def)
  show "\<exists>x. dev_at raw_clint c = DevClint x \<and> clint_harts x = 1 \<and> clint_wf x"
    using cls [of raw_clint] dwf [of raw_clint] by (auto simp: machine_shape_def raw_clint_def class_of_iff)
  show "\<exists>p. dev_at raw_plic c = DevPlic p \<and> length (plic_contexts p) = 2 \<and> plic_dev_num p = 3 \<and> plic_wf p"
    using cls [of raw_plic] dwf [of raw_plic] by (auto simp: machine_shape_def raw_plic_def class_of_iff)
  show "\<exists>u. dev_at raw_uart c = DevUart u"
    using cls [of raw_uart] by (auto simp: machine_shape_def raw_uart_def class_of_iff)
qed

lemma machine_cpu_put_dev:
  assumes "machine_cpu c" and "i < 4" and "class_of d = class_of (dev_at i c)" and "device_wf d"
  shows "machine_cpu (put_dev i d c)"
  using assms machine_devs(1) [OF assms(1)] bus_wf_set_dev [of "cpu_bus c" i d]
  by (auto simp: machine_cpu_def cpu_inv_def sv39_inv_def put_dev_def dev_at_def shape_set_dev)

lemma dev_at_put_dev [simp]:
  "length (bus_device (cpu_bus c)) = 4 \<Longrightarrow> i < 4 \<Longrightarrow> dev_at j (put_dev i d c) = (if i = j then d else dev_at j c)"
  by (simp add: dev_at_def put_dev_def set_dev_nth)

text \<open>No statement of the loop meets a dangling pointer or an index outside its table, and every
  one keeps the invariant.\<close>

lemma update_time_Done:
  assumes "machine_cpu c"
  shows "\<exists>c'. update_time ts c = Done c' \<and> machine_cpu c'"
proof -
  from machine_devs(2) [OF assms] obtain x where x: "dev_at raw_clint c = DevClint x" "clint_wf x" by blast
  then have "machine_cpu (put_dev raw_clint (DevClint (UpdateMtime ts x)) c)"
    using assms by (intro machine_cpu_put_dev) (simp_all add: UpdateMtime_def clint_wf_def raw_clint_def)
  with x show ?thesis by (simp add: update_time_def)
qed

lemma UpdateExt_Done:
  assumes "plic_wf p"
  obtains p' where "UpdateExt 1 b p = Done p'" and "plic_wf p'" and "p' = p\<lparr>plic_pending := plic_pending p'\<rparr>"
    and "bit (plic_pending p' ! 0) 1 = b" and "bit (plic_pending p' ! 0) 0 = bit (plic_pending p ! 0) 0"
proof -
  let ?w = "plic_pending p ! 0 AND NOT (push_bit 1 1)"
  let ?p = "p\<lparr>plic_pending := (plic_pending p)[0 := if b then ?w OR push_bit 1 1 else ?w]\<rparr>"
  have len: "length (plic_pending p) = 32" using assms by (simp add: plic_wf_def)
  then have "UpdateExt 1 b p = Done ?p" by (simp add: UpdateExt_def Let_def kWordBits_def)
  moreover have "plic_wf ?p" using assms by (simp add: plic_wf_def)
  moreover have "bit (plic_pending ?p ! 0) 1 = b" "bit (plic_pending ?p ! 0) 0 = bit (plic_pending p ! 0) 0"
    using len by (simp_all add: bit_simps)
  ultimately show ?thesis by (intro that [of ?p]) simp_all
qed

lemma update_ext_Done:
  assumes "machine_cpu c"
  shows "\<exists>c'. update_ext c = Done c' \<and> machine_cpu c'"
proof -
  from machine_devs [OF assms] obtain p u where p: "dev_at raw_plic c = DevPlic p" "plic_wf p"
    and u: "dev_at raw_uart c = DevUart u" by blast
  from UpdateExt_Done [OF p(2), of "Irq u"] obtain p' where e: "UpdateExt 1 (Irq u) p = Done p'" "plic_wf p'"
    and p': "p' = p\<lparr>plic_pending := plic_pending p'\<rparr>" .
  have "class_of (DevPlic p') = class_of (DevPlic p)" by (subst p') simp
  then have "machine_cpu (put_dev raw_plic (DevPlic p') c)"
    using assms e p by (intro machine_cpu_put_dev) (simp_all add: raw_plic_def)
  with p u e show ?thesis by (simp add: update_ext_def)
qed

text \<open>The interrupt query of a context: the answer does not depend on the claim fields of the
  contexts, and only the context's own claim field changes.\<close>

definition wants :: "plic \<Rightarrow> nat \<Rightarrow> u64" where
  "wants p k = snd (plic_select p (plic_contexts p ! k) [0..<unat (plic_dev_num p)] (0, 0))"

definition latch :: "nat \<Rightarrow> plic \<Rightarrow> plic" where
  "latch k p = p\<lparr>plic_contexts := (plic_contexts p)[k := (plic_contexts p ! k)\<lparr>ctx_claim := ucast (wants p k)\<rparr>]\<rparr>"

lemma plic_select_cong:
  assumes "plic_priority p' = plic_priority p" and "plic_pending p' = plic_pending p"
    and "ctx_threshold x' = ctx_threshold x" and "ctx_enable x' = ctx_enable x" and "ctx_claimed x' = ctx_claimed x"
  shows "plic_select p' x' is acc = plic_select p x is acc"
proof (induction "is" arbitrary: acc)
  case (Cons i "is")
  have "plic_eligible p' x' i = plic_eligible p x i" using assms by (simp add: plic_eligible_def)
  with Cons assms(1) show ?case by (cases acc) simp
qed simp

lemma wants_latch [simp]: "k < length (plic_contexts p) \<Longrightarrow> wants (latch j p) k = wants p k"
  by (cases "j = k") (auto simp: wants_def latch_def intro!: arg_cong [where f = snd] plic_select_cong)

lemma latch_latch: "j < length (plic_contexts p) \<Longrightarrow> k < length (plic_contexts p) \<Longrightarrow> j \<noteq> k \<Longrightarrow>
  latch j (latch k p) = latch k (latch j p)"
  unfolding latch_def [of j "latch k p"] latch_def [of k "latch j p"]
  by (simp add: list_update_swap) (simp add: latch_def list_update_swap)

lemma GetInterrupt_latch:
  assumes "plic_wf p" and "unat k < length (plic_contexts p)"
  shows "GetInterrupt k p = Done (wants p (unat k) \<noteq> 0, latch (unat k) p)"
  using assms by (simp add: GetInterrupt_def wants_def latch_def Let_def plic_wf_def word_le_nat_alt)

lemma latch_wf:
  assumes "plic_wf p" and "unat (k :: u64) < length (plic_contexts p)"
  shows "plic_wf (latch (unat k) p)"
proof (rule GetInterrupt_cases [OF assms])
  fix s
  assume s: "s < 1024" and eq: "GetInterrupt k p = Done (s \<noteq> 0, p\<lparr>plic_contexts := (plic_contexts p)
           [unat k := (plic_contexts p ! unat k)\<lparr>ctx_claim := of_nat s\<rparr>]\<rparr>)"
  have "unat (of_nat s :: u32) = s" using s by (simp add: unsigned_of_nat take_bit_eq_mod)
  then have "ctx_wf ((plic_contexts p ! unat k)\<lparr>ctx_claim := of_nat s\<rparr>)"
    using plic_wf_ctx [OF assms] s by (simp add: ctx_wf_def)
  then show ?thesis using plic_wf_context_update [OF assms(1)] eq GetInterrupt_latch [OF assms] by simp
qed

lemma query_latch:
  assumes "dev_at raw_plic c = DevPlic p" and "plic_wf p" and "unat k < length (plic_contexts p)"
  shows "query k c = Done (wants p (unat k) \<noteq> 0, put_dev raw_plic (DevPlic (latch (unat k) p)) c)"
  using assms GetInterrupt_latch by (simp add: query_def)

lemma put_dev_put_dev [simp]:
  "i < length (bus_device (cpu_bus c)) \<Longrightarrow> put_dev i d (put_dev i d' c) = put_dev i d c"
  by (simp add: put_dev_def set_dev_def)

text \<open>Whatever the order of evaluation, the cycle gets the same lines and leaves the same state.\<close>

lemma irq_lines_Done:
  assumes m: "machine_cpu c" and p: "dev_at raw_plic c = DevPlic p" and x: "dev_at raw_clint c = DevClint x"
  shows "irq_lines left c = Done (wants p 0 \<noteq> 0, wants p 1 \<noteq> 0, clint_msip x ! 0 AND 1 = 1,
    clint_mtimecmp x ! 0 < clint_mtime x, put_dev raw_plic (DevPlic (latch 1 (latch 0 p))) c)"
    and "machine_cpu (put_dev raw_plic (DevPlic (latch 1 (latch 0 p))) c)"
proof -
  from machine_devs [OF m] p x have len: "length (bus_device (cpu_bus c)) = 4" and wf: "plic_wf p" "length (plic_contexts p) = 2"
    and cl: "clint_harts x = 1" "clint_wf x" by simp_all
  have w: "plic_wf (latch 0 p)" "plic_wf (latch 1 p)" "length (plic_contexts (latch k p)) = 2" for k
    using latch_wf [of p 0] latch_wf [of p 1] wf by (simp_all add: latch_def)
  have w2: "plic_wf (latch 1 (latch 0 p))" using latch_wf [of "latch 0 p" 1] w by simp
  let ?c = "\<lambda>q. put_dev raw_plic (DevPlic q) c"
  have d: "dev_at raw_plic (?c q) = DevPlic q" "dev_at raw_clint (?c q) = DevClint x" for q
    using len x by (simp_all add: raw_plic_def raw_clint_def)
  have q: "query 0 c = Done (wants p 0 \<noteq> 0, ?c (latch 0 p))" "query 1 c = Done (wants p 1 \<noteq> 0, ?c (latch 1 p))"
    using query_latch [OF p wf(1), of 0] query_latch [OF p wf(1), of 1] wf(2) by simp_all
  have q': "query 1 (?c (latch 0 p)) = Done (wants p 1 \<noteq> 0, ?c (latch 1 (latch 0 p)))"
    "query 0 (?c (latch 1 p)) = Done (wants p 0 \<noteq> 0, ?c (latch 0 (latch 1 p)))"
    using query_latch [OF d(1) w(1), of 1] query_latch [OF d(1) w(2), of 0] wf(2) w(3) len by (simp_all add: raw_plic_def)
  have "latch 0 (latch 1 p) = latch 1 (latch 0 p)" using wf(2) by (intro latch_latch) simp_all
  moreover have "MachineSoftwareIrq x 0 = Done (clint_msip x ! 0 AND 1 = 1)"
    "MachineTimerIrq x 0 = Done (clint_mtimecmp x ! 0 < clint_mtime x)"
    using cl by (simp_all add: MachineSoftwareIrq_def MachineTimerIrq_def clint_wf_def)
  ultimately show "irq_lines left c = Done (wants p 0 \<noteq> 0, wants p 1 \<noteq> 0, clint_msip x ! 0 AND 1 = 1,
    clint_mtimecmp x ! 0 < clint_mtime x, ?c (latch 1 (latch 0 p)))"
    by (simp add: irq_lines_def q q' [unfolded One_nat_def] d)
  show "machine_cpu (?c (latch 1 (latch 0 p)))"
    using m p w2 w(3) wf by (intro machine_cpu_put_dev) (simp_all add: raw_plic_def, simp add: latch_def)
qed

lemma machine_cpu_Tick: "machine_cpu c \<Longrightarrow> machine_cpu (CPU_Tick env meip seip msip mtip upd c)"
  by (simp add: machine_cpu_def cpu_inv_Tick x0_Tick)

lemma run_cycle_Done:
  assumes "machine_cpu c"
  shows "\<exists>c'. run_cycle left env c = Done c' \<and> machine_cpu c'" and "run_cycle left env c = run_cycle True env c"
proof -
  from machine_devs [OF assms] obtain p x where "dev_at raw_plic c = DevPlic p" "dev_at raw_clint c = DevClint x" by blast
  from irq_lines_Done [OF assms this] show "\<exists>c'. run_cycle left env c = Done c' \<and> machine_cpu c'"
    and "run_cycle left env c = run_cycle True env c"
    by (simp_all add: run_cycle_def machine_cpu_Tick)
qed

lemma machine_cpu_uart:
  assumes "machine_cpu c" and "dev_at raw_uart c = DevUart u"
  shows "machine_cpu (put_dev raw_uart (DevUart u') c)"
  using assms by (intro machine_cpu_put_dev) (simp_all add: raw_uart_def)

lemma main_step_Done:
  assumes "machine_cpu (mach_cpu m)"
  shows "\<exists>p' m'. main_step left env ts (p, m) = Done (p', m') \<and> machine_cpu (mach_cpu m')"
proof -
  from machine_devs(4) [OF assms] obtain u where u: "dev_at raw_uart (mach_cpu m) = DevUart u" by blast
  from machine_cpu_uart [OF assms u] have m: "machine_cpu (put_dev raw_uart (DevUart u') (mach_cpu m))" for u' .
  show ?thesis
  proof (cases p)
    case AtTime
    then show ?thesis using update_time_Done [OF assms, of ts] by (auto simp: with_cpu_def)
  next
    case AtExt
    then show ?thesis using update_ext_Done [OF assms] by (auto simp: with_cpu_def)
  next
    case AtTick
    then show ?thesis using run_cycle_Done(1) [OF assms, of left env] by (auto simp: with_cpu_def)
  next
    case AtDrain
    then show ?thesis using u m assms by (auto split: prod.splits)
  next
    case AtCtrlC
    then show ?thesis using u m assms by (auto simp: forward_ctrl_c_def)
  qed
qed

lemma mach_step_inv:
  assumes "mach_step s s'" and "machine_cpu (mach_cpu (snd s))"
  shows "machine_cpu (mach_cpu (snd s'))"
  using assms(1)
proof (cases rule: mach_step.cases)
  case (main left env ts)
  then show ?thesis using main_step_Done [OF assms(2), of left env ts "fst s"] by auto
next
  case (key ch m c p)
  from assms(2) key machine_devs(4) obtain u where u: "dev_at raw_uart (mach_cpu m) = DevUart u" by fastforce
  then show ?thesis using key assms(2) machine_cpu_uart [OF _ u] by (auto simp: UartInput_def)
next
  case (sigint now now' m m' p)
  then show ?thesis using assms(2) by (auto simp: SigintHangler_def split: if_splits)
qed

lemma mach_reach_inv: "mach_reach m0 s \<Longrightarrow> machine_cpu (mach_cpu m0) \<Longrightarrow> machine_cpu (mach_cpu (snd s))"
  by (induction rule: mach_reach.induct) (simp_all add: mach_step_inv)

section \<open>The machine that \<open>main\<close> builds\<close>

lemma make_bus_Done:
  "make_bus ts d = Done \<lparr>bus_device =
     [\<lparr>node_base = kClintBase, node_size = kClintAddrSpaceRange, node_dev = DevClint (Clint ts 1)\<rparr>,
      \<lparr>node_base = kPlicBase, node_size = kPlicAddrSpaceRange, node_dev = DevPlic (Plic 1 True 2)\<rparr>,
      \<lparr>node_base = kUartBase, node_size = kUartAddrSpaceRange, node_dev = DevUart Uart\<rparr>,
      \<lparr>node_base = kDramBaseAddr, node_size = kDramSize, node_dev = DevDram d\<rparr>]\<rparr>"
  by (simp add: make_bus_def MountDevice_def Bus_def kMaxMmioDevicesNum_def)

lemma main_init_Done:
  assumes "main_init ts [img] = Inr (Done m)"
  shows "machine_cpu (mach_cpu m)" and "cpu_pc (mach_cpu m) = 0x80000000" and "cpu_priv_mode (mach_cpu m) = kMachine"
    and "dev_at 3 (mach_cpu m) = DevDram \<lparr>dram_size = kDramSize, dram_memory = img @ replicate (unat kDramSize - length img) 0\<rparr>"
proof -
  from assms obtain d where d: "DRAM_file kDramSize img = Done d"
    by (cases "DRAM_file kDramSize img") (simp_all add: main_init_def)
  then have len: "length img \<le> unat kDramSize" using DRAM_file_overflows [of kDramSize img] by fastforce
  from DRAM_file_fits [OF len] d have wf: "dram_wf d" by auto
  from DRAM_file_image [OF len] d have size: "dram_size d = kDramSize"
    and mem: "dram_memory d = img @ replicate (unat kDramSize - length img) 0" by auto
  obtain b where b: "make_bus ts d = Done b" by (simp add: make_bus_Done)
  with assms d have m: "mach_cpu m = (CPU 0 (Sv39 b))\<lparr>cpu_pc := kDramBaseAddr\<rparr>"
    by (auto simp: main_init_def MakeCPU_def)
  have sh: "shape_of b = machine_shape"
    using b size by (auto simp: make_bus_Done shape_of_def machine_shape_def Clint_def Plic_def Let_def)
  have "bus_wf b"
    using b wf clint_wf_Clint [of 1 ts] plic_wf_Plic [of 2 1 True]
    by (auto simp: make_bus_Done bus_wf_def node_wf_def kDramSize_def const_defs)
  then have "cpu_inv False machine_shape (CPU 0 (Sv39 b))" using cpu_inv_init [of b False 0] sh by simp
  then show "machine_cpu (mach_cpu m)" by (simp add: m machine_cpu_def) (simp add: CPU_def)
  show "cpu_pc (mach_cpu m) = 0x80000000" "cpu_priv_mode (mach_cpu m) = kMachine"
    by (simp_all add: m CPU_def kDramBaseAddr_def)
  show "dev_at 3 (mach_cpu m) = DevDram \<lparr>dram_size = kDramSize, dram_memory = img @ replicate (unat kDramSize - length img) 0\<rparr>"
    using b size mem by (cases d) (auto simp: m dev_at_def make_bus_Done CPU_def Sv39_def)
qed

lemma memory_map:
  assumes "machine_cpu c"
  shows "GetDeviceByRange (cpu_bus c) a =
    (if 0x2000000 \<le> a \<and> a < 0x2010000 then Some raw_clint
     else if 0xc000000 \<le> a \<and> a < 0x10000000 then Some raw_plic
     else if 0x60100000 \<le> a \<and> a < 0x60101000 then Some raw_uart
     else if 0x80000000 \<le> a \<and> a < 0x84000000 then Some 3 else None)"
proof -
  from machine_devs(1) [OF assms] obtain n0 n1 n2 n3 where nds: "bus_device (cpu_bus c) = [n0, n1, n2, n3]"
    by (auto simp: length_Suc_conv eval_nat_numeral)
  have "node_base n0 = kClintBase" "node_size n0 = kClintAddrSpaceRange" "node_base n1 = kPlicBase" "node_size n1 = kPlicAddrSpaceRange"
    "node_base n2 = kUartBase" "node_size n2 = kUartAddrSpaceRange" "node_base n3 = kDramBaseAddr" "node_size n3 = kDramSize"
    using assms by (simp_all add: machine_cpu_def cpu_inv_def sv39_inv_def shape_of_def machine_shape_def nds)
  then show ?thesis
    by (simp add: GetDeviceByRange_def nds node_holds_def kDramSize_def const_defs)
qed

end
