(* ===== verification/Machine_Props.thy ===== *)
theory Machine_Props
  imports Machine
begin

text \<open>
  What the whole machine guarantees: no step of the main loop, of the input thread or of the
  interrupt key meets undefined behaviour in the program's own code and the memory map stays fixed;
  every iteration of the loop ends; the console shows the transmitted characters with the
  carriage returns it is meant to drop removed; and a typed character wakes a waiting hart.
\<close>

section \<open>The console\<close>

lemma drain_fold:
  "drain u s = (u\<lparr>tx_buffer := [], wait_ack := wait_ack u \<or> tx_buffer u \<noteq> []\<rparr>, fold emit (tx_buffer u) s)"
proof (induction u s rule: drain.induct)
  case (1 u s)
  show ?case
  proof (cases "tx_buffer u")
    case Nil
    then show ?thesis by (simp add: drain.simps [of u s] TxBufferNotEmpty_def)
  next
    case (Cons ch rest)
    obtain u' where u': "Getc u = (ch, u')" "tx_buffer u' = rest" "wait_ack u' = (wait_ack u \<or> rest = [])"
      "u'\<lparr>tx_buffer := [], wait_ack := True\<rparr> = u\<lparr>tx_buffer := [], wait_ack := True\<rparr>"
      using Cons by (auto simp: Getc_def)
    have "drain u s = drain u' (emit ch s)"
      using Cons u'(1) by (simp add: drain.simps [of u s] TxBufferNotEmpty_def)
    also have "\<dots> = (u'\<lparr>tx_buffer := [], wait_ack := True\<rparr>, fold emit rest (emit ch s))"
      using "1.IH" Cons u' by (auto simp: TxBufferNotEmpty_def)
    finally show ?thesis using u'(4) Cons by simp
  qed
qed

text \<open>A transmitted stream is a sequence of runs: some carriage returns and another character.\<close>

definition runs :: "(nat \<times> u8) list \<Rightarrow> u8 list" where
  "runs rs = concat (map (\<lambda>(k, ch). replicate k 13 @ [ch]) rs)"

definition shown :: "(nat \<times> u8) list \<Rightarrow> u8 list" where
  "shown rs = concat (map (\<lambda>(k, ch). if 0 < k \<and> ch \<noteq> 10 then [13, ch] else [ch]) rs)"

lemma emit_returns: "(emit 13 ^^ k) s = s\<lparr>delay_cr := delay_cr s \<or> 0 < k\<rparr>"
  by (induction k) (simp_all add: emit_def)

lemma emit_runs:
  assumes "list_all (\<lambda>(k, ch). ch \<noteq> 13) rs" and "\<not> delay_cr s"
  shows "fold emit (runs rs) s = s\<lparr>printed := printed s @ shown rs\<rparr>"
  using assms
proof (induction rs arbitrary: s)
  case (Cons r rs)
  obtain k ch where r: "r = (k, ch)" by fastforce
  let ?s = "fold emit (replicate k 13 @ [ch]) s"
  have s: "?s = s\<lparr>printed := printed s @ shown [r]\<rparr>"
    using Cons.prems r by (simp add: emit_returns emit_def shown_def)
  have "fold emit (runs (r # rs)) s = fold emit (runs rs) ?s" by (simp add: runs_def r)
  also have "\<dots> = ?s\<lparr>printed := printed ?s @ shown rs\<rparr>" using Cons.prems s by (intro Cons.IH) simp_all
  finally show ?case using s by (simp add: shown_def)
qed (simp add: runs_def shown_def)

lemma runs_exist: "\<exists>rs n. list_all (\<lambda>(k, ch). ch \<noteq> 13) rs \<and> xs = runs rs @ replicate n 13"
proof (induction xs)
  case Nil
  show ?case by (intro exI [of _ "[]"] exI [of _ 0]) (simp add: runs_def)
next
  case (Cons x xs)
  then obtain rs n where rs: "list_all (\<lambda>(k, ch). ch \<noteq> 13) rs" "xs = runs rs @ replicate n 13" by blast
  show ?case
  proof (cases "x = 13")
    case False
    with rs show ?thesis by (intro exI [of _ "(0, x) # rs"] exI [of _ n]) (simp add: runs_def)
  next
    case True
    show ?thesis
    proof (cases rs)
      case Nil
      with rs True show ?thesis by (intro exI [of _ "[]"] exI [of _ "Suc n"]) (simp add: runs_def)
    next
      case (Cons r rs')
      with rs True show ?thesis
        by (intro exI [of _ "(Suc (fst r), snd r) # rs'"] exI [of _ n]) (auto simp: runs_def split: prod.splits)
    qed
  qed
qed

text \<open>C27: The console. Draining the transmit queue ends with the queue empty. The characters, after a
  carriage return still held back from before, are runs of carriage returns each followed by another
  character, and perhaps carriage returns at the end. Each run is shown as its last character,
  preceded by one carriage return unless there was none or the character is a line feed; carriage
  returns at the end are held back. So nothing is lost and no line ends in carriage return and line
  feed, however the characters are split into batches.\<close>

theorem console_output:
  "\<exists>rs n. list_all (\<lambda>(k, ch). ch \<noteq> 13) rs \<and>
     (if delay_cr s then [13] else []) @ tx_buffer u = runs rs @ replicate n 13 \<and>
     drain u s = (u\<lparr>tx_buffer := [], wait_ack := wait_ack u \<or> tx_buffer u \<noteq> []\<rparr>,
                  s\<lparr>delay_cr := (0 < n), printed := printed s @ shown rs\<rparr>)"
proof -
  let ?xs = "(if delay_cr s then [13] else []) @ tx_buffer u"
  obtain rs n where rs: "list_all (\<lambda>(k, ch). ch \<noteq> 13) rs" "?xs = runs rs @ replicate n 13"
    using runs_exist by blast
  have "fold emit (tx_buffer u) s = fold emit ?xs (s\<lparr>delay_cr := False\<rparr>)"
    by (cases s) (simp add: emit_def)
  also have "\<dots> = s\<lparr>delay_cr := (0 < n), printed := printed s @ shown rs\<rparr>"
    unfolding rs(2) by (simp add: emit_runs [OF rs(1)] emit_returns)
  finally show ?thesis using rs by (auto simp: drain_fold)
qed

theorem console_output_witness:
  "\<exists>rs n. [13, 10, 13, 65, 13] = runs rs @ replicate n 13 \<and>
     snd (drain (Uart\<lparr>tx_buffer := [13, 10, 13, 65, 13]\<rparr>) \<lparr>delay_cr = False, printed = []\<rparr>) =
       \<lparr>delay_cr = (0 < n), printed = shown rs\<rparr>"
proof -
  from console_output [of "\<lparr>delay_cr = False, printed = []\<rparr>" "Uart\<lparr>tx_buffer := [13, 10, 13, 65, 13]\<rparr>"]
  obtain rs n where "[13, 10, 13, 65, 13] = runs rs @ replicate n 13"
    "snd (drain (Uart\<lparr>tx_buffer := [13, 10, 13, 65, 13]\<rparr>) \<lparr>delay_cr = False, printed = []\<rparr>) =
       \<lparr>delay_cr = (0 < n), printed = shown rs\<rparr>" by (elim exE conjE) simp
  then show ?thesis by blast
qed

section \<open>Iterations of the loop\<close>

lemma drain_steps:
  assumes "machine_cpu (mach_cpu m)"
  obtains m' where "drain_output m = Done m'" and "machine_cpu (mach_cpu m')" and "send_ctrl_c m' = send_ctrl_c m"
    and "mach_step\<^sup>*\<^sup>* (AtDrain, m) (AtCtrlC, m')"
  using assms
proof (induction "case dev_at raw_uart (mach_cpu m) of DevUart u \<Rightarrow> length (tx_buffer u) | _ \<Rightarrow> 0" arbitrary: m thesis)
  case 0
  from machine_devs(4) [OF "0.prems"(2)] obtain u where u: "dev_at raw_uart (mach_cpu m) = DevUart u" by blast
  with "0.hyps" have "tx_buffer u = []" by simp
  then have "drain u s = (u, s)" and "\<not> TxBufferNotEmpty u" for s by (simp_all add: drain.simps TxBufferNotEmpty_def)
  moreover from u have "put_dev raw_uart (DevUart u) (mach_cpu m) = mach_cpu m"
    using set_dev_same [of raw_uart "cpu_bus (mach_cpu m)"] machine_devs(1) [OF "0.prems"(2)]
    by (simp add: put_dev_def dev_at_def raw_uart_def)
  ultimately have "drain_output m = Done m" "main_step True example_env 0 (AtDrain, m) = Done (AtCtrlC, m)"
    using u by (simp_all add: drain_output_def)
  with mach_step.main [OF this(2)] show ?case using "0.prems" by blast
next
  case (Suc k)
  from machine_devs [OF Suc.prems(2)] obtain u where u: "dev_at raw_uart (mach_cpu m) = DevUart u"
    and len: "length (bus_device (cpu_bus (mach_cpu m))) = 4" by blast
  with Suc.hyps(2) obtain ch rest where tx: "tx_buffer u = ch # rest" "length rest = k" by (cases "tx_buffer u") auto
  obtain u' where u': "Getc u = (ch, u')" "tx_buffer u' = rest" using tx by (auto simp: Getc_def)
  let ?m = "m\<lparr>mach_cpu := put_dev raw_uart (DevUart u') (mach_cpu m), mach_console := emit ch (mach_console m)\<rparr>"
  have d: "dev_at raw_uart (mach_cpu ?m) = DevUart u'" using len by (simp add: raw_uart_def)
  have m: "machine_cpu (mach_cpu ?m)" using machine_cpu_uart [OF Suc.prems(2) u] by simp
  from Suc.hyps(1) [of ?m, OF _ _ m] d u'(2) tx(2) obtain m' where
    m': "drain_output ?m = Done m'" "machine_cpu (mach_cpu m')" "send_ctrl_c m' = send_ctrl_c ?m"
    "mach_step\<^sup>*\<^sup>* (AtDrain, ?m) (AtCtrlC, m')" by auto
  have "drain u (mach_console m) = drain u' (emit ch (mach_console m))"
    using tx u'(1) by (simp add: drain.simps [of u] TxBufferNotEmpty_def)
  then have "drain_output m = drain_output ?m"
    using u d len by (simp add: drain_output_def raw_uart_def split: prod.splits)
  moreover have "mach_step (AtDrain, m) (AtDrain, ?m)"
    using u tx u'(1) by (intro mach_step.main [of True example_env 0]) (simp add: TxBufferNotEmpty_def)
  ultimately show ?case using m' Suc.prems(1) [of m'] by (simp add: converse_rtranclp_into_rtranclp)
qed

lemma main_loop_steps:
  assumes m: "machine_cpu (mach_cpu m)"
  obtains m' where "main_loop left env ts m = Done m'" and "machine_cpu (mach_cpu m')"
    and "mach_step\<^sup>*\<^sup>* (AtTime, m) (AtTime, m')"
proof -
  from update_time_Done [OF m] obtain c1 where c1: "update_time ts (mach_cpu m) = Done c1" "machine_cpu c1" by blast
  from update_ext_Done [OF c1(2)] obtain c2 where c2: "update_ext c1 = Done c2" "machine_cpu c2" by blast
  from run_cycle_Done(1) [OF c2(2)] obtain c3 where c3: "run_cycle left env c2 = Done c3" "machine_cpu c3" by blast
  from drain_steps [of "m\<lparr>mach_cpu := c3\<rparr>"] c3 obtain m4 where m4: "drain_output (m\<lparr>mach_cpu := c3\<rparr>) = Done m4"
    "machine_cpu (mach_cpu m4)" "mach_step\<^sup>*\<^sup>* (AtDrain, m\<lparr>mach_cpu := c3\<rparr>) (AtCtrlC, m4)" by auto
  from main_step_Done [OF m4(2), of left env ts AtCtrlC] obtain m5 where m5: "forward_ctrl_c m4 = Done m5"
    "machine_cpu (mach_cpu m5)" by (auto simp: map_io_eq_Done)
  have "mach_step (AtTime, m) (AtExt, m\<lparr>mach_cpu := c1\<rparr>)" "mach_step (AtExt, m\<lparr>mach_cpu := c1\<rparr>) (AtTick, m\<lparr>mach_cpu := c2\<rparr>)"
    "mach_step (AtTick, m\<lparr>mach_cpu := c2\<rparr>) (AtDrain, m\<lparr>mach_cpu := c3\<rparr>)" "mach_step (AtCtrlC, m4) (AtTime, m5)"
    using c1 c2 c3 m5 by (auto intro!: mach_step.main [of left env ts] simp: with_cpu_def)
  with m4(3) have "mach_step\<^sup>*\<^sup>* (AtTime, m) (AtTime, m5)"
    by (meson converse_rtranclp_into_rtranclp rtranclp.rtrancl_into_rtrancl)
  moreover have "main_loop left env ts m = Done m5" using c1 c2 c3 m4 m5 by (simp add: main_loop_def)
  ultimately show ?thesis using m5(2) that by blast
qed


lemma main_init_exists: "\<exists>m. main_init ts [[]] = Inr (Done m)"
  by (simp add: main_init_def DRAM_file_image make_bus_Done)


text \<open>C28: Every iteration of the main loop ends, the loop over the transmit queue included, whatever
  order C++ evaluates the arguments of the cycle in; the two orders give the same machine; and the
  iteration is a run of the interleaved steps in which no other thread moves.\<close>

theorem iteration_ends:
  assumes "main_init ts0 [img] = Inr (Done m0)" and "mach_reach m0 (AtTime, m)"
  shows "\<exists>m'. main_loop left env ts m = Done m' \<and> main_loop (\<not> left) env ts m = Done m' \<and>
    mach_step\<^sup>*\<^sup>* (AtTime, m) (AtTime, m')"
proof -
  from mach_reach_inv [OF assms(2) main_init_Done(1) [OF assms(1)]] have m: "machine_cpu (mach_cpu m)" by simp
  from update_time_Done [OF m] obtain c1 where c1: "update_time ts (mach_cpu m) = Done c1" "machine_cpu c1" by blast
  from update_ext_Done [OF c1(2)] obtain c2 where c2: "update_ext c1 = Done c2" "machine_cpu c2" by blast
  from run_cycle_Done(2) [OF c2(2), of left env] run_cycle_Done(2) [OF c2(2), of "\<not> left" env]
  have "main_loop (\<not> left) env ts m = main_loop left env ts m" using c1 c2 by (simp add: main_loop_def)
  with main_loop_steps [OF m, of left env ts] show ?thesis by metis
qed

theorem iteration_ends_witness:
  "\<exists>m m'. main_init 0 [[]] = Inr (Done m) \<and> main_loop True example_env 7 m = Done m'"
proof -
  obtain m where m: "main_init 0 [[]] = Inr (Done m)" using main_init_exists by blast
  with iteration_ends [OF m mach_reach.start, of True example_env 7] show ?thesis by blast
qed

section \<open>A typed character wakes a waiting hart\<close>

lemma external_first: "bit b 11 \<Longrightarrow> InterruptBitsToTrap b = kMachineExternalInterrupt"
  using TrapToMask_deleg [of kMachineExternalInterrupt b] by (auto simp: InterruptBitsToTrap_def kRankedIrqs_def)

lemma external_selected:
  assumes wf: "csr_wf (cpu_state c)" and p: "bit (irq_bits c) 11"
    and on: "cpu_priv_mode c \<noteq> kMachine \<or> mstatus_get ''mie'' (mstatus_of c) \<noteq> 0"
  shows "select_interrupt c = kMachineExternalInterrupt" and "\<not> delegated c kMachineExternalInterrupt"
proof -
  show d: "\<not> delegated c kMachineExternalInterrupt" using machine_irq_not_delegated [OF wf] by simp
  show "select_interrupt c = kMachineExternalInterrupt"
  proof (cases "cpu_priv_mode c = kMachine")
    case True
    have "bit (irq_bits c AND NOT (State_Read (cpu_state c) kCsrMideleg)) 11"
      using p d by (simp add: delegated_def bit_simps)
    from external_first [OF this] on True show ?thesis by (simp add: select_interrupt_machine)
  next
    case False
    with external_first [OF p] d show ?thesis by (simp add: select_interrupt_lower)
  qed
qed

lemma update_mip_external:
  "bit (csr (cpu_state (update_mip True seip msip mtip c)) kCsrMip) 11"
  "a \<noteq> kCsrMip \<Longrightarrow> csr (cpu_state (update_mip True seip msip mtip c)) a = csr (cpu_state c) a"
  "csr_wfi (cpu_state (update_mip True seip msip mtip c)) = csr_wfi (cpu_state c)"
  "cpu_pc (update_mip True seip msip mtip c) = cpu_pc c"
  "cpu_priv_mode (update_mip True seip msip mtip c) = cpu_priv_mode c"
  by (simp_all add: update_mip_def Let_def State_Write_masked) (simp add: bit_simps bit_fset const_defs field_defs)

lemma Tick_external:
  fixes c :: cpu and env :: env and seip msip mtip :: bool
  assumes wf: "csr_wf (cpu_state c)" and wfi: "GetWfi (cpu_state c)" and mie: "bit (State_Read (cpu_state c) kCsrMie) 11"
    and on: "cpu_priv_mode c \<noteq> kMachine \<or> mstatus_get ''mie'' (mstatus_of c) \<noteq> 0"
  defines "c' \<equiv> CPU_Tick env True seip msip mtip True c"
  shows "cpu_priv_mode c' = kMachine" and "cpu_pc c' = GetTrapPC (State_Read (cpu_state c) kCsrMtvec) 11"
    and "State_Read (cpu_state c') kCsrMepc = cpu_pc c"
    and "State_Read (cpu_state c') kCsrMcause = cause_bits kMachineExternalInterrupt"
    and "\<not> GetWfi (cpu_state c')"
proof -
  define c0 where "c0 = update_mip True seip msip mtip c"
  define c1 where "c1 = c0\<lparr>cpu_state := SetWfi False (cpu_state c0)\<rparr>"
  note u = update_mip_external [where seip = seip and msip = msip and mtip = mtip and c = c, folded c0_def]
  have r: "csr (cpu_state c1) a = csr (cpu_state c0) a" for a by (simp add: c1_def SetWfi_def)
  have k: "kCsrMie \<noteq> kCsrMip" "kCsrMstatus \<noteq> kCsrMip" "kCsrMtvec \<noteq> kCsrMip" by (simp_all add: const_defs)
  have bits: "bit (irq_bits c1) 11" "bit (irq_bits c0) 11"
    using u(1) mie k by (simp_all add: irq_bits_def State_Read_plain bit_and_iff r u(2))
  then have "State_Read (cpu_state c0) kCsrMie AND State_Read (cpu_state c0) kCsrMip \<noteq> 0"
    by (metis and.commute bit_0_eq bot_apply bot_bool_def irq_bits_def)
  moreover have "GetWfi (cpu_state c0)" using wfi u(3) by (simp add: GetWfi_def)
  ultimately have op: "TickOperate env c0 = (kNoneTrap, c1)" by (simp add: TickOperate_def Let_def c1_def)
  have "csr_wf (cpu_state c1)"
    using wf by (simp add: c1_def c0_def update_mip_def Let_def csr_wf_SetWfi csr_wf_Write)
  moreover have "cpu_priv_mode c1 \<noteq> kMachine \<or> mstatus_get ''mie'' (mstatus_of c1) \<noteq> 0"
    using on u(2,5) k by (simp add: mstatus_of_def State_Read_plain r) (simp add: c1_def)
  ultimately have sel: "select_interrupt c1 = kMachineExternalInterrupt" "\<not> delegated c1 kMachineExternalInterrupt"
    using external_selected bits(1) by blast+
  have ne: "kMachineExternalInterrupt \<noteq> kNone" "is_interrupt kMachineExternalInterrupt" by simp_all
  note h = HandleInterrupt_machine [OF sel(1) ne sel(2), of "cpu_pc c1"]
  have c': "c' = (let c3 = HandleInterrupt (cpu_pc c1) c1; n = cpu_instret c3 + 1
      in c3\<lparr>cpu_instret := n, cpu_state := State_Write kCsrMinstret n (cpu_state c3)\<rparr>)"
    by (simp add: c'_def CPU_Tick_def op flip: c0_def)
  have w: "csr (State_Write kCsrMinstret n s) a = csr s a" if "a \<noteq> csr_home kCsrMinstret" for n s a
    using that by (rule csr_Write_other)
  have home: "csr_home kCsrMinstret = kCsrMinstret" by (simp add: csr_home_def const_defs)
  have ne': "kCsrMepc \<noteq> kCsrMinstret" "kCsrMcause \<noteq> kCsrMinstret" by (simp_all add: const_defs)
  have pc: "cpu_pc c1 = cpu_pc c" using u(4) by (simp add: c1_def)
  show "cpu_priv_mode c' = kMachine" "State_Read (cpu_state c') kCsrMepc = cpu_pc c"
    "State_Read (cpu_state c') kCsrMcause = cause_bits kMachineExternalInterrupt"
    using h pc ne' by (simp_all add: c' Let_def State_Read_plain w home)
  show "cpu_pc c' = GetTrapPC (State_Read (cpu_state c) kCsrMtvec) 11"
    using h(2) u(2) k(3) by (simp add: c' Let_def State_Read_plain r)
  show "\<not> GetWfi (cpu_state c')" using h(6) by (simp add: c' Let_def GetWfi_def csr_Write_wfi)
qed

lemma wants_external:
  assumes wf: "plic_wf p" and len: "length (plic_contexts p) = 2" "plic_dev_num p = 3"
    and el: "plic_eligible p (plic_contexts p ! 0) 1" "0 < plic_priority p ! 1" and z: "\<not> bit (plic_pending p ! 0) 0"
  shows "wants p 0 \<noteq> 0"
proof -
  have l0: "unat (0 :: u64) < length (plic_contexts p)" using len by simp
  show ?thesis
  proof (rule GetInterrupt_cases [OF wf l0])
    fix s
    assume eq: "GetInterrupt 0 p = Done (s \<noteq> 0, p\<lparr>plic_contexts := (plic_contexts p)
           [unat 0 := (plic_contexts p ! unat 0)\<lparr>ctx_claim := of_nat s\<rparr>]\<rparr>)"
      and best: "plic_best p (plic_contexts p ! unat 0) (unat (plic_dev_num p)) s \<or>
         s = 0 \<and> (\<forall>i < unat (plic_dev_num p). plic_eligible p (plic_contexts p ! unat 0) i \<longrightarrow> plic_priority p ! i = 0)"
    have "s \<noteq> 0"
    proof
      assume "s = 0"
      with best el len have "plic_eligible p (plic_contexts p ! 0) 0" by (auto simp: plic_best_def)
      with z show False by (simp add: plic_eligible_bits)
    qed
    with eq GetInterrupt_latch [OF wf l0] show ?thesis by simp
  qed
qed

lemma put_dev_simps [simp]:
  "cpu_state (put_dev i d c) = cpu_state c" "cpu_pc (put_dev i d c) = cpu_pc c"
  "cpu_priv_mode (put_dev i d c) = cpu_priv_mode c" "cpu_xregs (put_dev i d c) = cpu_xregs c"
  by (simp_all add: put_dev_def)

lemma mstatus_of_put_dev [simp]: "mstatus_of (put_dev i d c) = mstatus_of c"
  by (simp add: mstatus_of_def)

lemma main_loop_cpu:
  assumes "main_loop left env ts m = Done m'"
  obtains c1 c2 c3 where "update_time ts (mach_cpu m) = Done c1" and "update_ext c1 = Done c2"
    and "run_cycle left env c2 = Done c3" and "cpu_state (mach_cpu m') = cpu_state c3"
    and "cpu_pc (mach_cpu m') = cpu_pc c3" and "cpu_priv_mode (mach_cpu m') = cpu_priv_mode c3"
proof -
  have bind: "bind_io r f = Done y \<longleftrightarrow> (\<exists>x. r = Done x \<and> f x = Done y)" for r :: "'a io" and f and y :: 'b
    by (cases r) auto
  from assms obtain c1 c2 c3 m4 where *: "update_time ts (mach_cpu m) = Done c1" "update_ext c1 = Done c2"
    "run_cycle left env c2 = Done c3" "drain_output (m\<lparr>mach_cpu := c3\<rparr>) = Done m4" "forward_ctrl_c m4 = Done m'"
    by (auto simp: main_loop_def bind)
  then show ?thesis
    by (intro that [of c1 c2 c3]) (auto simp: drain_output_def forward_ctrl_c_def split: device.splits prod.splits if_splits)
qed

text \<open>C6: From the keyboard to the trap handler. A hart waits for an interrupt with external machine
  interrupts enabled, and the interrupt controller lets the serial port (source 1) through to it. When
  a character is typed, the next iteration of the main loop ends with the hart in machine mode at the
  external-interrupt entry of its trap vector, with the cause recorded and the address it
  waited at saved; it no longer waits.\<close>

theorem key_wakes_hart:
  fixes m :: machine and c :: cpu
  assumes m: "machine_cpu c" "mach_cpu m = c" and key: "UartInput ch c = Done c1"
    and wfi: "GetWfi (cpu_state c)" and mie: "bit (State_Read (cpu_state c) kCsrMie) 11"
    and on: "cpu_priv_mode c \<noteq> kMachine \<or> mstatus_get ''mie'' (mstatus_of c) \<noteq> 0"
    and p: "dev_at raw_plic c = DevPlic p" "0 < plic_priority p ! 1" "\<not> bit (plic_pending p ! 0) 0"
    and ctx: "ctx_threshold (plic_contexts p ! 0) \<le> plic_priority p ! 1" "bit (ctx_enable (plic_contexts p ! 0) ! 0) 1"
      "\<not> bit (ctx_claimed (plic_contexts p ! 0) ! 0) 1"
  shows "\<exists>m'. main_loop left env ts (m\<lparr>mach_cpu := c1\<rparr>) = Done m' \<and>
    (let c' = mach_cpu m' in
       cpu_priv_mode c' = kMachine \<and> cpu_pc c' = GetTrapPC (State_Read (cpu_state c) kCsrMtvec) 11 \<and>
       State_Read (cpu_state c') kCsrMepc = cpu_pc c \<and>
       State_Read (cpu_state c') kCsrMcause = cause_bits kMachineExternalInterrupt \<and> \<not> GetWfi (cpu_state c'))"
proof -
  from machine_devs [OF m(1)] p(1) obtain u x where u: "dev_at raw_uart c = DevUart u"
    and x: "dev_at raw_clint c = DevClint x" and len: "length (bus_device (cpu_bus c)) = 4"
    and pw: "plic_wf p" "length (plic_contexts p) = 2" "plic_dev_num p = 3" by auto
  from key u obtain u1 where c1: "c1 = put_dev raw_uart (DevUart u1) c" and irq: "Irq u1"
    by (auto simp: UartInput_def Irq_def Putc_def)
  have m1: "machine_cpu c1" using machine_cpu_uart [OF m(1) u] c1 by simp
  from main_loop_steps [of "m\<lparr>mach_cpu := c1\<rparr>" left env ts] m1 obtain m' where
    loop: "main_loop left env ts (m\<lparr>mach_cpu := c1\<rparr>) = Done m'" by auto
  from main_loop_cpu [OF loop] obtain c2 c3 c4 where c2: "update_time ts c1 = Done c2" and c3: "update_ext c2 = Done c3"
    and c4: "run_cycle left env c3 = Done c4" and eq: "cpu_state (mach_cpu m') = cpu_state c4"
    "cpu_pc (mach_cpu m') = cpu_pc c4" "cpu_priv_mode (mach_cpu m') = cpu_priv_mode c4" by auto
  have l: "length (bus_device (cpu_bus (put_dev i d y))) = length (bus_device (cpu_bus y))" for i d y
    by (simp add: put_dev_def set_dev_nth)
  have d1: "dev_at raw_clint c1 = DevClint x" "dev_at raw_plic c1 = DevPlic p" "dev_at raw_uart c1 = DevUart u1"
    using c1 len x p(1) by (simp_all add: raw_clint_def raw_plic_def raw_uart_def)
  then have c2': "c2 = put_dev raw_clint (DevClint (UpdateMtime ts x)) c1" using c2 by (simp add: update_time_def)
  then have d2: "dev_at raw_plic c2 = DevPlic p" "dev_at raw_uart c2 = DevUart u1"
    using d1 len c1 by (simp_all add: raw_clint_def raw_plic_def raw_uart_def l)
  from UpdateExt_Done [OF pw(1), of True] obtain p' where p': "UpdateExt 1 True p = Done p'" "plic_wf p'"
    "p' = p\<lparr>plic_pending := plic_pending p'\<rparr>" "bit (plic_pending p' ! 0) 1 = True" "bit (plic_pending p' ! 0) 0 = bit (plic_pending p ! 0) 0" .
  then have c3': "c3 = put_dev raw_plic (DevPlic p') c2" using c3 d2 irq by (simp add: update_ext_def)
  have st: "cpu_state c3 = cpu_state c" "cpu_pc c3 = cpu_pc c" "cpu_priv_mode c3 = cpu_priv_mode c" "mstatus_of c3 = mstatus_of c"
    by (simp_all add: c3' c2' c1)
  from update_time_Done [OF m1, of ts] c2 have m2: "machine_cpu c2" by simp
  from update_ext_Done [OF m2] c3 have m3: "machine_cpu c3" by simp
  obtain x3 where d3: "dev_at raw_plic c3 = DevPlic p'" "dev_at raw_clint c3 = DevClint x3"
    using machine_devs(2) [OF m3] c3' c2' c1 len by (auto simp: l raw_plic_def)
  have q: "plic_contexts p' = plic_contexts p" "plic_dev_num p' = plic_dev_num p" "plic_priority p' = plic_priority p"
    by (subst p'(3), simp)+
  have z: "\<not> bit (plic_pending p' ! 0) 0" using p'(5) p(3) by simp
  have "plic_eligible p' (plic_contexts p' ! 0) 1" using ctx p'(4) by (simp add: plic_eligible_bits q)
  with wants_external [of p'] p' pw p(2) z have "wants p' 0 \<noteq> 0" by (simp add: q)
  with irq_lines_Done(1) [OF m3 d3, of left] c4 obtain seip msip mtip d where
    tick: "c4 = CPU_Tick env True seip msip mtip True (put_dev raw_plic d c3)"
    by (auto simp: run_cycle_def)
  have wf: "csr_wf (cpu_state (put_dev raw_plic d c3))"
    using m(1) st(1) by (simp add: machine_cpu_def cpu_inv_def)
  note t = Tick_external [where c = "put_dev raw_plic d c3" and env = env and seip = seip and msip = msip and mtip = mtip,
      OF wf, folded tick]
  from t wfi mie on loop eq show ?thesis by (simp add: st Let_def)
qed

text \<open>The example is the machine as built, with the serial port let through and the hart waiting.\<close>

definition example_plic :: plic where
  "example_plic = (Plic 1 True 2)
     \<lparr>plic_priority := (replicate 1024 0)[1 := 1],
      plic_contexts := [PlicContext_default\<lparr>ctx_enable := (replicate 32 0)[0 := 2]\<rparr>, PlicContext_default]\<rparr>"

definition example_waiting :: "cpu \<Rightarrow> cpu" where
  "example_waiting c = put_dev raw_plic (DevPlic example_plic)
     (c\<lparr>cpu_state := SetWfi True (State_Write kCsrMie 0x800 (State_Write kCsrMtvec 0x80000100 State_init)),
        cpu_priv_mode := kUser\<rparr>)"

lemma example_plic_wf: "plic_wf example_plic" "class_of (DevPlic example_plic) = ClassPlic 2 3"
  by (simp_all add: example_plic_def plic_wf_def Plic_def Let_def ctx_wf_def PlicContext_default_def)

theorem key_wakes_hart_witness:
  "\<exists>m c1 m'. UartInput 65 (mach_cpu m) = Done c1 \<and> GetWfi (cpu_state (mach_cpu m)) \<and>
     main_loop True example_env 7 (m\<lparr>mach_cpu := c1\<rparr>) = Done m' \<and> cpu_pc (mach_cpu m') = 0x80000100 \<and>
     cpu_priv_mode (mach_cpu m') = kMachine"
proof -
  obtain m0 where m0: "main_init 0 [[]] = Inr (Done m0)" using main_init_exists by blast
  from main_init_Done(1) [OF this] have mc: "machine_cpu (mach_cpu m0)" .
  let ?s = "SetWfi True (State_Write kCsrMie 0x800 (State_Write kCsrMtvec 0x80000100 State_init))"
  let ?init = "mach_cpu m0\<lparr>cpu_state := ?s, cpu_priv_mode := kUser\<rparr>" and ?c = "example_waiting (mach_cpu m0)"
  have c0: "machine_cpu ?init" using mc by (simp add: machine_cpu_def cpu_inv_def csr_wf_Write csr_wf_init)
  have pl: "class_of (dev_at raw_plic ?init) = ClassPlic 2 3"
    using machine_devs(3) [OF c0] by auto
  have c: "machine_cpu ?c" unfolding example_waiting_def
    using c0 pl example_plic_wf by (intro machine_cpu_put_dev) (simp_all add: raw_plic_def)
  from machine_devs(4) [OF c] obtain c1 where key: "UartInput 65 ?c = Done c1" by (auto simp: UartInput_def)
  have st: "cpu_state ?c = ?s" "cpu_priv_mode ?c = kUser" by (simp_all add: example_waiting_def)
  have mie: "bit (State_Read (cpu_state ?c) kCsrMie) 11" "State_Read (cpu_state ?c) kCsrMtvec = 0x80000100"
    unfolding st by code_simp+
  have d: "dev_at raw_plic ?c = DevPlic example_plic"
    using machine_devs(1) [OF c0] by (simp add: example_waiting_def raw_plic_def)
  have wfi: "GetWfi (cpu_state ?c)" by (simp add: st GetWfi_def SetWfi_def)
  have on: "cpu_priv_mode ?c \<noteq> kMachine \<or> mstatus_get ''mie'' (mstatus_of ?c) \<noteq> 0" by (simp add: st)
  have p: "0 < plic_priority example_plic ! 1" "\<not> bit (plic_pending example_plic ! 0) 0"
    "ctx_threshold (plic_contexts example_plic ! 0) \<le> plic_priority example_plic ! 1"
    "bit (ctx_enable (plic_contexts example_plic ! 0) ! 0) 1" "\<not> bit (ctx_claimed (plic_contexts example_plic ! 0) ! 0) 1"
    by (simp_all add: example_plic_def PlicContext_default_def Plic_def Let_def bit_simps)
  have "GetTrapPC 0x80000100 11 = 0x80000100" by code_simp
  with key_wakes_hart [where m = "m0\<lparr>mach_cpu := ?c\<rparr>", OF c _ key wfi mie(1) on d p, of True example_env 7] key wfi mie(2)
  show ?thesis by (intro exI [of _ "m0\<lparr>mach_cpu := ?c\<rparr>"]) (auto simp: Let_def)
qed

end
