(* ===== verification/Jit.thy ===== *)
theory Jit
  imports Executor
begin

text \<open>
  The just-in-time translator (\<^verbatim>\<open>src/jit/jit.cc\<close>, \<^verbatim>\<open>include/jit/jit.hh\<close>): what it asks the assembler to
  emit for each guest instruction. The assembler is a third-party library and the host is an
  AArch64 processor; here the translator is a function to lists of assembler calls. A call names the
  host register by the number the library uses for it, so the zero register is 63 and the stack
  pointer 31. Labels are the numbers \<^verbatim>\<open>newLabel\<close> hands out; \<open>epilog_tag\<close> is the label member that no
  constructor and no call of \<^verbatim>\<open>newLabel\<close> ever sets.
\<close>

section \<open>Assembler calls\<close>

type_synonym gp = int

definition kIdZr :: gp where [const_defs]: "kIdZr = 63"
definition kIdSp :: gp where [const_defs]: "kIdSp = 31"

datatype width = W32 | X64

datatype aop = Add | Sub | Lsl | Lsr | Asr | Eor | Orr | And | Mul | Smulh | Umulh | Sdiv | Udiv

datatype cond = CondLT | CondLO

datatype label = Lbl nat | epilog_tag

datatype mem = Mem gp u64

datatype (plugins only: size) a64 =
  Op3 width aop gp gp gp
| Msub width gp gp gp gp
| Neg gp gp
| Mvn gp gp
| MovR gp gp
| MovRW gp gp
| MovI width gp u64
| AddI gp gp u64
| SubI width gp gp u64
| AndI gp gp u64
| Cmp gp gp
| Cset gp cond
| Sxtb gp gp
| Sxth gp gp
| Sxtw gp gp
| Ldr width gp mem
| Str width gp mem
| Ldp gp gp mem
| Stp gp gp mem
| Cbz width gp label
| Cbnz width gp label
| Tbnz gp nat label
| B label
| Bind label
| Blr gp
| Ret gp

section \<open>The translator's state and tables\<close>

text \<open>The offsets of the members of \<^verbatim>\<open>CPU\<close>, and the addresses that are written into the code.\<close>

record jit_env =
  kXregBias :: u64
  kPcBias :: u64
  kInstretBias :: u64
  cpu_addr :: u64
  exit_trap_addr :: u64
  MmuLoad_addr :: u64
  MmuStore_addr :: u64

record jit =
  jit_calls :: "a64 list"
  jit_labels :: nat
  delta_instret :: u64

definition JitEmitter :: jit where
  "JitEmitter = \<lparr>jit_calls = [], jit_labels = 0, delta_instret = 0\<rparr>"

definition kRv64ToA64Map :: "gp list" where
  "kRv64ToA64Map =
     [kIdZr, 8, 18, - 1, - 1, 9, 10, 11, 16, 17, 0, 1, 2, 3, 4, 5, 6, 7, 19, 20, 21, 22, 23, 24, 25,
      26, 27, 28, 12, 13, 14, 15]"

definition kA64ToRv64Map :: "int list" where
  "kA64ToRv64Map =
     [10, 11, 12, 13, 14, 15, 16, 17, 1, 5, 6, 7, 28, 29, 30, 31, 8, 9, 2, 18, 19, 20, 21, 22, 23, 24,
      25, 26, 27, - 1, - 1, - 1]"

definition A64Reg :: "u8 \<Rightarrow> gp" where
  "A64Reg rv_reg = kRv64ToA64Map ! unat rv_reg"

definition XRegToMem :: "jit_env \<Rightarrow> u8 \<Rightarrow> mem" where
  "XRegToMem E rv_reg = Mem 29 (kXregBias E + push_bit 3 (ucast rv_reg))"

definition sp_slot :: "u64 \<Rightarrow> mem" where
  "sp_slot off = Mem kIdSp off"

definition SaveVolatileA64Reg :: "jit_env \<Rightarrow> a64 list" where
  "SaveVolatileA64Reg E = map (\<lambda>i. Str X64 (int i) (XRegToMem E (of_int (kA64ToRv64Map ! i)))) [0..<19]"

definition RestoreVolatileA64Reg :: "jit_env \<Rightarrow> a64 list" where
  "RestoreVolatileA64Reg E = map (\<lambda>i. Ldr X64 (int i) (XRegToMem E (of_int (kA64ToRv64Map ! i)))) [0..<19]"

section \<open>Prologue and epilogue\<close>

definition kMapped :: "nat list" where
  "kMapped = filter (\<lambda>i. \<not> kRv64ToA64Map ! i < 0) [0..<32]"

definition EmitProlog :: "jit_env \<Rightarrow> jit \<Rightarrow> jit" where
  "EmitProlog E j = j\<lparr>jit_calls := jit_calls j @
     [SubI X64 kIdSp kIdSp (32 * 8)] @
     map (\<lambda>i. Stp (int (2 * i)) (int (2 * i + 1)) (sp_slot (8 * of_nat (2 * i)))) [0..<15] @
     [Str X64 30 (sp_slot (8 * 30)), MovI X64 29 (cpu_addr E)] @
     map (\<lambda>i. Ldr X64 (kRv64ToA64Map ! i) (XRegToMem E (of_nat i))) kMapped\<rparr>"

definition CommitInstret :: "jit_env \<Rightarrow> jit \<Rightarrow> jit" where
  "CommitInstret E j = j\<lparr>jit_calls := jit_calls j @
     [SubI X64 kIdSp kIdSp 16, Stp 0 1 (sp_slot 0),
      MovI X64 0 (delta_instret j), Ldr X64 1 (Mem 29 (kInstretBias E)), Op3 X64 Add 0 0 1,
      Str X64 0 (Mem 29 (kInstretBias E)),
      Ldp 0 1 (sp_slot 0), AddI kIdSp kIdSp 16],
     delta_instret := 0\<rparr>"

definition EmitEpilog :: "jit_env \<Rightarrow> jit \<Rightarrow> jit" where
  "EmitEpilog E j =
     (let j1 = CommitInstret E (j\<lparr>jit_calls := jit_calls j @ [Bind epilog_tag]\<rparr>)
      in j1\<lparr>jit_calls := jit_calls j1 @
        map (\<lambda>i. Str X64 (kRv64ToA64Map ! i) (XRegToMem E (of_nat i))) kMapped @
        map (\<lambda>i. Ldp (int (2 * i)) (int (2 * i + 1)) (sp_slot (8 * of_nat (2 * i)))) [0..<15] @
        [Ldr X64 30 (sp_slot (8 * 30)), AddI kIdSp kIdSp (32 * 8), Ret 30]\<rparr>)"

section \<open>Integer instructions\<close>

text \<open>Every emission below is a function of the next free label; it returns the calls and the next
  free label after them.\<close>

definition EmitMov :: "jit_env \<Rightarrow> u8 \<Rightarrow> u8 \<Rightarrow> a64 list" where
  "EmitMov E rv_rd rv_rs =
     (if rv_rd = 0 \<or> rv_rd = rv_rs then []
      else
        let a64_rd = A64Reg rv_rd; a64_rs = A64Reg rv_rs
        in if 0 \<le> a64_rd \<and> 0 \<le> a64_rs then [MovR a64_rd a64_rs]
           else if 0 \<le> a64_rd \<and> a64_rs < 0 then [Ldr X64 a64_rd (XRegToMem E rv_rs)]
           else if a64_rd < 0 \<and> 0 \<le> a64_rs then [Str X64 a64_rs (XRegToMem E rv_rd)]
           else [SubI X64 kIdSp kIdSp 16, Str X64 0 (sp_slot 0), Ldr X64 0 (XRegToMem E rv_rs),
                 Str X64 0 (XRegToMem E rv_rd), Ldr X64 0 (sp_slot 0), AddI kIdSp kIdSp 16])"

definition SelectA64RegInstruction :: "gp \<Rightarrow> gp \<Rightarrow> gp \<Rightarrow> InstToken \<Rightarrow> nat \<Rightarrow> a64 list \<times> nat" where
  "SelectA64RegInstruction d s1 s2 tok n =
     (if tok = I_ADD then ([Op3 X64 Add d s1 s2], n)
      else if tok = I_SUB then ([Op3 X64 Sub d s1 s2], n)
      else if tok = I_SLL then ([Op3 X64 Lsl d s1 s2], n)
      else if tok = I_SLT then ([Cmp s1 s2, Cset d CondLT], n)
      else if tok = I_SLTU then ([Cmp s1 s2, Cset d CondLO], n)
      else if tok = I_XOR then ([Op3 X64 Eor d s1 s2], n)
      else if tok = I_SRL then ([Op3 X64 Lsr d s1 s2], n)
      else if tok = I_SRA then ([Op3 X64 Asr d s1 s2], n)
      else if tok = I_OR then ([Op3 X64 Orr d s1 s2], n)
      else if tok = I_AND then ([Op3 X64 And d s1 s2], n)
      else if tok = I_MUL then ([Op3 X64 Mul d s1 s2], n)
      else if tok = I_MULH then ([Op3 X64 Smulh d s1 s2], n)
      else if tok = I_MULHSU then
        (let unsigned_rs1 = Lbl n; zero = Lbl (n + 1); signed_rs1 = Lbl (n + 2); stop = Lbl (n + 3)
         in ([Cbz X64 s1 zero, Cbz X64 s2 zero, Tbnz s1 63 signed_rs1,
              Bind unsigned_rs1, Op3 X64 Umulh d s1 s2, B stop,
              Bind signed_rs1, Neg d s1, Op3 X64 Umulh d d s2, Mvn d d, B stop,
              Bind zero, MovI X64 d 0,
              Bind stop], n + 4))
      else if tok = I_MULHU then ([Op3 X64 Umulh d s1 s2], n)
      else if tok = I_DIV then
        (let zero_divisor = Lbl n; stop = Lbl (n + 1)
         in ([Cbz X64 s2 zero_divisor, Op3 X64 Sdiv d s1 s2, B stop,
              Bind zero_divisor, MovI X64 d (- 1), Bind stop], n + 2))
      else if tok = I_DIVU then
        (let overflow = Lbl n; stop = Lbl (n + 1)
         in ([Cbz X64 s2 overflow, Op3 X64 Udiv d s1 s2, B stop,
              Bind overflow, MovI X64 d (- 1), Bind stop], n + 2))
      else if tok = I_REM then
        (let zero_divisor = Lbl n; stop = Lbl (n + 1)
         in ([Cbz X64 s2 zero_divisor, Op3 X64 Sdiv d s1 s2, Msub X64 d d s2 s1, B stop,
              Bind zero_divisor, MovR d s1, Bind stop], n + 2))
      else if tok = I_REMU then
        (let overflow = Lbl n; stop = Lbl (n + 1)
         in ([Cbz X64 s2 overflow, Op3 X64 Udiv d s1 s2, Msub X64 d d s2 s1, B stop,
              Bind overflow, MovR d s1, Bind stop], n + 2))
      else ([], n))"

definition SelectA64ImmInstruction :: "gp \<Rightarrow> gp \<Rightarrow> u32 \<Rightarrow> InstToken \<Rightarrow> a64 list" where
  "SelectA64ImmInstruction d s1 v tok =
     (if tok = I_ADDI then [MovI X64 d (scast v), Op3 X64 Add d s1 d]
      else if tok = I_SLTI then [MovI X64 d (scast v), Cmp s1 d, Cset d CondLT]
      else if tok = I_SLTIU then [MovI X64 d (scast v), Cmp s1 d, Cset d CondLO]
      else if tok = I_XORI then [MovI X64 d (scast v), Op3 X64 Eor d s1 d]
      else if tok = I_ORI then [MovI X64 d (scast v), Op3 X64 Orr d s1 d]
      else if tok = I_ANDI then [MovI X64 d (scast v), Op3 X64 And d s1 d]
      else if tok = I_SLLI then [MovI X64 d (scast v), Op3 X64 Lsl d s1 d]
      else if tok = I_SRLI then [MovI X64 d (scast v), Op3 X64 Lsr d s1 d]
      else if tok = I_SRAI then [MovI X64 d (scast v), Op3 X64 Asr d s1 d]
      else [])"

definition SelectA64Reg32Instruction :: "gp \<Rightarrow> gp \<Rightarrow> gp \<Rightarrow> InstToken \<Rightarrow> nat \<Rightarrow> a64 list \<times> nat" where
  "SelectA64Reg32Instruction d s1 s2 tok n =
     (if tok = I_ADDW then ([Op3 W32 Add d s1 s2, Sxtw d d], n)
      else if tok = I_SUBW then ([Op3 W32 Sub d s1 s2, Sxtw d d], n)
      else if tok = I_SLLW then ([Op3 W32 Lsl d s1 s2, Sxtw d d], n)
      else if tok = I_SRLW then ([Op3 W32 Lsr d s1 s2, Sxtw d d], n)
      else if tok = I_SRAW then ([Op3 W32 Asr d s1 s2, Sxtw d d], n)
      else if tok = I_MULW then ([Op3 W32 Mul d s1 s2, Sxtw d d], n)
      else if tok = I_DIVW then
        (let zero_divsor = Lbl n; stop = Lbl (n + 1)
         in ([Cbz W32 s2 zero_divsor, Op3 W32 Sdiv d s1 s2, B stop,
              Bind zero_divsor, MovI W32 d 0xffffffff, Bind stop, Sxtw d d], n + 2))
      else if tok = I_DIVUW then
        (let zero_divsor = Lbl n; stop = Lbl (n + 1)
         in ([Cbz W32 s2 zero_divsor, Op3 W32 Udiv d s1 s2, B stop,
              Bind zero_divsor, MovI W32 d 0xffffffff, Bind stop, Sxtw d d], n + 2))
      else if tok = I_REMW then
        (let zero_divisor = Lbl n; stop = Lbl (n + 1)
         in ([Cbz W32 s2 zero_divisor, Op3 W32 Sdiv d s1 s2, Msub W32 d d s2 s1, B stop,
              Bind zero_divisor, MovRW d s1, Bind stop, Sxtw d d], n + 2))
      else if tok = I_REMUW then
        (let overflow = Lbl n; stop = Lbl (n + 1)
         in ([Cbz W32 s2 overflow, Op3 W32 Udiv d s1 s2, Msub W32 d d s2 s1, B stop,
              Bind overflow, MovRW d s1, Bind stop, Sxtw d d], n + 2))
      else ([], n))"

definition SelectA64Imm32Instruction :: "gp \<Rightarrow> gp \<Rightarrow> u32 \<Rightarrow> InstToken \<Rightarrow> a64 list" where
  "SelectA64Imm32Instruction d s1 v tok =
     (if tok = I_ADDIW then [MovI W32 d (scast v), Op3 W32 Add d s1 d, Sxtw d d]
      else if tok = I_SLLIW then [MovI W32 d (scast v), Op3 W32 Lsl d s1 d, Sxtw d d]
      else if tok = I_SRLIW then [MovI W32 d (scast v), Op3 W32 Lsr d s1 d, Sxtw d d]
      else if tok = I_SRAIW then [MovI W32 d (scast v), Op3 W32 Asr d s1 d, Sxtw d d]
      else [])"

definition EmitReg :: "jit_env \<Rightarrow> DecodeInfo \<Rightarrow> nat \<Rightarrow> a64 list \<times> nat" where
  "EmitReg E info n =
     (if rd info = 0 then ([], n)
      else
        let a64_rd = A64Reg (rd info); a64_rs1 = A64Reg (rs1 info); a64_rs2 = A64Reg (rs2 info)
        in if 0 \<le> a64_rd \<and> 0 \<le> a64_rs1 \<and> 0 \<le> a64_rs2
           then SelectA64RegInstruction a64_rd a64_rs1 a64_rs2 (token info) n
           else
             let (select, n') = SelectA64RegInstruction (if a64_rd < 0 then 0 else a64_rd)
                   (if a64_rs1 < 0 then 1 else a64_rs1) (if a64_rs2 < 0 then 2 else a64_rs2) (token info) n
             in ([SubI X64 kIdSp kIdSp 32] @
                 (if a64_rs2 < 0 then [Str X64 2 (sp_slot 16), Ldr X64 2 (XRegToMem E (rs2 info))] else []) @
                 (if a64_rs1 < 0 then [Str X64 1 (sp_slot 8), Ldr X64 1 (XRegToMem E (rs1 info))] else []) @
                 (if a64_rd < 0
                  then [Str X64 0 (sp_slot 0)] @ select @ [Str X64 0 (XRegToMem E (rd info)), Ldr X64 0 (sp_slot 0)]
                  else select) @
                 (if a64_rs1 < 0 then [Ldr X64 1 (sp_slot 8)] else []) @
                 (if a64_rs2 < 0 then [Ldr X64 2 (sp_slot 16)] else []) @
                 [AddI kIdSp kIdSp 32], n'))"

definition EmitReg32 :: "jit_env \<Rightarrow> DecodeInfo \<Rightarrow> nat \<Rightarrow> a64 list \<times> nat" where
  "EmitReg32 E info n =
     (if rd info = 0 then ([], n)
      else
        let a64_wd = A64Reg (rd info); a64_ws1 = A64Reg (rs1 info); a64_ws2 = A64Reg (rs2 info)
        in if 0 \<le> a64_wd \<and> 0 \<le> a64_ws1 \<and> 0 \<le> a64_ws2
           then SelectA64Reg32Instruction a64_wd a64_ws1 a64_ws2 (token info) n
           else
             let (select, n') = SelectA64Reg32Instruction (if a64_wd < 0 then 0 else a64_wd)
                   (if a64_ws1 < 0 then 1 else a64_ws1) (if a64_ws2 < 0 then 2 else a64_ws2) (token info) n
             in ([SubI X64 kIdSp kIdSp 32] @
                 (if a64_ws2 < 0 then [Str X64 2 (sp_slot 16), Ldr X64 2 (XRegToMem E (rs2 info))] else []) @
                 (if a64_ws1 < 0 then [Str X64 1 (sp_slot 8), Ldr X64 1 (XRegToMem E (rs1 info))] else []) @
                 (if a64_wd < 0
                  then [Str X64 0 (sp_slot 0)] @ select @ [Str X64 0 (XRegToMem E (rd info)), Ldr X64 0 (sp_slot 0)]
                  else select) @
                 (if a64_ws1 < 0 then [Ldr X64 1 (sp_slot 8)] else []) @
                 (if a64_ws2 < 0 then [Ldr X64 2 (sp_slot 16)] else []) @
                 [AddI kIdSp kIdSp 32], n'))"

definition EmitLui :: "jit_env \<Rightarrow> DecodeInfo \<Rightarrow> a64 list" where
  "EmitLui E info =
     (if rd info = 0 then []
      else
        let a64_rd = A64Reg (rd info)
        in if 0 \<le> a64_rd then [MovI X64 a64_rd (scast (imm info))]
           else [SubI X64 kIdSp kIdSp 16, Str X64 0 (sp_slot 0), MovI X64 0 (scast (imm info)),
                 Str X64 0 (XRegToMem E (rd info)), Ldr X64 0 (sp_slot 0), AddI kIdSp kIdSp 16])"

text \<open>The sum is stored back into the 32-bit immediate.\<close>

definition EmitAuipc :: "jit_env \<Rightarrow> DecodeInfo \<Rightarrow> a64 list" where
  "EmitAuipc E info = EmitLui E (info\<lparr>imm := ucast (scast (imm info) + pc info)\<rparr>)"

definition EmitImm :: "jit_env \<Rightarrow> DecodeInfo \<Rightarrow> a64 list" where
  "EmitImm E info =
     (if rd info = 0 then []
      else
        let a64_rd = A64Reg (rd info); a64_rs1 = A64Reg (rs1 info)
        in if 0 \<le> a64_rd \<and> 0 \<le> a64_rs1
           then SelectA64ImmInstruction a64_rd a64_rs1 (imm info) (token info)
           else
             let select = SelectA64ImmInstruction (if a64_rd < 0 then 0 else a64_rd)
                   (if a64_rs1 < 0 then 1 else a64_rs1) (imm info) (token info)
             in [SubI X64 kIdSp kIdSp 16] @
                (if a64_rs1 < 0 then [Str X64 1 (sp_slot 8), Ldr X64 1 (XRegToMem E (rs1 info))] else []) @
                (if a64_rd < 0
                 then [Str X64 0 (sp_slot 0)] @ select @ [Str X64 0 (XRegToMem E (rd info)), Ldr X64 0 (sp_slot 0)]
                 else select) @
                (if a64_rs1 < 0 then [Ldr X64 1 (sp_slot 8)] else []) @
                [AddI kIdSp kIdSp 16])"

definition EmitImm32 :: "jit_env \<Rightarrow> DecodeInfo \<Rightarrow> a64 list" where
  "EmitImm32 E info =
     (if rd info = 0 then []
      else
        let a64_rd = A64Reg (rd info); a64_rs1 = A64Reg (rs1 info)
        in if 0 \<le> a64_rd \<and> 0 \<le> a64_rs1
           then SelectA64Imm32Instruction a64_rd a64_rs1 (imm info) (token info)
           else
             let select = SelectA64Imm32Instruction (if a64_rd < 0 then 0 else a64_rd)
                   (if a64_rs1 < 0 then 1 else a64_rs1) (imm info) (token info)
             in [SubI X64 kIdSp kIdSp 16] @
                (if a64_rs1 < 0 then [Str X64 1 (sp_slot 8), Ldr X64 1 (XRegToMem E (rs1 info))] else []) @
                (if a64_rd < 0
                 then [Str X64 0 (sp_slot 0)] @ select @ [Str X64 0 (XRegToMem E (rd info)), Ldr X64 0 (sp_slot 0)]
                 else select) @
                (if a64_rs1 < 0 then [Ldr X64 1 (sp_slot 8)] else []) @
                [AddI kIdSp kIdSp 16])"

section \<open>Jumps\<close>

definition EmitJal :: "jit_env \<Rightarrow> DecodeInfo \<Rightarrow> a64 list" where
  "EmitJal E info =
     (let a64_rd = A64Reg (rd info); kNewPC = pc info + scast (imm info);
          link = pc info + ucast (inst_size info)
      in if 0 \<le> a64_rd
         then [MovI X64 a64_rd kNewPC, Str X64 a64_rd (Mem 29 (kPcBias E)), MovI X64 a64_rd link]
         else [SubI X64 kIdSp kIdSp 16, Str X64 0 (sp_slot 0),
               MovI X64 0 kNewPC, Str X64 0 (Mem 29 (kPcBias E)),
               MovI X64 0 link, Str X64 0 (XRegToMem E (rd info)),
               Ldr X64 0 (sp_slot 0), AddI kIdSp kIdSp 16])"

definition EmitJalr :: "jit_env \<Rightarrow> DecodeInfo \<Rightarrow> a64 list" where
  "EmitJalr E info =
     (let a64_rd = A64Reg (rd info); a64_rs1 = A64Reg (rs1 info);
          link = pc info + ucast (inst_size info)
      in if 0 \<le> a64_rd \<and> 0 \<le> a64_rs1
         then [MovI X64 a64_rd (scast (imm info)), Op3 X64 Add a64_rd a64_rd a64_rs1,
               AndI a64_rd a64_rd 0xfffffffffffffffe,
               Str X64 a64_rd (Mem 29 (kPcBias E)), MovI X64 a64_rd link]
         else
           let gpx_rd = (if a64_rd < 0 then 0 else a64_rd); gpx_rs1 = (if a64_rs1 < 0 then 1 else a64_rs1)
           in [SubI X64 kIdSp kIdSp 16] @
              (if a64_rs1 < 0 then [Str X64 1 (sp_slot 8), Ldr X64 1 (XRegToMem E (rs1 info))] else []) @
              (if a64_rd < 0 then [Str X64 0 (sp_slot 0), Ldr X64 0 (XRegToMem E (rd info))] else []) @
              [MovI X64 gpx_rd (scast (imm info)), Op3 X64 Add gpx_rd gpx_rd gpx_rs1,
               AndI gpx_rd gpx_rd 0xfffffffffffffffe,
               Str X64 gpx_rd (Mem 29 (kPcBias E)),
               MovI X64 gpx_rd link] @
              (if a64_rd < 0 then [Str X64 gpx_rd (XRegToMem E (rd info)), Ldr X64 gpx_rd (sp_slot 0)] else []) @
              (if a64_rs1 < 0 then [Ldr X64 gpx_rs1 (sp_slot 8)] else []) @
              [AddI kIdSp kIdSp 16])"

section \<open>Loads and stores\<close>

text \<open>The functions the emitted code calls; the guest's memory is reached through the processor.\<close>

definition MmuLoad :: "cpu \<Rightarrow> u64 \<Rightarrow> u64 \<Rightarrow> Trap \<times> u64 \<times> cpu" where
  "MmuLoad p addr n = (case CPU_Load p addr n of (t, bs, p') \<Rightarrow> (t, le_word bs, p'))"

definition MmuStore :: "cpu \<Rightarrow> u64 \<Rightarrow> u64 \<Rightarrow> u64 \<Rightarrow> Trap \<times> cpu" where
  "MmuStore p addr n data = CPU_Store p addr n (le_bytes 8 data)"

definition SelectSignExtendInstruction :: "InstToken \<Rightarrow> gp \<Rightarrow> gp \<Rightarrow> a64 list" where
  "SelectSignExtendInstruction tok d s =
     (if tok = I_LB then [Sxtb d s]
      else if tok = I_LH then [Sxth d s]
      else if tok = I_LW then [Sxtw d s]
      else [])"

definition EmitLoad :: "jit_env \<Rightarrow> DecodeInfo \<Rightarrow> nat \<Rightarrow> a64 list \<times> nat" where
  "EmitLoad E info n =
     (let fail = Lbl n; stop = Lbl (n + 1); a64_rd = A64Reg (rd info); a64_rs1 = A64Reg (rs1 info);
          x0_home = XRegToMem E (of_int (kA64ToRv64Map ! 0))
      in (SaveVolatileA64Reg E @
          [SubI X64 kIdSp kIdSp 32, Stp 29 30 (sp_slot 0)] @
          (if a64_rs1 < 0 then [Ldr X64 1 (XRegToMem E (rs1 info))] else [MovR 1 a64_rs1]) @
          [MovI X64 2 (scast (imm info)), Op3 X64 Add 1 1 2,
           MovR 0 29, MovI X64 2 (ucast (mem_size info)), MovI X64 3 (exit_trap_addr E),
           MovI X64 4 (MmuLoad_addr E), Blr 4,
           Str X64 0 (sp_slot 24),
           MovI X64 0 (exit_trap_addr E), Ldr W32 0 (Mem 0 0), SubI W32 0 0 (of_nat (trap_index kNone)),
           Str W32 0 (sp_slot 16)] @
          RestoreVolatileA64Reg E @
          [Ldp 29 30 (sp_slot 0),
           Ldr W32 0 (sp_slot 16), Cbnz W32 0 fail,
           Ldr X64 0 (sp_slot 24)] @
          SelectSignExtendInstruction (token info) 0 0 @
          [Str X64 0 (XRegToMem E (rd info)), Ldr X64 0 x0_home, AddI kIdSp kIdSp 32] @
          (if 0 \<le> a64_rd then [Ldr X64 a64_rd (XRegToMem E (rd info))] else []) @
          [B stop,
           Bind fail, Ldr X64 0 x0_home, AddI kIdSp kIdSp 32, B epilog_tag,
           Bind stop], n + 2))"

definition EmitStore :: "jit_env \<Rightarrow> DecodeInfo \<Rightarrow> nat \<Rightarrow> a64 list \<times> nat" where
  "EmitStore E info n =
     (let fail = Lbl n; stop = Lbl (n + 1); a64_rs1 = A64Reg (rs1 info); a64_rs2 = A64Reg (rs2 info);
          x0_home = XRegToMem E (of_int (kA64ToRv64Map ! 0))
      in (SaveVolatileA64Reg E @
          [SubI X64 kIdSp kIdSp 48, Stp 29 30 (sp_slot 0)] @
          (if a64_rs2 < 0
           then [Ldr X64 0 (XRegToMem E (rs2 info)), Str X64 0 (sp_slot 24), Ldr X64 0 x0_home]
           else [Str X64 a64_rs2 (sp_slot 24)]) @
          (if a64_rs1 < 0
           then [Ldr X64 0 (XRegToMem E (rs1 info)), MovI X64 1 (scast (imm info)), Op3 X64 Add 0 0 1]
           else [MovI X64 0 (scast (imm info)), Op3 X64 Add 0 0 a64_rs1]) @
          [Str X64 0 (sp_slot 16),
           MovR 0 29, Ldr X64 1 (sp_slot 16), MovI X64 2 (ucast (mem_size info)), Ldr X64 3 (sp_slot 24),
           MovI X64 4 (exit_trap_addr E), MovI X64 5 (MmuStore_addr E), Blr 5,
           MovI X64 0 (exit_trap_addr E), Ldr W32 0 (Mem 0 0), SubI W32 0 0 (of_nat (trap_index kNone)),
           Str W32 0 (sp_slot 32)] @
          RestoreVolatileA64Reg E @
          [Ldp 29 30 (sp_slot 0),
           Ldr W32 0 (sp_slot 32), Cbnz W32 0 fail,
           Ldr X64 0 x0_home, AddI kIdSp kIdSp 48, B stop,
           Bind fail, Ldr X64 0 x0_home, AddI kIdSp kIdSp 48, B epilog_tag,
           Bind stop], n + 2))"

section \<open>One instruction\<close>

definition Emit_code :: "jit_env \<Rightarrow> DecodeInfo \<Rightarrow> nat \<Rightarrow> (a64 list \<times> nat) option" where
  "Emit_code E info n =
     (if op info = kReg then Some (EmitReg E info n)
      else if op info = kLui then Some (EmitLui E info, n)
      else if op info = kAuipc then Some (EmitAuipc E info, n)
      else if op info = kImm then Some (EmitImm E info, n)
      else if op info = kRv32 then Some (EmitReg32 E info n)
      else if op info = kJal then Some (EmitJal E info, n)
      else if op info = kJalr then Some (EmitJalr E info, n)
      else if op info = kImm32 then Some (EmitImm32 E info, n)
      else if op info = kLoad then Some (EmitLoad E info n)
      else if op info = kStore then Some (EmitStore E info n)
      else None)"

text \<open>An instruction that is not translated is counted all the same.\<close>

definition Emit :: "jit_env \<Rightarrow> DecodeInfo \<Rightarrow> jit \<Rightarrow> bool \<times> jit" where
  "Emit E info j =
     (if op info = kUndef \<or> token info = I_UNKNOWN then (False, j)
      else
        let j' = j\<lparr>delta_instret := delta_instret j + 1\<rparr>
        in case Emit_code E info (jit_labels j) of
             None \<Rightarrow> (False, j')
           | Some (calls, n) \<Rightarrow> (True, j'\<lparr>jit_calls := jit_calls j @ calls, jit_labels := n\<rparr>))"

end
