(* ===== verification/Jit_Host.thy ===== *)
theory Jit_Host
  imports Jit Alu
begin

text \<open>
  The host of the translated code. What a sequence of assembler calls does when it is run is not part
  of this repository: it is the locale \<open>a64_host\<close>, whose laws are the documented effects of the
  AArch64 instructions the translator uses, of the assembler's labels (a branch goes to the place
  its label is bound, if \<^verbatim>\<open>newLabel\<close> made the label), and of the procedure call standard for the two functions the code calls. The
  interpretation \<open>ref_host\<close> shows that the laws can hold together.

  Host memory is a map from the addresses that are multiples of eight to the doublewords stored there.
\<close>

section \<open>Host state\<close>

record host =
  gpr :: "gp \<Rightarrow> u64"
  h_cmp :: "u64 \<times> u64"
  h_mem :: "u64 \<Rightarrow> u64"
  h_cpu :: cpu

definition getX :: "gp \<Rightarrow> host \<Rightarrow> u64" where
  "getX r h = (if r = kIdZr then 0 else gpr h r)"

definition getW :: "gp \<Rightarrow> host \<Rightarrow> u32" where
  "getW r h = ucast (getX r h)"

definition setX :: "gp \<Rightarrow> u64 \<Rightarrow> host \<Rightarrow> host" where
  "setX r v h = (if r = kIdZr then h else h\<lparr>gpr := (gpr h)(r := v)\<rparr>)"

definition setW :: "gp \<Rightarrow> u32 \<Rightarrow> host \<Rightarrow> host" where
  "setW r v h = setX r (ucast v) h"

fun is_zero :: "width \<Rightarrow> gp \<Rightarrow> host \<Rightarrow> bool" where
  "is_zero X64 r h \<longleftrightarrow> getX r h = 0"
| "is_zero W32 r h \<longleftrightarrow> getW r h = 0"

text \<open>Shifts take the amount modulo the width; a division by zero gives zero.\<close>

fun op3 :: "aop \<Rightarrow> 'a::len word \<Rightarrow> 'a word \<Rightarrow> 'a word" where
  "op3 Add a b = a + b"
| "op3 Sub a b = a - b"
| "op3 Lsl a b = push_bit (unat b mod LENGTH('a)) a"
| "op3 Lsr a b = drop_bit (unat b mod LENGTH('a)) a"
| "op3 Asr a b = signed_drop_bit (unat b mod LENGTH('a)) a"
| "op3 Eor a b = a XOR b"
| "op3 Orr a b = a OR b"
| "op3 And a b = a AND b"
| "op3 Mul a b = a * b"
| "op3 Smulh a b = word_of_int (sint a * sint b div 2 ^ LENGTH('a))"
| "op3 Umulh a b = word_of_int (uint a * uint b div 2 ^ LENGTH('a))"
| "op3 Sdiv a b = (if b = 0 then 0 else word_of_int (sint a sdiv sint b))"
| "op3 Udiv a b = (if b = 0 then 0 else a div b)"

fun holds :: "cond \<Rightarrow> u64 \<times> u64 \<Rightarrow> bool" where
  "holds CondLT (a, b) \<longleftrightarrow> a <s b"
| "holds CondLO (a, b) \<longleftrightarrow> a < b"

fun ea :: "mem \<Rightarrow> host \<Rightarrow> u64" where
  "ea (Mem b off) h = getX b h + off"

definition store_low :: "u32 \<Rightarrow> u64 \<Rightarrow> u64" where
  "store_low v w = (w AND NOT 0xffffffff) OR ucast v"

fun is_bind :: "label \<Rightarrow> a64 \<Rightarrow> bool" where
  "is_bind l (Bind l') \<longleftrightarrow> l = l'"
| "is_bind l _ \<longleftrightarrow> False"

definition bound :: "label \<Rightarrow> a64 list \<Rightarrow> bool" where
  "bound l cs \<longleftrightarrow> list_ex (is_bind l) cs"

definition after :: "label \<Rightarrow> a64 list \<Rightarrow> a64 list" where
  "after l cs = tl (dropWhile (\<lambda>c. \<not> is_bind l c) cs)"

text \<open>What a called function leaves alone: the registers it must preserve, and all memory but the
  trap it was told to write and the stack below the caller's frame.\<close>

definition callee_keeps :: "jit_env \<Rightarrow> host \<Rightarrow> host \<Rightarrow> bool" where
  "callee_keeps E h h' \<longleftrightarrow>
     (\<forall>r. 19 \<le> r \<and> r \<le> 29 \<or> r = kIdSp \<longrightarrow> gpr h' r = gpr h r) \<and>
     (\<forall>a. a \<noteq> exit_trap_addr E \<and> a \<noteq> exit_trap_addr E + 8 \<and>
          (gpr h kIdSp \<le> a \<or> (\<exists>r. a = cpu_addr E + (kXregBias E + push_bit 3 (ucast (r :: u8)))) \<or>
           a = cpu_addr E + kPcBias E \<or> a = cpu_addr E + kInstretBias E) \<longrightarrow>
        h_mem h' a = h_mem h a)"

section \<open>Laws\<close>

locale a64_host =
  fixes run :: "a64 list \<Rightarrow> host \<Rightarrow> host" and E :: jit_env
  assumes run_Nil: "run [] h = h"
    and run_Op3_X: "run (Op3 X64 f d a b # cs) h = run cs (setX d (op3 f (getX a h) (getX b h)) h)"
    and run_Op3_W: "run (Op3 W32 f d a b # cs) h = run cs (setW d (op3 f (getW a h) (getW b h)) h)"
    and run_Msub_X: "run (Msub X64 d a b c # cs) h = run cs (setX d (getX c h - getX a h * getX b h) h)"
    and run_Msub_W: "run (Msub W32 d a b c # cs) h = run cs (setW d (getW c h - getW a h * getW b h) h)"
    and run_Neg: "run (Neg d a # cs) h = run cs (setX d (- getX a h) h)"
    and run_Mvn: "run (Mvn d a # cs) h = run cs (setX d (NOT (getX a h)) h)"
    and run_MovR: "run (MovR d a # cs) h = run cs (setX d (getX a h) h)"
    and run_MovRW: "run (MovRW d a # cs) h = run cs (setW d (getW a h) h)"
    and run_MovI_X: "d \<noteq> kIdZr \<Longrightarrow> run (MovI X64 d v # cs) h = run cs (setX d v h)"
    and run_MovI_W: "d \<noteq> kIdZr \<Longrightarrow> run (MovI W32 d v # cs) h = run cs (setW d (ucast v) h)"
    and run_AddI: "d \<noteq> kIdZr \<Longrightarrow> a \<noteq> kIdZr \<Longrightarrow> run (AddI d a v # cs) h = run cs (setX d (getX a h + v) h)"
    and run_SubI_X: "d \<noteq> kIdZr \<Longrightarrow> a \<noteq> kIdZr \<Longrightarrow> run (SubI X64 d a v # cs) h = run cs (setX d (getX a h - v) h)"
    and run_SubI_W: "d \<noteq> kIdZr \<Longrightarrow> a \<noteq> kIdZr \<Longrightarrow> run (SubI W32 d a v # cs) h = run cs (setW d (getW a h - ucast v) h)"
    and run_AndI: "d \<noteq> kIdZr \<Longrightarrow> run (AndI d a v # cs) h = run cs (setX d (getX a h AND v) h)"
    and run_Cmp: "run (Cmp a b # cs) h = run cs (h\<lparr>h_cmp := (getX a h, getX b h)\<rparr>)"
    and run_Cset: "run (Cset d k # cs) h = run cs (setX d (if holds k (h_cmp h) then 1 else 0) h)"
    and run_Sxtb: "run (Sxtb d a # cs) h = run cs (setX d (scast (ucast (getX a h) :: u8)) h)"
    and run_Sxth: "run (Sxth d a # cs) h = run cs (setX d (scast (ucast (getX a h) :: u16)) h)"
    and run_Sxtw: "run (Sxtw d a # cs) h = run cs (setX d (scast (getW a h)) h)"
    and run_Ldr_X: "8 dvd ea m h \<Longrightarrow> run (Ldr X64 d m # cs) h = run cs (setX d (h_mem h (ea m h)) h)"
    and run_Ldr_W: "8 dvd ea m h \<Longrightarrow> run (Ldr W32 d m # cs) h = run cs (setW d (ucast (h_mem h (ea m h))) h)"
    and run_Str_X: "8 dvd ea m h \<Longrightarrow>
      run (Str X64 d m # cs) h = run cs (h\<lparr>h_mem := (h_mem h)(ea m h := getX d h)\<rparr>)"
    and run_Str_W: "8 dvd ea m h \<Longrightarrow>
      run (Str W32 d m # cs) h = run cs (h\<lparr>h_mem := (h_mem h)(ea m h := store_low (getW d h) (h_mem h (ea m h)))\<rparr>)"
    and run_Ldp: "8 dvd ea m h \<Longrightarrow>
      run (Ldp d d' m # cs) h = run cs (setX d' (h_mem h (ea m h + 8)) (setX d (h_mem h (ea m h)) h))"
    and run_Stp: "8 dvd ea m h \<Longrightarrow>
      run (Stp d d' m # cs) h = run cs (h\<lparr>h_mem := (h_mem h)(ea m h := getX d h, ea m h + 8 := getX d' h)\<rparr>)"
    and run_Cbz: "bound (Lbl n) cs \<Longrightarrow> run (Cbz w a (Lbl n) # cs) h = run (if is_zero w a h then after (Lbl n) cs else cs) h"
    and run_Cbnz: "bound (Lbl n) cs \<Longrightarrow> run (Cbnz w a (Lbl n) # cs) h = run (if is_zero w a h then cs else after (Lbl n) cs) h"
    and run_Tbnz: "bound (Lbl n) cs \<Longrightarrow> run (Tbnz a i (Lbl n) # cs) h = run (if bit (getX a h) i then after (Lbl n) cs else cs) h"
    and run_B: "bound (Lbl n) cs \<Longrightarrow> run (B (Lbl n) # cs) h = run (after (Lbl n) cs) h"
    and run_Bind: "run (Bind l # cs) h = run cs h"
    and run_Ret: "run (Ret a # cs) h = h"
    and run_Blr_load: "getX a h = MmuLoad_addr E \<Longrightarrow> gpr h 0 = cpu_addr E \<Longrightarrow> gpr h 3 = exit_trap_addr E \<Longrightarrow>
      MmuLoad (h_cpu h) (gpr h 1) (gpr h 2) = (t, v, c') \<Longrightarrow>
      \<exists>h'. run (Blr a # cs) h = run cs h' \<and> gpr h' 0 = v \<and> h_cpu h' = c' \<and> callee_keeps E h h' \<and>
        (ucast (h_mem h' (exit_trap_addr E)) :: u32) = of_nat (trap_index (trap_type t))"
    and run_Blr_store: "MmuStore_addr E \<noteq> MmuLoad_addr E \<Longrightarrow> getX a h = MmuStore_addr E \<Longrightarrow> gpr h 0 = cpu_addr E \<Longrightarrow> gpr h 4 = exit_trap_addr E \<Longrightarrow>
      MmuStore (h_cpu h) (gpr h 1) (gpr h 2) (gpr h 3) = (t, c') \<Longrightarrow>
      \<exists>h'. run (Blr a # cs) h = run cs h' \<and> h_cpu h' = c' \<and> callee_keeps E h h' \<and>
        (ucast (h_mem h' (exit_trap_addr E)) :: u32) = of_nat (trap_index (trap_type t))"
begin

lemmas run_simps = run_Op3_X run_Op3_W run_Msub_X run_Msub_W run_Neg run_Mvn run_MovR run_MovRW run_MovI_X run_MovI_W
  run_AddI run_SubI_X run_SubI_W run_AndI run_Cmp run_Cset run_Sxtb run_Sxth run_Sxtw run_Ldr_X run_Ldr_W run_Str_X
  run_Str_W run_Ldp run_Stp run_Cbz run_Cbnz run_Tbnz run_B run_Bind run_Ret

end

section \<open>A host that obeys the laws\<close>

text \<open>Straight-line instructions, and calls.\<close>

fun ref_step :: "jit_env \<Rightarrow> a64 \<Rightarrow> host \<Rightarrow> host" where
  "ref_step E (Op3 X64 f d a b) h = setX d (op3 f (getX a h) (getX b h)) h"
| "ref_step E (Op3 W32 f d a b) h = setW d (op3 f (getW a h) (getW b h)) h"
| "ref_step E (Msub X64 d a b c) h = setX d (getX c h - getX a h * getX b h) h"
| "ref_step E (Msub W32 d a b c) h = setW d (getW c h - getW a h * getW b h) h"
| "ref_step E (Neg d a) h = setX d (- getX a h) h"
| "ref_step E (Mvn d a) h = setX d (NOT (getX a h)) h"
| "ref_step E (MovR d a) h = setX d (getX a h) h"
| "ref_step E (MovRW d a) h = setW d (getW a h) h"
| "ref_step E (MovI X64 d v) h = setX d v h"
| "ref_step E (MovI W32 d v) h = setW d (ucast v) h"
| "ref_step E (AddI d a v) h = setX d (getX a h + v) h"
| "ref_step E (SubI X64 d a v) h = setX d (getX a h - v) h"
| "ref_step E (SubI W32 d a v) h = setW d (getW a h - ucast v) h"
| "ref_step E (AndI d a v) h = setX d (getX a h AND v) h"
| "ref_step E (Cmp a b) h = h\<lparr>h_cmp := (getX a h, getX b h)\<rparr>"
| "ref_step E (Cset d k) h = setX d (if holds k (h_cmp h) then 1 else 0) h"
| "ref_step E (Sxtb d a) h = setX d (scast (ucast (getX a h) :: u8)) h"
| "ref_step E (Sxth d a) h = setX d (scast (ucast (getX a h) :: u16)) h"
| "ref_step E (Sxtw d a) h = setX d (scast (getW a h)) h"
| "ref_step E (Ldr X64 d m) h = setX d (h_mem h (ea m h)) h"
| "ref_step E (Ldr W32 d m) h = setW d (ucast (h_mem h (ea m h))) h"
| "ref_step E (Str X64 d m) h = h\<lparr>h_mem := (h_mem h)(ea m h := getX d h)\<rparr>"
| "ref_step E (Str W32 d m) h = h\<lparr>h_mem := (h_mem h)(ea m h := store_low (getW d h) (h_mem h (ea m h)))\<rparr>"
| "ref_step E (Ldp d d' m) h = setX d' (h_mem h (ea m h + 8)) (setX d (h_mem h (ea m h)) h)"
| "ref_step E (Stp d d' m) h = h\<lparr>h_mem := (h_mem h)(ea m h := getX d h, ea m h + 8 := getX d' h)\<rparr>"
| "ref_step E (Blr a) h =
     (if getX a h = MmuLoad_addr E
      then case MmuLoad (h_cpu h) (gpr h 1) (gpr h 2) of
             (t, v, c') \<Rightarrow> h\<lparr>gpr := (gpr h)(0 := v), h_cpu := c',
               h_mem := (h_mem h)(exit_trap_addr E := of_nat (trap_index (trap_type t)))\<rparr>
      else case MmuStore (h_cpu h) (gpr h 1) (gpr h 2) (gpr h 3) of
             (t, c') \<Rightarrow> h\<lparr>h_cpu := c', h_mem := (h_mem h)(exit_trap_addr E := of_nat (trap_index (trap_type t)))\<rparr>)"
| "ref_step E _ h = h"

lemma length_after: "length (after l cs) \<le> length cs"
  using length_dropWhile_le [of "\<lambda>c. \<not> is_bind l c" cs] by (auto simp: after_def)

function ref_run :: "jit_env \<Rightarrow> a64 list \<Rightarrow> host \<Rightarrow> host" where
  "ref_run E [] h = h"
| "ref_run E (c # cs) h =
     (case c of
        Cbz w a l \<Rightarrow> ref_run E (if is_zero w a h then after l cs else cs) h
      | Cbnz w a l \<Rightarrow> ref_run E (if is_zero w a h then cs else after l cs) h
      | Tbnz a i l \<Rightarrow> ref_run E (if bit (getX a h) i then after l cs else cs) h
      | B l \<Rightarrow> ref_run E (after l cs) h
      | Ret a \<Rightarrow> h
      | _ \<Rightarrow> ref_run E cs (ref_step E c h))"
  by pat_completeness auto

termination
  by (relation "measure (\<lambda>(E, cs, h). length cs)") (auto simp: length_after less_Suc_eq_le)

lemma ucast_of_nat_32: "(ucast (of_nat n :: u64) :: u32) = of_nat n"
  by transfer (simp add: take_bit_eq_mod mod_mod_cancel le_imp_power_dvd)

interpretation ref_host: a64_host "ref_run E" E for E
proof (unfold_locales, goal_cases)
  case (33 a h t v c' cs)
  then show ?case
    by (intro exI [of _ "ref_step E (Blr a) h"]) (auto simp: callee_keeps_def ucast_of_nat_32 kIdSp_def)
next
  case (34 a h t c' cs)
  then show ?case
    by (intro exI [of _ "ref_step E (Blr a) h"]) (auto simp: callee_keeps_def ucast_of_nat_32 kIdSp_def)
qed simp_all

end
