(* ===== verification/Jit_Select.thy ===== *)
theory Jit_Select
  imports Jit_Host Exec_Props
begin

text \<open>
  The arithmetic of the translated code: for every integer instruction, what the selected host
  instructions compute is what the interpreter computes, as long as the destination does not overwrite
  an operand that is still needed.
\<close>

section \<open>Register access\<close>

lemma getX_setX [simp]: "d \<noteq> kIdZr \<Longrightarrow> getX r (setX d v h) = (if r = d then v else getX r h)"
  by (simp add: getX_def setX_def)

lemma setX_simps [simp]:
  "h_mem (setX d v h) = h_mem h" "h_cpu (setX d v h) = h_cpu h" "h_cmp (setX d v h) = h_cmp h"
  "getX r (h\<lparr>h_cmp := q\<rparr>) = getX r h" "getX r (h\<lparr>h_mem := m\<rparr>) = getX r h"
  "setX d v (setX d w h) = setX d v h"
  by (simp_all add: setX_def getX_def)

lemma setX_cmp: "setX d v (h\<lparr>h_cmp := q\<rparr>) = (setX d v h)\<lparr>h_cmp := q\<rparr>"
  by (simp add: setX_def)

section \<open>64-bit results\<close>

lemma bit_63_sless: "bit (a :: u64) 63 \<longleftrightarrow> a <s 0"
  using bit_last_iff [of a] by (simp add: sless_0)

lemma sdiv_overflow: "word_of_int (sint INT64_MIN sdiv sint (- 1 :: u64)) = INT64_MIN"
  by code_simp

lemma sdiv_overflow_32: "word_of_int (sint INT32_MIN sdiv sint (- 1 :: u32)) = INT32_MIN"
  by code_simp

lemma host_sdiv: "b \<noteq> 0 \<Longrightarrow> word_sdiv a b = op3 Sdiv a b"
  by (simp add: word_sdiv_def)

lemma host_smod: "b \<noteq> 0 \<Longrightarrow> word_smod a b = a - op3 Sdiv a b * b"
  using word_div_identity [of a b] by (simp add: host_sdiv [symmetric] del: op3.simps) (metis add_diff_cancel_left')

lemma host_udiv: "b \<noteq> 0 \<Longrightarrow> a mod b = a - op3 Udiv a b * (b :: 'a::len word)"
  by (simp add: minus_div_mult_eq_mod)

lemma reg_val_host:
  fixes a b :: u64
  shows "reg_val I_ADD a b = Some (op3 Add a b)" "reg_val I_SUB a b = Some (op3 Sub a b)"
    "reg_val I_SLL a b = Some (op3 Lsl a b)" "reg_val I_SRL a b = Some (op3 Lsr a b)" "reg_val I_SRA a b = Some (op3 Asr a b)"
    "reg_val I_XOR a b = Some (op3 Eor a b)" "reg_val I_OR a b = Some (op3 Orr a b)" "reg_val I_AND a b = Some (op3 And a b)"
    "reg_val I_SLT a b = Some (if holds CondLT (a, b) then 1 else 0)" "reg_val I_SLTU a b = Some (if holds CondLO (a, b) then 1 else 0)"
    "reg_val I_MUL a b = Some (op3 Mul a b)" "reg_val I_MULH a b = Some (op3 Smulh a b)" "reg_val I_MULHU a b = Some (op3 Umulh a b)"
    "reg_val I_MULHSU a b = Some (if a = 0 \<or> b = 0 then 0 else if bit a 63 then NOT (op3 Umulh (- a) b) else op3 Umulh a b)"
    "reg_val I_DIV a b = Some (if b = 0 then - 1 else op3 Sdiv a b)" "reg_val I_DIVU a b = Some (if b = 0 then - 1 else op3 Udiv a b)"
    "reg_val I_REM a b = Some (if b = 0 then a else a - op3 Sdiv a b * b)"
    "reg_val I_REMU a b = Some (if b = 0 then a else a - op3 Udiv a b * b)"
proof -
  show "reg_val I_MULH a b = Some (op3 Smulh a b)" "reg_val I_MULHU a b = Some (op3 Umulh a b)"
    by (simp_all add: MULH_correct MULHU_correct mulh_ref_def)
  show "reg_val I_MULHSU a b = Some (if a = 0 \<or> b = 0 then 0 else if bit a 63 then NOT (op3 Umulh (- a) b) else op3 Umulh a b)"
    by (simp add: reg_val_def bit_63_sless abs64_def word_of_int_hi)
  have m: "INT64_MIN - op3 Sdiv INT64_MIN (- 1) * - 1 = 0" by code_simp
  show "reg_val I_DIV a b = Some (if b = 0 then - 1 else op3 Sdiv a b)"
    using sdiv_overflow by (auto simp: reg_val_def host_sdiv)
  show "reg_val I_REM a b = Some (if b = 0 then a else a - op3 Sdiv a b * b)"
    using m by (auto simp: reg_val_def host_smod simp del: op3.simps)
  show "reg_val I_REMU a b = Some (if b = 0 then a else a - op3 Udiv a b * b)"
    by (simp add: reg_val_def host_udiv del: op3.simps)
qed (simp_all add: reg_val_def)

text \<open>The comparison flags after the selected instructions.\<close>

definition sel_cmp :: "InstToken \<Rightarrow> u64 \<times> u64 \<Rightarrow> host \<Rightarrow> u64 \<times> u64" where
  "sel_cmp tok q h = (if tok \<in> {I_SLT, I_SLTU, I_SLTI, I_SLTIU} then q else h_cmp h)"

lemmas label_simps = bound_def after_def

context a64_host
begin

lemma run_SelectReg:
  assumes v: "reg_val tok (getX s1 h) (getX s2 h) = Some v" and t: "token_op tok = kReg" and d: "d \<noteq> kIdZr"
    and al: "tok \<in> {I_REM, I_REMU} \<longrightarrow> d \<noteq> s1 \<and> d \<noteq> s2" "tok = I_MULHSU \<longrightarrow> d \<noteq> s2"
  shows "run (fst (SelectA64RegInstruction d s1 s2 tok n) @ cs) h =
    run cs (setX d v (h\<lparr>h_cmp := sel_cmp tok (getX s1 h, getX s2 h) h\<rparr>))"
  using token_op_reg [OF t] v d al
  by (elim insertE emptyE)
    (auto simp: SelectA64RegInstruction_def Let_def run_simps label_simps reg_val_host sel_cmp_def setX_cmp
      simp del: op3.simps holds.simps)

end

section \<open>32-bit results\<close>

lemma low_ucast [simp]: "(ucast (ucast (v :: u32) :: u64) :: u32) = v"
  by (rule bit_eqI) (auto simp: bit_simps)

lemma getW_setW [simp]: "d \<noteq> kIdZr \<Longrightarrow> getW r (setW d v h) = (if r = d then v else getW r h)"
  by (simp add: getW_def setW_def)

lemma setX_setW [simp]: "setX d v (setW d w h) = setX d v h" "setW d x (setW d w h) = setW d x h"
  by (simp_all add: setW_def)

lemma rv32_val_host:
  fixes a b :: u32
  shows "rv32_val I_ADDW a b = Some (scast (op3 Add a b))" "rv32_val I_SUBW a b = Some (scast (op3 Sub a b))"
    "rv32_val I_SLLW a b = Some (scast (op3 Lsl a b))" "rv32_val I_SRLW a b = Some (scast (op3 Lsr a b))"
    "rv32_val I_SRAW a b = Some (scast (op3 Asr a b))" "rv32_val I_MULW a b = Some (scast (op3 Mul a b))"
    "rv32_val I_DIVW a b = Some (scast (if b = 0 then 0xffffffff else op3 Sdiv a b))"
    "rv32_val I_DIVUW a b = Some (scast (if b = 0 then 0xffffffff else op3 Udiv a b))"
    "rv32_val I_REMW a b = Some (scast (if b = 0 then a else a - op3 Sdiv a b * b))"
    "rv32_val I_REMUW a b = Some (scast (if b = 0 then a else a - op3 Udiv a b * b))"
proof -
  have m: "INT32_MIN - op3 Sdiv INT32_MIN (- 1) * - 1 = 0" by code_simp
  have neg: "- INT32_MIN = INT32_MIN" by code_simp
  have ones: "(scast (0xffffffff :: u32) :: u64) = - 1" by code_simp
  show "rv32_val I_DIVW a b = Some (scast (if b = 0 then 0xffffffff else op3 Sdiv a b))"
    using sdiv_overflow_32 by (auto simp: rv32_val_def host_sdiv ones neg)
  show "rv32_val I_DIVUW a b = Some (scast (if b = 0 then 0xffffffff else op3 Udiv a b))"
    by (auto simp: rv32_val_def ones)
  show "rv32_val I_REMW a b = Some (scast (if b = 0 then a else a - op3 Sdiv a b * b))"
    using m by (auto simp: rv32_val_def host_smod simp del: op3.simps)
  show "rv32_val I_REMUW a b = Some (scast (if b = 0 then a else a - op3 Udiv a b * b))"
    by (auto simp: rv32_val_def host_udiv simp del: op3.simps)
qed (simp_all add: rv32_val_def)

section \<open>Immediates\<close>

lemma shift_amount: "unat (scast (v :: u32) :: u64) mod 64 = unat v mod 64"
proof -
  have "take_bit 6 (scast v :: u64) = ucast (take_bit 6 v)" by (rule bit_eqI) (auto simp: bit_simps)
  then have "unat (take_bit 6 (scast v :: u64)) = unat (take_bit 6 v)" by (simp add: unat_ucast_32_64)
  then show ?thesis by (simp add: unat_take_bit_mod)
qed

lemma low_scast [simp]: "(ucast (scast (v :: u32) :: u64) :: u32) = v"
  by (rule bit_eqI) (auto simp: bit_simps)

lemma imm_val_host:
  fixes a :: u64
  shows "imm_val I_ADDI a v = Some (op3 Add a (scast v))" "imm_val I_XORI a v = Some (op3 Eor a (scast v))"
    "imm_val I_ORI a v = Some (op3 Orr a (scast v))" "imm_val I_ANDI a v = Some (op3 And a (scast v))"
    "imm_val I_SLLI a v = Some (op3 Lsl a (scast v))" "imm_val I_SRLI a v = Some (op3 Lsr a (scast v))"
    "imm_val I_SRAI a v = Some (op3 Asr a (scast v))"
    "imm_val I_SLTI a v = Some (if holds CondLT (a, scast v) then 1 else 0)"
    "imm_val I_SLTIU a v = Some (if holds CondLO (a, scast v) then 1 else 0)"
  by (simp_all add: imm_val_def shift_amount)

lemma imm32_val_host:
  fixes a :: u32
  shows "imm32_val I_ADDIW a v = Some (scast (op3 Add a v))" "imm32_val I_SLLIW a v = Some (scast (op3 Lsl a v))"
    "imm32_val I_SRLIW a v = Some (scast (op3 Lsr a v))" "imm32_val I_SRAIW a v = Some (scast (op3 Asr a v))"
  by (simp_all add: imm32_val_def)

context a64_host
begin

lemma run_SelectReg32:
  assumes v: "rv32_val tok (getW s1 h) (getW s2 h) = Some v" and t: "token_op tok = kRv32" and d: "d \<noteq> kIdZr"
    and al: "tok \<in> {I_REMW, I_REMUW} \<longrightarrow> d \<noteq> s1 \<and> d \<noteq> s2"
  shows "run (fst (SelectA64Reg32Instruction d s1 s2 tok n) @ cs) h = run cs (setX d v h)"
  using token_op_rv32 [OF t] v d al
  by (elim insertE emptyE)
    (auto simp: SelectA64Reg32Instruction_def Let_def run_simps label_simps rv32_val_host simp del: op3.simps)

lemma run_SelectImm:
  assumes w: "imm_val tok (getX s1 h) v = Some w" and t: "token_op tok = kImm" and d: "d \<noteq> kIdZr" "d \<noteq> s1"
  shows "run (SelectA64ImmInstruction d s1 v tok @ cs) h =
    run cs (setX d w (h\<lparr>h_cmp := sel_cmp tok (getX s1 h, scast v) h\<rparr>))"
  using token_op_imm [OF t] w d
  by (elim insertE emptyE)
    (auto simp: SelectA64ImmInstruction_def run_simps imm_val_host sel_cmp_def setX_cmp simp del: op3.simps holds.simps)

lemma run_SelectImm32:
  assumes w: "imm32_val tok (getW s1 h) v = Some w" and t: "token_op tok = kImm32" and d: "d \<noteq> kIdZr" "d \<noteq> s1"
  shows "run (SelectA64Imm32Instruction d s1 v tok @ cs) h = run cs (setX d w h)"
  using token_op_imm32 [OF t] w d
  by (elim insertE emptyE)
    (auto simp: SelectA64Imm32Instruction_def run_simps imm32_val_host simp del: op3.simps)

end

end
