(* ===== verification/Jit_Props.thy ===== *)
theory Jit_Props
  imports Jit_Select
begin

text \<open>
  Translated code against the interpreter. The relation \<open>jit_rel\<close> says that a host state inside a
  translated block represents a guest processor: the guest registers are in the host registers of the
  table, or in the processor object for the two that have none, and the frame of the prologue holds the
  registers of the caller. Every translated integer instruction keeps the relation with the
  interpreter's step, if its operands do not collide in the host registers; the prologue
  establishes the relation and the epilogue turns it into the processor object.
\<close>

section \<open>The register table\<close>

lemma A64_table:
  "list_all (\<lambda>i. (kRv64ToA64Map ! i = 63 \<longleftrightarrow> i = 0) \<and> (kRv64ToA64Map ! i < 0 \<longleftrightarrow> i = 3 \<or> i = 4) \<and>
     (kRv64ToA64Map ! i < 0 \<or> kRv64ToA64Map ! i = 63 \<or> 0 \<le> kRv64ToA64Map ! i \<and> kRv64ToA64Map ! i \<le> 28)) [0..<32]"
  "list_all (\<lambda>i. list_all (\<lambda>j. 0 \<le> kRv64ToA64Map ! i \<and> kRv64ToA64Map ! i = kRv64ToA64Map ! j \<longrightarrow> i = j) [0..<32]) [0..<32]"
  by code_simp+

lemma unat_reg: "(r :: u8) < 32 \<Longrightarrow> unat r < 32"
  by (simp add: word_less_nat_alt)

lemma A64Reg_range:
  assumes "r < 32"
  shows "A64Reg r = kIdZr \<longleftrightarrow> r = 0" and "A64Reg r < 0 \<longleftrightarrow> r = 3 \<or> r = 4"
    and "A64Reg r < 0 \<or> A64Reg r = kIdZr \<or> 0 \<le> A64Reg r \<and> A64Reg r \<le> 28"
proof -
  have "unat r \<in> set [0..<32]" using unat_reg [OF assms] by simp
  with A64_table(1) have "(A64Reg r = 63 \<longleftrightarrow> unat r = 0) \<and> (A64Reg r < 0 \<longleftrightarrow> unat r = 3 \<or> unat r = 4) \<and>
      (A64Reg r < 0 \<or> A64Reg r = 63 \<or> 0 \<le> A64Reg r \<and> A64Reg r \<le> 28)"
    unfolding list_all_iff A64Reg_def by blast
  then show "A64Reg r = kIdZr \<longleftrightarrow> r = 0" "A64Reg r < 0 \<longleftrightarrow> r = 3 \<or> r = 4"
    "A64Reg r < 0 \<or> A64Reg r = kIdZr \<or> 0 \<le> A64Reg r \<and> A64Reg r \<le> 28"
    by (auto simp: kIdZr_def word_unat_eq_iff)
qed

lemma A64Reg_inj:
  assumes "r < 32" and "q < 32" and "A64Reg r = A64Reg q" and "0 \<le> A64Reg r"
  shows "r = q"
proof -
  have "unat r \<in> set [0..<32]" "unat q \<in> set [0..<32]" using assms(1,2) unat_reg by simp_all
  with A64_table(2) assms(3,4) have "unat r = unat q" unfolding list_all_iff A64Reg_def by blast
  then show ?thesis by (simp add: word_unat_eq_iff)
qed

section \<open>The processor object and the stack\<close>

definition xcell :: "jit_env \<Rightarrow> u8 \<Rightarrow> u64" where
  "xcell E r = cpu_addr E + (kXregBias E + push_bit 3 (ucast r))"

definition cells :: "jit_env \<Rightarrow> u64 set" where
  "cells E = xcell E ` {r. r < 32} \<union> {cpu_addr E + kPcBias E, cpu_addr E + kInstretBias E}"

definition scratch :: "u64 \<Rightarrow> u64 set" where
  "scratch s = {s - 8, s - 16, s - 24, s - 32, s - 40, s - 48}"

lemma scratch_image: "scratch s = (\<lambda>k. s - 8 * of_nat k) ` {1..6}"
proof -
  have "{1..6} = {1, 2, 3, 4, 5, 6 :: nat}" by auto
  then show ?thesis by (simp add: scratch_def)
qed

text \<open>What the code relies on: everything it accesses is a multiple of eight, the members of the
  processor object do not overlap, and the stack (a frame of 31 doublewords at \<open>s\<close>, six more below) is
  somewhere else.\<close>

definition jit_layout :: "jit_env \<Rightarrow> u64 \<Rightarrow> bool" where
  "jit_layout E s \<longleftrightarrow>
     8 dvd s \<and> 8 dvd cpu_addr E + kXregBias E \<and> 8 dvd cpu_addr E + kPcBias E \<and> 8 dvd cpu_addr E + kInstretBias E \<and>
     kPcBias E \<noteq> kInstretBias E \<and>
     (\<forall>r < 32. xcell E r \<noteq> cpu_addr E + kPcBias E \<and> xcell E r \<noteq> cpu_addr E + kInstretBias E) \<and>
     (\<forall>k < 37. s - 48 + 8 * of_nat k \<notin> cells E)"

lemma xcell_inj: "xcell E r = xcell E q \<longleftrightarrow> r = q"
proof -
  have "push_bit 3 (ucast r :: u64) = push_bit 3 (ucast q) \<longleftrightarrow> r = q"
  proof
    assume "push_bit 3 (ucast r :: u64) = push_bit 3 (ucast q)"
    then have "drop_bit 3 (push_bit 3 (ucast r :: u64)) = drop_bit 3 (push_bit 3 (ucast q))" by simp
    moreover have "drop_bit 3 (push_bit 3 (ucast x :: u64)) = ucast x" for x :: u8
      by (rule bit_eqI) (auto simp: bit_simps dest: bit_imp_le_length)
    ultimately have "(ucast r :: u64) = ucast q" by simp
    then have "(ucast (ucast r :: u64) :: u8) = ucast (ucast q :: u64)" by simp
    moreover have "(ucast (ucast x :: u64) :: u8) = x" for x :: u8 by (rule bit_eqI) (auto simp: bit_simps)
    ultimately show "r = q" by simp
  qed simp
  then show ?thesis by (simp add: xcell_def)
qed

lemma xcell_aligned: "jit_layout E s \<Longrightarrow> 8 dvd xcell E r"
proof -
  assume "jit_layout E s"
  then have "8 dvd cpu_addr E + kXregBias E" by (simp add: jit_layout_def)
  moreover have "(8 :: u64) dvd push_bit 3 (ucast r)" by (simp add: push_bit_eq_mult)
  ultimately have "8 dvd cpu_addr E + kXregBias E + push_bit 3 (ucast r)" by (rule dvd_add)
  then show ?thesis by (simp add: xcell_def add.assoc)
qed

lemma stack_slots:
  assumes "jit_layout E s" and "a \<in> scratch s \<or> (\<exists>i \<le> 30. a = s + 8 * of_nat i)"
  shows "a \<notin> cells E" and "8 dvd a"
proof -
  have "\<exists>k < 37. a = s - 48 + 8 * of_nat k"
  proof (cases "a \<in> scratch s")
    case True
    then obtain k where k: "1 \<le> k" "k \<le> 6" "a = s - 8 * of_nat k" by (auto simp: scratch_image)
    then have "a = s - 48 + 8 * of_nat (6 - k)" by (simp add: of_nat_diff algebra_simps)
    with k show ?thesis by (intro exI [of _ "6 - k"]) simp
  next
    case False
    with assms(2) obtain i where i: "i \<le> 30" "a = s + 8 * of_nat i" by blast
    then have "a = s - 48 + 8 * of_nat (i + 6)" by (simp add: algebra_simps)
    with i(1) show ?thesis by (intro exI [of _ "i + 6"]) simp
  qed
  then obtain k where k: "k < 37" "a = s - 48 + 8 * of_nat k" by blast
  with assms(1) show "a \<notin> cells E" by (simp add: jit_layout_def)
  have "(8 :: u64) dvd 48" by (rule dvdI [of _ _ 6]) simp
  with assms(1) k(2) show "8 dvd a" by (simp add: jit_layout_def dvd_add dvd_diff)
qed

lemma frame_not_scratch: "i \<le> 30 \<Longrightarrow> s + 8 * of_nat i \<notin> scratch s"
proof
  assume i: "i \<le> 30" and "s + 8 * of_nat i \<in> scratch s"
  then obtain k where k: "1 \<le> k" "k \<le> 6" "s + 8 * of_nat i = s - 8 * of_nat k" by (auto simp: scratch_image)
  then have "s + of_nat (8 * (i + k)) = s + 0" by (simp add: algebra_simps)
  then have "(of_nat (8 * (i + k)) :: u64) = 0" by (simp only: add_left_cancel)
  moreover have "unat (of_nat (8 * (i + k)) :: u64) = 8 * (i + k)"
    using i k(2) by (simp only: unsigned_of_nat take_bit_eq_mod) simp
  ultimately have "8 * (i + k) = 0" by (metis unsigned_0)
  with k(1) show False by simp
qed

section \<open>Host states that represent a guest\<close>

definition greg :: "jit_env \<Rightarrow> host \<Rightarrow> u8 \<Rightarrow> u64" where
  "greg E h r = (if A64Reg r < 0 then h_mem h (xcell E r) else getX (A64Reg r) h)"

definition same_rest :: "cpu \<Rightarrow> cpu \<Rightarrow> bool" where
  "same_rest p c \<longleftrightarrow> cpu_mmu p = cpu_mmu c \<and> cpu_state p = cpu_state c \<and> cpu_priv_mode p = cpu_priv_mode c \<and>
     cpu_reservation p = cpu_reservation c \<and> cpu_hart_id p = cpu_hart_id c \<and> cpu_fregs p = cpu_fregs c"

definition jit_rel :: "jit_env \<Rightarrow> u64 \<Rightarrow> (nat \<Rightarrow> u64) \<Rightarrow> host \<Rightarrow> cpu \<Rightarrow> bool" where
  "jit_rel E s saved h c \<longleftrightarrow>
     gpr h 29 = cpu_addr E \<and> gpr h kIdSp = s \<and> (\<forall>r < 32. greg E h r = xreg c r) \<and>
     (\<forall>i \<le> 30. h_mem h (s + 8 * of_nat i) = saved i) \<and>
     h_mem h (cpu_addr E + kPcBias E) = cpu_pc c \<and> h_mem h (cpu_addr E + kInstretBias E) = cpu_instret c \<and>
     same_rest (h_cpu h) c"

lemma jit_rel_cell:
  assumes rel: "jit_rel E s saved h c" and lay: "jit_layout E s" and d: "d < 32"
    and g: "gpr h' 29 = gpr h 29" "gpr h' kIdSp = gpr h kIdSp" "h_cpu h' = h_cpu h"
    and m: "\<And>a. a \<notin> scratch s \<Longrightarrow> a \<noteq> xcell E d \<Longrightarrow> h_mem h' a = h_mem h a"
    and r: "\<And>r. r < 32 \<Longrightarrow> greg E h' r = x r"
  shows "jit_rel E s saved h' (c\<lparr>cpu_xregs := x\<rparr>)"
proof -
  have "s + 8 * of_nat i \<noteq> xcell E d" if "i \<le> 30" for i
    using stack_slots(1) [OF lay, of "s + 8 * of_nat i"] that d by (auto simp: cells_def)
  then have fr: "h_mem h' (s + 8 * of_nat i) = h_mem h (s + 8 * of_nat i)" if "i \<le> 30" for i
    using that frame_not_scratch m by blast
  have "cpu_addr E + kPcBias E \<notin> scratch s" "cpu_addr E + kInstretBias E \<notin> scratch s"
    using stack_slots(1) [OF lay] by (auto simp: cells_def)
  moreover have "cpu_addr E + kPcBias E \<noteq> xcell E d" "cpu_addr E + kInstretBias E \<noteq> xcell E d"
    using lay d by (auto simp: jit_layout_def)
  ultimately have "h_mem h' (cpu_addr E + kPcBias E) = h_mem h (cpu_addr E + kPcBias E)"
    "h_mem h' (cpu_addr E + kInstretBias E) = h_mem h (cpu_addr E + kInstretBias E)" using m by blast+
  then show ?thesis using rel g r fr by (simp add: jit_rel_def same_rest_def)
qed

lemma jit_rel_set:
  assumes rel: "jit_rel E s saved h c" and lay: "jit_layout E s" and d: "d < 32" "d \<noteq> 0"
    and g: "gpr h' 29 = gpr h 29" "gpr h' kIdSp = gpr h kIdSp" "h_cpu h' = h_cpu h"
    and m: "\<And>a. a \<notin> scratch s \<Longrightarrow> a \<noteq> xcell E d \<Longrightarrow> h_mem h' a = h_mem h a"
    and r: "\<And>r. r < 32 \<Longrightarrow> greg E h' r = (if r = d then v else greg E h r)"
  shows "jit_rel E s saved h' (set_xreg d v c)"
proof (rule jit_rel_cell [OF rel lay d(1) g m])
  fix q :: u8
  assume "q < 32"
  with r rel show "greg E h' q = ((cpu_xregs c)(d := v)) q" by (simp add: jit_rel_def)
qed

definition hreg :: "gp \<Rightarrow> u8 \<Rightarrow> gp" where
  "hreg k r = (if A64Reg r < 0 then k else A64Reg r)"

lemma hreg_not_special:
  assumes "r < 32" "0 \<le> k" "k \<le> 28"
  shows "hreg k r \<noteq> 29" "hreg k r \<noteq> kIdSp" "r \<noteq> 0 \<Longrightarrow> hreg k r \<noteq> kIdZr"
  using A64Reg_range [OF assms(1)] assms(2,3) by (auto simp: hreg_def const_defs)

lemma greg_simps [simp]:
  "greg E (h\<lparr>h_cmp := q\<rparr>) r = greg E h r"
  by (simp add: greg_def)

text \<open>The destination is a host register.\<close>

lemma jit_rel_setX:
  assumes rel: "jit_rel E s saved h c" and lay: "jit_layout E s" and d: "d < 32" "d \<noteq> 0" "0 \<le> A64Reg d"
  shows "jit_rel E s saved (setX (A64Reg d) v (h\<lparr>h_cmp := q\<rparr>)) (set_xreg d v c)"
proof (rule jit_rel_set [OF rel lay d(1,2)])
  have ne: "A64Reg d \<noteq> kIdZr" "A64Reg d \<noteq> 29" "A64Reg d \<noteq> kIdSp"
    using A64Reg_range [OF d(1)] d(2,3) by (auto simp: const_defs)
  then show "gpr (setX (A64Reg d) v (h\<lparr>h_cmp := q\<rparr>)) 29 = gpr h 29" "gpr (setX (A64Reg d) v (h\<lparr>h_cmp := q\<rparr>)) kIdSp = gpr h kIdSp"
    by (simp_all add: setX_def)
  fix r :: u8
  assume r: "r < 32"
  show "greg E (setX (A64Reg d) v (h\<lparr>h_cmp := q\<rparr>)) r = (if r = d then v else greg E h r)"
    using A64Reg_inj [OF r d(1)] d(3) ne(1) by (auto simp: greg_def)
qed simp_all

section \<open>Instructions with operands in memory\<close>

definition spill3 :: "jit_env \<Rightarrow> u8 \<Rightarrow> u8 \<Rightarrow> u8 \<Rightarrow> a64 list \<Rightarrow> a64 list" where
  "spill3 E d r1 r2 select =
     [SubI X64 kIdSp kIdSp 32] @
     (if A64Reg r2 < 0 then [Str X64 2 (sp_slot 16), Ldr X64 2 (XRegToMem E r2)] else []) @
     (if A64Reg r1 < 0 then [Str X64 1 (sp_slot 8), Ldr X64 1 (XRegToMem E r1)] else []) @
     (if A64Reg d < 0
      then [Str X64 0 (sp_slot 0)] @ select @ [Str X64 0 (XRegToMem E d), Ldr X64 0 (sp_slot 0)]
      else select) @
     (if A64Reg r1 < 0 then [Ldr X64 1 (sp_slot 8)] else []) @
     (if A64Reg r2 < 0 then [Ldr X64 2 (sp_slot 16)] else []) @
     [AddI kIdSp kIdSp 32]"

lemma slot_simps:
  fixes s :: u64
  shows "s - 32 + 16 = s - 16" "s - 32 + 8 = s - 24" "s - 16 + 8 = s - 8" "s - 32 + 24 = s - 8" "s - 48 + 24 = s - 24"
    "s - 48 + 16 = s - 32" "s - 48 + 32 = s - 16" "s - 48 + 8 = s - 40"
  by simp_all

lemma sub_cancel: "(s :: u64) - a = s - b \<longleftrightarrow> a = b"
  by (metis add_diff_cancel_left' diff_add_cancel add.commute minus_diff_eq)

lemma slot_facts:
  assumes "jit_layout E s"
  shows "8 dvd s - 8" "8 dvd s - 16" "8 dvd s - 24" "8 dvd s - 32" "8 dvd s - 40" "8 dvd s - 48"
    and "r < 32 \<Longrightarrow> a \<in> scratch s \<Longrightarrow> xcell E r \<noteq> a"
  using stack_slots [OF assms] by (auto simp: scratch_def cells_def)

lemma slot_ne:
  assumes "jit_layout E s" and "r < 32"
  shows "xcell E r \<noteq> s - 8" "xcell E r \<noteq> s - 16" "xcell E r \<noteq> s - 24" "xcell E r \<noteq> s - 32" "xcell E r \<noteq> s - 40" "xcell E r \<noteq> s - 48"
    "s - 8 \<noteq> xcell E r" "s - 16 \<noteq> xcell E r" "s - 24 \<noteq> xcell E r" "s - 32 \<noteq> xcell E r" "s - 40 \<noteq> xcell E r" "s - 48 \<noteq> xcell E r"
proof -
  have in_scratch: "s - 8 \<in> scratch s" "s - 16 \<in> scratch s" "s - 24 \<in> scratch s" "s - 32 \<in> scratch s" "s - 40 \<in> scratch s" "s - 48 \<in> scratch s"
    by (simp_all add: scratch_def)
  note ne = in_scratch [THEN slot_facts(7) [OF assms]]
  show "xcell E r \<noteq> s - 8" "xcell E r \<noteq> s - 16" "xcell E r \<noteq> s - 24" "xcell E r \<noteq> s - 32" "xcell E r \<noteq> s - 40" "xcell E r \<noteq> s - 48"
    by (rule ne)+
  show "s - 8 \<noteq> xcell E r" "s - 16 \<noteq> xcell E r" "s - 24 \<noteq> xcell E r" "s - 32 \<noteq> xcell E r" "s - 40 \<noteq> xcell E r" "s - 48 \<noteq> xcell E r"
    by (rule ne [symmetric])+
qed

context a64_host
begin

lemma run_spill3:
  assumes rel: "jit_rel E s saved h c" and lay: "jit_layout E s" and r: "d < 32" "d \<noteq> 0" "r1 < 32" "r2 < 32"
    and sel: "\<And>h cs. run (select @ cs) h =
      run cs (setX (hreg 0 d) (f (getX (hreg 1 r1) h) (getX (hreg 2 r2) h)) (h\<lparr>h_cmp := q h\<rparr>))"
    and al: "A64Reg r2 < 0 \<longrightarrow> hreg 1 r1 \<noteq> 2 \<and> hreg 0 d \<noteq> 2" "A64Reg r1 < 0 \<longrightarrow> hreg 2 r2 \<noteq> 1 \<and> hreg 0 d \<noteq> 1"
  shows "\<exists>h'. run (spill3 E d r1 r2 select @ cs) h = run cs h' \<and>
    jit_rel E s saved h' (set_xreg d (f (xreg c r1) (xreg c r2)) c)"
proof -
  from rel have g: "gpr h 29 = cpu_addr E" "gpr h 31 = s" "greg E h r1 = xreg c r1" "greg E h r2 = xreg c r2"
    using r by (auto simp: jit_rel_def kIdSp_def)
  note sp = slot_facts(1-6) [OF lay] and xa = xcell_aligned [OF lay]
  have ne': "xcell E r \<noteq> s - 16" "xcell E r \<noteq> s - 24" "xcell E r \<noteq> s - 32" "xcell E r \<noteq> s - 40" "xcell E r \<noteq> s - 48" if "r < 32" for r
    using slot_facts(7) [OF lay that] by (auto simp: scratch_def)
  note ne = ne' [OF r(1)] ne' [OF r(3)] ne' [OF r(4)] ne' [symmetric, OF r(1)] ne' [symmetric, OF r(3)] ne' [symmetric, OF r(4)]
  note eval = spill3_def sp_slot_def XRegToMem_def run_simps sel hreg_def getX_def setX_def g const_defs slot_simps sp xa ne sub_cancel
  have inj: "A64Reg x = A64Reg d \<longleftrightarrow> x = d" if "x < 32" "\<not> A64Reg d < 0" for x
    using A64Reg_inj [OF that(1) r(1)] that(2) by auto
  have d31: "A64Reg d \<noteq> 31" "A64Reg d \<noteq> 29" "A64Reg d \<noteq> 63" using A64Reg_range [OF r(1)] r(2) by (auto simp: const_defs)
  have r31: "A64Reg x \<noteq> 31" if "x < 32" for x using A64Reg_range(3) [OF that] by (auto simp: const_defs)
  have fin: "xreg c r1 = (if A64Reg r1 < 0 then h_mem h (xcell E r1) else getX (A64Reg r1) h)"
    "xreg c r2 = (if A64Reg r2 < 0 then h_mem h (xcell E r2) else getX (A64Reg r2) h)"
    using g(3,4) by (simp_all add: greg_def)
  note fini = const_defs g(2) d31 scratch_def greg_def getX_def xcell_inj fin ne' r31 r31 [OF r(3)] r31 [OF r(4)] inj
  show ?thesis
    by (cases "A64Reg r2 < 0"; cases "A64Reg r1 < 0"; cases "A64Reg d < 0";
        (rule exI, rule conjI, simp add: eval d31 flip: xcell_def, rule jit_rel_set [OF rel lay r(1,2)],
         insert al, simp_all add: fini hreg_def))
qed

end

definition spill2 :: "jit_env \<Rightarrow> u8 \<Rightarrow> u8 \<Rightarrow> a64 list \<Rightarrow> a64 list" where
  "spill2 E d r1 select =
     [SubI X64 kIdSp kIdSp 16] @
     (if A64Reg r1 < 0 then [Str X64 1 (sp_slot 8), Ldr X64 1 (XRegToMem E r1)] else []) @
     (if A64Reg d < 0
      then [Str X64 0 (sp_slot 0)] @ select @ [Str X64 0 (XRegToMem E d), Ldr X64 0 (sp_slot 0)]
      else select) @
     (if A64Reg r1 < 0 then [Ldr X64 1 (sp_slot 8)] else []) @
     [AddI kIdSp kIdSp 16]"

context a64_host
begin

lemma run_spill2:
  assumes rel: "jit_rel E s saved h c" and lay: "jit_layout E s" and r: "d < 32" "d \<noteq> 0" "r1 < 32"
    and sel: "\<And>h cs. run (select @ cs) h = run cs (setX (hreg 0 d) (f (getX (hreg 1 r1) h)) (h\<lparr>h_cmp := q h\<rparr>))"
    and al: "hreg 0 d \<noteq> hreg 1 r1"
  shows "\<exists>h'. run (spill2 E d r1 select @ cs) h = run cs h' \<and> jit_rel E s saved h' (set_xreg d (f (xreg c r1)) c)"
proof -
  from rel have g: "gpr h 29 = cpu_addr E" "gpr h 31 = s" "greg E h r1 = xreg c r1"
    using r by (auto simp: jit_rel_def kIdSp_def)
  note sp = slot_facts(1-6) [OF lay] and xa = xcell_aligned [OF lay]
  have ne': "xcell E r \<noteq> s - 8" "xcell E r \<noteq> s - 16" if "r < 32" for r
    using slot_facts(7) [OF lay that] by (auto simp: scratch_def)
  note ne = ne' [OF r(1)] ne' [OF r(3)] ne' [symmetric, OF r(1)] ne' [symmetric, OF r(3)]
  note eval = spill2_def sp_slot_def XRegToMem_def run_simps sel hreg_def getX_def setX_def g const_defs slot_simps sp xa ne sub_cancel
  have inj: "A64Reg x = A64Reg d \<longleftrightarrow> x = d" if "x < 32" "\<not> A64Reg d < 0" for x
    using A64Reg_inj [OF that(1) r(1)] that(2) by auto
  have d31: "A64Reg d \<noteq> 31" "A64Reg d \<noteq> 29" "A64Reg d \<noteq> 63" using A64Reg_range [OF r(1)] r(2) by (auto simp: const_defs)
  have r31: "A64Reg x \<noteq> 31" if "x < 32" for x using A64Reg_range(3) [OF that] by (auto simp: const_defs)
  have fin: "xreg c r1 = (if A64Reg r1 < 0 then h_mem h (xcell E r1) else getX (A64Reg r1) h)"
    using g(3) by (simp add: greg_def)
  note fini = const_defs g(2) d31 scratch_def greg_def getX_def xcell_inj fin ne' r31 r31 [OF r(3)] inj
  show ?thesis
    by (cases "A64Reg r1 < 0"; cases "A64Reg d < 0";
        (rule exI, rule conjI, simp add: eval d31 flip: xcell_def, rule jit_rel_set [OF rel lay r(1,2)],
         insert al, simp_all add: fini hreg_def))
qed

end

section \<open>One translated instruction\<close>

definition jumps :: "u8 set" where
  "jumps = {kJal, kJalr}"

text \<open>The instructions for which the translation is right: the registers of the instruction are
  registers, and in the host registers that stand for them (\<open>x0\<close>, \<open>x1\<close>, \<open>x2\<close> for a guest register
  without one) the destination and the scratch registers do not destroy an operand that is still
  needed. The sum of an \<^verbatim>\<open>AUIPC\<close> must fit its 32-bit immediate, a jump must have a
  destination register, and the base of a store must not be in \<open>x0\<close>.\<close>

definition jit_ok :: "DecodeInfo \<Rightarrow> bool" where
  "jit_ok info \<longleftrightarrow>
     op info = token_op (token info) \<and> token info \<noteq> I_UNKNOWN \<and> op info \<noteq> kUndef \<and>
     rd info < 32 \<and> rs1 info < 32 \<and> rs2 info < 32 \<and>
     op info \<in> {kReg, kRv32, kImm, kImm32, kLui, kAuipc, kLoad, kStore} \<union> jumps \<and>
     (op info \<in> jumps \<longrightarrow> rd info \<noteq> 0) \<and> (op info = kStore \<longrightarrow> A64Reg (rs1 info) \<noteq> 0) \<and>
     (rd info \<noteq> 0 \<longrightarrow>
       (op info \<in> {kReg, kRv32} \<longrightarrow>
          (A64Reg (rs2 info) < 0 \<longrightarrow> hreg 1 (rs1 info) \<noteq> 2 \<and> hreg 0 (rd info) \<noteq> 2) \<and>
          (A64Reg (rs1 info) < 0 \<longrightarrow> hreg 2 (rs2 info) \<noteq> 1 \<and> hreg 0 (rd info) \<noteq> 1) \<and>
          (token info \<in> {I_REM, I_REMU, I_REMW, I_REMUW} \<longrightarrow>
             hreg 0 (rd info) \<noteq> hreg 1 (rs1 info) \<and> hreg 0 (rd info) \<noteq> hreg 2 (rs2 info)) \<and>
          (token info = I_MULHSU \<longrightarrow> hreg 0 (rd info) \<noteq> hreg 2 (rs2 info))) \<and>
       (op info \<in> {kImm, kImm32, kJalr} \<longrightarrow> hreg 0 (rd info) \<noteq> hreg 1 (rs1 info)) \<and>
       (op info = kAuipc \<longrightarrow> scast (ucast (scast (imm info) + pc info) :: u32) = scast (imm info) + pc info))"

text \<open>The interpreter's step, with the zero register reset as the cycle does.\<close>

definition interp :: "env \<Rightarrow> DecodeInfo \<Rightarrow> cpu \<Rightarrow> cpu" where
  "interp env info c = set_xreg 0 0 (snd (Exec env info c))"

lemma interp_alu:
  assumes "Exec env info c = (kNoneTrap, set_xreg (rd info) v c')" and "xreg c' 0 = 0"
  shows "interp env info c = (if rd info = 0 then c' else set_xreg (rd info) v c')"
proof -
  have "(cpu_xregs c')(0 := 0) = cpu_xregs c'" using assms(2) by (auto simp: fun_eq_iff)
  then show ?thesis using assms by (auto simp: interp_def fun_upd_twist)
qed

lemma jit_rel_x0: "jit_rel E s saved h c \<Longrightarrow> xreg c 0 = 0"
  by (auto simp: jit_rel_def greg_def getX_def A64Reg_def kRv64ToA64Map_def const_defs dest!: spec [of _ 0])

lemma EmitReg_spill:
  "rd info \<noteq> 0 \<Longrightarrow> fst (EmitReg E info n) =
     (let select = fst (SelectA64RegInstruction (hreg 0 (rd info)) (hreg 1 (rs1 info)) (hreg 2 (rs2 info)) (token info) n)
      in if 0 \<le> A64Reg (rd info) \<and> 0 \<le> A64Reg (rs1 info) \<and> 0 \<le> A64Reg (rs2 info) then select
         else spill3 E (rd info) (rs1 info) (rs2 info) select)"
  by (simp add: EmitReg_def Let_def hreg_def spill3_def split: prod.splits)

lemma EmitReg32_spill:
  "rd info \<noteq> 0 \<Longrightarrow> fst (EmitReg32 E info n) =
     (let select = fst (SelectA64Reg32Instruction (hreg 0 (rd info)) (hreg 1 (rs1 info)) (hreg 2 (rs2 info)) (token info) n)
      in if 0 \<le> A64Reg (rd info) \<and> 0 \<le> A64Reg (rs1 info) \<and> 0 \<le> A64Reg (rs2 info) then select
         else spill3 E (rd info) (rs1 info) (rs2 info) select)"
  by (simp add: EmitReg32_def Let_def hreg_def spill3_def split: prod.splits)

lemma EmitImm_spill:
  "rd info \<noteq> 0 \<Longrightarrow> EmitImm E info =
     (let select = SelectA64ImmInstruction (hreg 0 (rd info)) (hreg 1 (rs1 info)) (imm info) (token info)
      in if 0 \<le> A64Reg (rd info) \<and> 0 \<le> A64Reg (rs1 info) then select else spill2 E (rd info) (rs1 info) select)"
  by (simp add: EmitImm_def Let_def hreg_def spill2_def)

lemma EmitImm32_spill:
  "rd info \<noteq> 0 \<Longrightarrow> EmitImm32 E info =
     (let select = SelectA64Imm32Instruction (hreg 0 (rd info)) (hreg 1 (rs1 info)) (imm info) (token info)
      in if 0 \<le> A64Reg (rd info) \<and> 0 \<le> A64Reg (rs1 info) then select else spill2 E (rd info) (rs1 info) select)"
  by (simp add: EmitImm32_def Let_def hreg_def spill2_def)

context a64_host
begin

lemma run_operands3:
  assumes rel: "jit_rel E s saved h c" and lay: "jit_layout E s" and r: "d < 32" "d \<noteq> 0" "r1 < 32" "r2 < 32"
    and sel: "\<And>h cs. run (select @ cs) h =
      run cs (setX (hreg 0 d) (f (getX (hreg 1 r1) h) (getX (hreg 2 r2) h)) (h\<lparr>h_cmp := q h\<rparr>))"
    and al: "A64Reg r2 < 0 \<longrightarrow> hreg 1 r1 \<noteq> 2 \<and> hreg 0 d \<noteq> 2" "A64Reg r1 < 0 \<longrightarrow> hreg 2 r2 \<noteq> 1 \<and> hreg 0 d \<noteq> 1"
  shows "\<exists>h'. run ((if 0 \<le> A64Reg d \<and> 0 \<le> A64Reg r1 \<and> 0 \<le> A64Reg r2 then select else spill3 E d r1 r2 select) @ cs) h =
      run cs h' \<and> jit_rel E s saved h' (set_xreg d (f (xreg c r1) (xreg c r2)) c)"
proof (cases "0 \<le> A64Reg d \<and> 0 \<le> A64Reg r1 \<and> 0 \<le> A64Reg r2")
  case True
  then have "getX (hreg 1 r1) h = xreg c r1" "getX (hreg 2 r2) h = xreg c r2"
    using rel r by (auto simp: jit_rel_def greg_def hreg_def)
  with True jit_rel_setX [OF rel lay r(1,2), of "f (xreg c r1) (xreg c r2)" "q h"] show ?thesis
    by (intro exI) (auto simp: sel hreg_def)
next
  case False
  with run_spill3 [OF rel lay r sel al] show ?thesis by (simp only: if_False)
qed

lemma run_operands2:
  assumes rel: "jit_rel E s saved h c" and lay: "jit_layout E s" and r: "d < 32" "d \<noteq> 0" "r1 < 32"
    and sel: "\<And>h cs. run (select @ cs) h = run cs (setX (hreg 0 d) (f (getX (hreg 1 r1) h)) (h\<lparr>h_cmp := q h\<rparr>))"
    and al: "hreg 0 d \<noteq> hreg 1 r1"
  shows "\<exists>h'. run ((if 0 \<le> A64Reg d \<and> 0 \<le> A64Reg r1 then select else spill2 E d r1 select) @ cs) h =
      run cs h' \<and> jit_rel E s saved h' (set_xreg d (f (xreg c r1)) c)"
proof (cases "0 \<le> A64Reg d \<and> 0 \<le> A64Reg r1")
  case True
  then have "getX (hreg 1 r1) h = xreg c r1" using rel r by (auto simp: jit_rel_def greg_def hreg_def)
  with True jit_rel_setX [OF rel lay r(1,2), of "f (xreg c r1)" "q h"] show ?thesis
    by (intro exI) (auto simp: sel hreg_def)
next
  case False
  with run_spill2 [OF rel lay r sel al] show ?thesis by (simp only: if_False)
qed

lemma same_cmp: "h\<lparr>h_cmp := h_cmp h\<rparr> = (h :: host)"
  by (cases h) simp

lemma run_EmitReg:
  assumes rel: "jit_rel E s saved h c" and lay: "jit_layout E s" and ok: "jit_ok info" "op info = kReg" "rd info \<noteq> 0"
  shows "\<exists>h'. run (fst (EmitReg E info n) @ cs) h = run cs h' \<and> jit_rel E s saved h' (interp env info c)"
proof -
  let ?f = "\<lambda>a b. the (reg_val (token info) a b)"
  let ?sel = "fst (SelectA64RegInstruction (hreg 0 (rd info)) (hreg 1 (rs1 info)) (hreg 2 (rs2 info)) (token info) n)"
  let ?q = "\<lambda>h. sel_cmp (token info) (getX (hreg 1 (rs1 info)) h, getX (hreg 2 (rs2 info)) h) h"
  from ok have t: "token_op (token info) = kReg" and r: "rd info < 32" "rs1 info < 32" "rs2 info < 32" by (simp_all add: jit_ok_def)
  have z: "hreg 0 (rd info) \<noteq> kIdZr" using hreg_not_special(3) [OF r(1), of 0] ok(3) by simp
  have v: "reg_val (token info) a b = Some (?f a b)" for a b
    using vals_defined(1) [OF t] by (metis option.sel)
  have "Exec env info c = (kNoneTrap, set_xreg (rd info) (?f (xreg c (rs1 info)) (xreg c (rs2 info))) c)"
    using Exec_op(1) [OF ok(2)] v by (metis RegTypeExec_def write_back_Some)
  note i = interp_alu [OF this jit_rel_x0 [OF rel]]
  have sel: "run (?sel @ cs) h = run cs (setX (hreg 0 (rd info)) (?f (getX (hreg 1 (rs1 info)) h) (getX (hreg 2 (rs2 info)) h)) (h\<lparr>h_cmp := ?q h\<rparr>))" for h cs
    using ok z by (intro run_SelectReg [OF v t]) (simp_all add: jit_ok_def)
  have "\<exists>h'. run ((if 0 \<le> A64Reg (rd info) \<and> 0 \<le> A64Reg (rs1 info) \<and> 0 \<le> A64Reg (rs2 info) then ?sel
        else spill3 E (rd info) (rs1 info) (rs2 info) ?sel) @ cs) h =
      run cs h' \<and> jit_rel E s saved h' (set_xreg (rd info) (?f (xreg c (rs1 info)) (xreg c (rs2 info))) c)"
    using ok by (intro run_operands3 [where f = ?f and q = ?q, OF rel lay r(1) ok(3) r(2,3) sel]) (simp_all add: jit_ok_def)
  then show ?thesis using ok(3) i by (simp add: EmitReg_spill Let_def)
qed

lemma run_EmitReg32:
  assumes rel: "jit_rel E s saved h c" and lay: "jit_layout E s" and ok: "jit_ok info" "op info = kRv32" "rd info \<noteq> 0"
  shows "\<exists>h'. run (fst (EmitReg32 E info n) @ cs) h = run cs h' \<and> jit_rel E s saved h' (interp env info c)"
proof -
  let ?f = "\<lambda>a b :: u64. the (rv32_val (token info) (ucast a) (ucast b))"
  let ?sel = "fst (SelectA64Reg32Instruction (hreg 0 (rd info)) (hreg 1 (rs1 info)) (hreg 2 (rs2 info)) (token info) n)"
  from ok have t: "token_op (token info) = kRv32" and r: "rd info < 32" "rs1 info < 32" "rs2 info < 32" by (simp_all add: jit_ok_def)
  have z: "hreg 0 (rd info) \<noteq> kIdZr" using hreg_not_special(3) [OF r(1), of 0] ok(3) by simp
  have v: "rv32_val (token info) a b = Some (the (rv32_val (token info) a b))" for a b
    using vals_defined(4) [OF t] by (metis option.sel)
  have "Exec env info c = (kNoneTrap, set_xreg (rd info) (?f (xreg c (rs1 info)) (xreg c (rs2 info))) c)"
    using Exec_op(12) [OF ok(2)] v by (metis Rv32TypeExec_def write_back_Some)
  note i = interp_alu [OF this jit_rel_x0 [OF rel]]
  have sel: "run (?sel @ cs) h = run cs (setX (hreg 0 (rd info)) (?f (getX (hreg 1 (rs1 info)) h) (getX (hreg 2 (rs2 info)) h)) (h\<lparr>h_cmp := h_cmp h\<rparr>))" for h cs
    using ok z by (simp add: same_cmp flip: getW_def) (intro run_SelectReg32 [OF v t], simp_all add: jit_ok_def)
  have "\<exists>h'. run ((if 0 \<le> A64Reg (rd info) \<and> 0 \<le> A64Reg (rs1 info) \<and> 0 \<le> A64Reg (rs2 info) then ?sel
        else spill3 E (rd info) (rs1 info) (rs2 info) ?sel) @ cs) h =
      run cs h' \<and> jit_rel E s saved h' (set_xreg (rd info) (?f (xreg c (rs1 info)) (xreg c (rs2 info))) c)"
    using ok by (intro run_operands3 [where f = ?f, OF rel lay r(1) ok(3) r(2,3) sel]) (simp_all add: jit_ok_def)
  then show ?thesis using ok(3) i by (simp add: EmitReg32_spill Let_def)
qed

lemma run_EmitImm:
  assumes rel: "jit_rel E s saved h c" and lay: "jit_layout E s" and ok: "jit_ok info" "op info = kImm" "rd info \<noteq> 0"
  shows "\<exists>h'. run (EmitImm E info @ cs) h = run cs h' \<and> jit_rel E s saved h' (interp env info c)"
proof -
  let ?f = "\<lambda>a. the (imm_val (token info) a (imm info))"
  let ?sel = "SelectA64ImmInstruction (hreg 0 (rd info)) (hreg 1 (rs1 info)) (imm info) (token info)"
  from ok have t: "token_op (token info) = kImm" and r: "rd info < 32" "rs1 info < 32"
    and al: "hreg 0 (rd info) \<noteq> hreg 1 (rs1 info)" by (simp_all add: jit_ok_def)
  have z: "hreg 0 (rd info) \<noteq> kIdZr" using hreg_not_special(3) [OF r(1), of 0] ok(3) by simp
  have v: "imm_val (token info) a (imm info) = Some (?f a)" for a
    using vals_defined(2) [OF t] by (metis option.sel)
  have "Exec env info c = (kNoneTrap, set_xreg (rd info) (?f (xreg c (rs1 info))) c)"
    using Exec_op(2) [OF ok(2)] v by (metis ImmTypeExec_def write_back_Some)
  note i = interp_alu [OF this jit_rel_x0 [OF rel]]
  from run_operands2 [where f = ?f, OF rel lay r(1) ok(3) r(2) run_SelectImm [OF v t z al] al]
  show ?thesis using ok(3) i by (simp add: EmitImm_spill Let_def)
qed

lemma run_EmitImm32:
  assumes rel: "jit_rel E s saved h c" and lay: "jit_layout E s" and ok: "jit_ok info" "op info = kImm32" "rd info \<noteq> 0"
  shows "\<exists>h'. run (EmitImm32 E info @ cs) h = run cs h' \<and> jit_rel E s saved h' (interp env info c)"
proof -
  let ?f = "\<lambda>a. the (imm32_val (token info) (ucast a) (imm info))"
  let ?sel = "SelectA64Imm32Instruction (hreg 0 (rd info)) (hreg 1 (rs1 info)) (imm info) (token info)"
  from ok have t: "token_op (token info) = kImm32" and r: "rd info < 32" "rs1 info < 32"
    and al: "hreg 0 (rd info) \<noteq> hreg 1 (rs1 info)" by (simp_all add: jit_ok_def)
  have z: "hreg 0 (rd info) \<noteq> kIdZr" using hreg_not_special(3) [OF r(1), of 0] ok(3) by simp
  have v: "imm32_val (token info) a (imm info) = Some (the (imm32_val (token info) a (imm info)))" for a
    using vals_defined(3) [OF t] by (metis option.sel)
  have "Exec env info c = (kNoneTrap, set_xreg (rd info) (?f (xreg c (rs1 info))) c)"
    using Exec_op(11) [OF ok(2)] v by (metis Imm32TypeExec_def write_back_Some)
  note i = interp_alu [OF this jit_rel_x0 [OF rel]]
  have sel: "run (?sel @ cs) h = run cs (setX (hreg 0 (rd info)) (?f (getX (hreg 1 (rs1 info)) h)) (h\<lparr>h_cmp := h_cmp h\<rparr>))" for h cs
    using run_SelectImm32 [OF v t z al] by (simp add: same_cmp flip: getW_def)
  from run_operands2 [where f = ?f, OF rel lay r(1) ok(3) r(2) sel al]
  show ?thesis using ok(3) i by (simp add: EmitImm32_spill Let_def)
qed

end

text \<open>A jump writes the program counter of the processor object before its destination register.\<close>

lemma pc_cell:
  assumes "jit_layout E s"
  shows "r < 32 \<Longrightarrow> xcell E r \<noteq> cpu_addr E + kPcBias E" "a \<in> scratch s \<Longrightarrow> a \<noteq> cpu_addr E + kPcBias E"
    "i \<le> 30 \<Longrightarrow> s + 8 * of_nat i \<noteq> cpu_addr E + kPcBias E" "8 dvd cpu_addr E + kPcBias E"
  using stack_slots(1) [OF assms] assms by (auto simp: cells_def jit_layout_def)

lemma jit_rel_pc:
  assumes rel: "jit_rel E s saved h c" and lay: "jit_layout E s"
  shows "jit_rel E s saved (h\<lparr>h_mem := (h_mem h)(cpu_addr E + kPcBias E := v)\<rparr>) (c\<lparr>cpu_pc := v\<rparr>)"
proof -
  have "kPcBias E \<noteq> kInstretBias E" using lay by (simp add: jit_layout_def)
  moreover have "greg E (h\<lparr>h_mem := (h_mem h)(cpu_addr E + kPcBias E := v)\<rparr>) r = greg E h r" if "r < 32" for r
    using pc_cell(1) [OF lay that] by (simp add: greg_def getX_def)
  ultimately show ?thesis using rel pc_cell [OF lay] by (simp add: jit_rel_def same_rest_def)
qed

lemma interp_jump:
  assumes "\<not> env_unit_test env" and "xreg c 0 = 0" and "rd info \<noteq> 0"
  shows "op info = kJal \<Longrightarrow> interp env info c =
      set_xreg (rd info) (pc info + ucast (inst_size info)) (c\<lparr>cpu_pc := pc info + scast (imm info)\<rparr>)"
    and "op info = kJalr \<Longrightarrow> interp env info c =
      set_xreg (rd info) (pc info + ucast (inst_size info))
        (c\<lparr>cpu_pc := (scast (imm info) + xreg c (rs1 info)) AND 0xfffffffffffffffe\<rparr>)"
proof -
  assume "op info = kJal"
  then have "Exec env info c = (kNoneTrap, set_xreg (rd info) (pc info + ucast (inst_size info)) (c\<lparr>cpu_pc := pc info + scast (imm info)\<rparr>))"
    using assms(1) by (simp add: Exec_op JalTypeExec_def check_misalign_instr_def Let_def)
  from interp_alu [OF this] assms(2,3) show "interp env info c =
      set_xreg (rd info) (pc info + ucast (inst_size info)) (c\<lparr>cpu_pc := pc info + scast (imm info)\<rparr>)" by simp
next
  assume "op info = kJalr"
  then have "Exec env info c = (kNoneTrap, set_xreg (rd info) (pc info + ucast (inst_size info))
      (c\<lparr>cpu_pc := (scast (imm info) + xreg c (rs1 info)) AND 0xfffffffffffffffe\<rparr>))"
    using assms(1) by (simp add: Exec_op JalrTypeExec_def check_misalign_instr_def Let_def)
  from interp_alu [OF this] assms(2,3) show "interp env info c =
      set_xreg (rd info) (pc info + ucast (inst_size info))
        (c\<lparr>cpu_pc := (scast (imm info) + xreg c (rs1 info)) AND 0xfffffffffffffffe\<rparr>)" by simp
qed

context a64_host
begin

lemma run_EmitLui:
  assumes rel: "jit_rel E s saved h c" and lay: "jit_layout E s" and r: "rd info < 32" "rd info \<noteq> 0"
  shows "\<exists>h'. run (EmitLui E info @ cs) h = run cs h' \<and> jit_rel E s saved h' (set_xreg (rd info) (scast (imm info)) c)"
proof (cases "0 \<le> A64Reg (rd info)")
  case True
  have "A64Reg (rd info) \<noteq> kIdZr" using A64Reg_range(1) [OF r(1)] r(2) by simp
  with True r(2) jit_rel_setX [OF rel lay r True, of "scast (imm info)" "h_cmp h"] show ?thesis
    by (intro exI) (auto simp: EmitLui_def Let_def run_simps same_cmp)
next
  case False
  from rel have g: "gpr h 29 = cpu_addr E" "gpr h 31 = s" by (auto simp: jit_rel_def kIdSp_def)
  note ne = slot_ne [OF lay]
  have r31: "A64Reg x \<noteq> 31" if "x < 32" for x using A64Reg_range(3) [OF that] by (auto simp: const_defs)
  note eval = EmitLui_def Let_def sp_slot_def XRegToMem_def run_simps getX_def setX_def g const_defs slot_facts(2) [OF lay] xcell_aligned [OF lay]
  show ?thesis
    by (rule exI, rule conjI, insert False r, simp add: eval ne flip: xcell_def, rule jit_rel_set [OF rel lay r])
      (simp_all add: const_defs g scratch_def greg_def getX_def xcell_inj ne r31)
qed

lemma run_EmitMov:
  assumes rel: "jit_rel E s saved h c" and lay: "jit_layout E s" and r: "d < 32" "q < 32" and ne: "d \<noteq> 0" "d \<noteq> q"
  shows "\<exists>h'. run (EmitMov E d q @ cs) h = run cs h' \<and> jit_rel E s saved h' (set_xreg d (xreg c q) c)"
proof (cases "0 \<le> A64Reg d")
  case True
  have z: "A64Reg d \<noteq> kIdZr" using A64Reg_range(1) [OF r(1)] ne(1) by simp
  from rel have g: "gpr h 29 = cpu_addr E" "greg E h q = xreg c q" using r(2) by (auto simp: jit_rel_def)
  have "run (EmitMov E d q @ cs) h = run cs (setX (A64Reg d) (xreg c q) (h\<lparr>h_cmp := h_cmp h\<rparr>))"
    using True ne z g xcell_aligned [OF lay]
    by (cases "0 \<le> A64Reg q") (simp_all add: EmitMov_def Let_def run_simps XRegToMem_def greg_def same_cmp getX_def kIdZr_def kIdSp_def flip: xcell_def)
  with jit_rel_setX [OF rel lay r(1) ne(1) True] show ?thesis by blast
next
  case False
  from rel have g: "gpr h 29 = cpu_addr E" "gpr h 31 = s" "greg E h q = xreg c q" using r(2) by (auto simp: jit_rel_def kIdSp_def)
  note sl = slot_ne [OF lay]
  have r31: "A64Reg x \<noteq> 31" if "x < 32" for x using A64Reg_range(3) [OF that] by (auto simp: const_defs)
  note eval = EmitMov_def Let_def sp_slot_def XRegToMem_def run_simps getX_def setX_def g const_defs slot_facts(2) [OF lay] xcell_aligned [OF lay]
  show ?thesis
    by (cases "0 \<le> A64Reg q"; rule exI, rule conjI, insert False r ne, simp add: eval sl flip: xcell_def, rule jit_rel_set [OF rel lay r(1) ne(1)])
      (use g(3) in \<open>simp_all add: const_defs g(1,2) scratch_def greg_def getX_def xcell_inj sl r31\<close>)
qed

lemma run_EmitAuipc:
  assumes "jit_rel E s saved h c" and "jit_layout E s" and "rd info < 32" "rd info \<noteq> 0"
    and "scast (ucast (scast (imm info) + pc info) :: u32) = scast (imm info) + pc info"
  shows "\<exists>h'. run (EmitAuipc E info @ cs) h = run cs h' \<and>
    jit_rel E s saved h' (set_xreg (rd info) (pc info + scast (imm info)) c)"
  using run_EmitLui [OF assms(1,2), of "info\<lparr>imm := ucast (scast (imm info) + pc info)\<rparr>"] assms(3-5)
  by (simp add: EmitAuipc_def add.commute)

lemma run_EmitJal:
  assumes rel: "jit_rel E s saved h c" and lay: "jit_layout E s" and r: "rd info < 32" "rd info \<noteq> 0"
  shows "\<exists>h'. run (EmitJal E info @ cs) h = run cs h' \<and>
    jit_rel E s saved h' (set_xreg (rd info) (pc info + ucast (inst_size info)) (c\<lparr>cpu_pc := pc info + scast (imm info)\<rparr>))"
proof -
  from rel have g: "gpr h 29 = cpu_addr E" "gpr h 31 = s" by (auto simp: jit_rel_def kIdSp_def)
  note ne = slot_ne [OF lay]
  have pne: "s - 16 \<noteq> cpu_addr E + kPcBias E" using pc_cell(2) [OF lay] by (simp add: scratch_def)
  note d31 = A64Reg_range [OF r(1), unfolded kIdZr_def]
  have r31: "A64Reg x \<noteq> 31" if "x < 32" for x using A64Reg_range(3) [OF that] by (auto simp: const_defs)
  have inj: "A64Reg x = A64Reg (rd info) \<longleftrightarrow> x = rd info" if "x < 32" "\<not> A64Reg (rd info) < 0" for x
    using A64Reg_inj [OF that(1) r(1)] that(2) by auto
  have d: "A64Reg (rd info) \<noteq> 31" "A64Reg (rd info) \<noteq> 29" "A64Reg (rd info) \<noteq> 63"
    using d31 r(2) by auto
  note eval = EmitJal_def Let_def sp_slot_def XRegToMem_def run_simps getX_def setX_def g const_defs slot_facts(2) [OF lay]
    xcell_aligned [OF lay] pc_cell [OF lay] d
  note pc = jit_rel_pc [OF rel lay, of "pc info + scast (imm info)"]
  show ?thesis
    by (cases "A64Reg (rd info) < 0";
        (rule exI, rule conjI, insert r, simp add: eval ne flip: xcell_def, rule jit_rel_set [OF pc lay r],
         simp_all add: const_defs g d scratch_def greg_def getX_def xcell_inj ne r31 inj pne pc_cell [OF lay]))
qed

lemma run_EmitJalr:
  assumes rel: "jit_rel E s saved h c" and lay: "jit_layout E s" and r: "rd info < 32" "rd info \<noteq> 0" "rs1 info < 32"
    and al: "hreg 0 (rd info) \<noteq> hreg 1 (rs1 info)"
  shows "\<exists>h'. run (EmitJalr E info @ cs) h = run cs h' \<and>
    jit_rel E s saved h' (set_xreg (rd info) (pc info + ucast (inst_size info))
      (c\<lparr>cpu_pc := (scast (imm info) + xreg c (rs1 info)) AND 0xfffffffffffffffe\<rparr>))"
proof -
  let ?d = "rd info" and ?r1 = "rs1 info"
  from rel have g: "gpr h 29 = cpu_addr E" "gpr h 31 = s" and x: "greg E h ?r1 = xreg c ?r1"
    using r by (auto simp: jit_rel_def kIdSp_def)
  note ne = slot_ne [OF lay]
  have pne: "s - 16 \<noteq> cpu_addr E + kPcBias E" "s - 8 \<noteq> cpu_addr E + kPcBias E" using pc_cell(2) [OF lay] by (simp_all add: scratch_def)
  have r31: "A64Reg x \<noteq> 31" if "x < 32" for x using A64Reg_range(3) [OF that] by (auto simp: const_defs)
  have inj: "A64Reg x = A64Reg ?d \<longleftrightarrow> x = ?d" if "x < 32" "\<not> A64Reg ?d < 0" for x
    using A64Reg_inj [OF that(1) r(1)] that(2) by auto
  have d: "A64Reg ?d \<noteq> 31" "A64Reg ?d \<noteq> 29" "A64Reg ?d \<noteq> 63" using A64Reg_range [OF r(1)] r(2) by (auto simp: const_defs)
  note eval = EmitJalr_def Let_def sp_slot_def XRegToMem_def run_simps getX_def setX_def g const_defs slot_facts [OF lay] slot_simps
    sub_cancel xcell_aligned [OF lay] pc_cell [OF lay] d
  note pc = jit_rel_pc [OF rel lay, of "(scast (imm info) + xreg c ?r1) AND 0xfffffffffffffffe"]
  have fin: "xreg c ?r1 = (if A64Reg ?r1 < 0 then h_mem h (xcell E ?r1) else getX (A64Reg ?r1) h)"
    using x by (simp add: greg_def)
  have other: "\<not> A64Reg ?d < 0 \<Longrightarrow> ?r1 \<noteq> ?d" using al by (auto simp: hreg_def)
  show ?thesis
    by (cases "A64Reg ?r1 < 0"; cases "A64Reg ?d < 0";
        (rule exI, rule conjI, insert r al other, simp add: eval ne hreg_def r31 flip: xcell_def, rule jit_rel_set [OF pc lay r(1,2)],
         simp_all add: const_defs g d scratch_def greg_def getX_def xcell_inj ne r31 inj pne pc_cell [OF lay] fin hreg_def))
qed

end

end
