(* ===== verification/Jit_Frame.thy ===== *)
theory Jit_Frame
  imports Jit_Props
begin

text \<open>
  Whole translated blocks: the prologue, a sequence of translated instructions, the epilogue. The
  prologue saves the caller's registers and loads the guest's; the epilogue adds the number of
  instructions to the counter, writes the guest registers back and restores the caller's. Translated
  loads and stores leave the block's registers in the processor object while the memory unit runs.
\<close>

section \<open>Moving registers between host and processor object\<close>

definition strs :: "jit_env \<Rightarrow> (gp \<times> u8) list \<Rightarrow> a64 list" where
  "strs E ps = map (\<lambda>(g, r). Str X64 g (XRegToMem E r)) ps"

definition ldrs :: "jit_env \<Rightarrow> (gp \<times> u8) list \<Rightarrow> a64 list" where
  "ldrs E ps = map (\<lambda>(g, r). Ldr X64 g (XRegToMem E r)) ps"

lemma getX_mem [simp]: "getX g (h\<lparr>h_mem := m\<rparr>) = getX g h"
  by (simp add: getX_def)

context a64_host
begin

lemma run_strs:
  assumes "gpr h 29 = cpu_addr E" and "jit_layout E s" and "distinct (map snd ps)"
  shows "\<exists>m. run (strs E ps @ cs) h = run cs (h\<lparr>h_mem := m\<rparr>) \<and>
    (\<forall>p \<in> set ps. m (xcell E (snd p)) = getX (fst p) h) \<and> (\<forall>a. a \<notin> xcell E ` snd ` set ps \<longrightarrow> m a = h_mem h a)"
  using assms(1,3)
proof (induction ps arbitrary: h)
  case Nil
  then show ?case by (intro exI [of _ "h_mem h"]) (simp add: strs_def)
next
  case (Cons p ps)
  let ?h = "h\<lparr>h_mem := (h_mem h)(xcell E (snd p) := getX (fst p) h)\<rparr>"
  have "run (strs E (p # ps) @ cs) h = run (strs E ps @ cs) ?h"
    using Cons.prems(1) xcell_aligned [OF assms(2), of "snd p"]
    by (cases p) (simp add: strs_def XRegToMem_def run_simps getX_def kIdZr_def flip: xcell_def)
  moreover from Cons.IH [of ?h] Cons.prems obtain m where m: "run (strs E ps @ cs) ?h = run cs (?h\<lparr>h_mem := m\<rparr>)"
    "\<forall>q \<in> set ps. m (xcell E (snd q)) = getX (fst q) h" "\<forall>a. a \<notin> xcell E ` snd ` set ps \<longrightarrow> m a = h_mem ?h a"
    by auto
  moreover have "xcell E (snd p) \<notin> xcell E ` snd ` set ps" using Cons.prems(2) by (auto simp: xcell_inj image_iff)
  ultimately show ?case by (intro exI [of _ m]) auto
qed

lemma run_ldrs:
  assumes "gpr h 29 = cpu_addr E" and "jit_layout E s" and "distinct (map fst ps)" and "29 \<notin> fst ` set ps"
  shows "\<exists>x. run (ldrs E ps @ cs) h = run cs (h\<lparr>gpr := x\<rparr>) \<and>
    (\<forall>p \<in> set ps. fst p \<noteq> kIdZr \<longrightarrow> x (fst p) = h_mem h (xcell E (snd p))) \<and>
    (\<forall>g. g \<notin> fst ` set ps \<longrightarrow> x g = gpr h g)"
  using assms(1,3,4)
proof (induction ps arbitrary: h)
  case Nil
  then show ?case by (intro exI [of _ "gpr h"]) (simp add: ldrs_def)
next
  case (Cons p ps)
  let ?h = "setX (fst p) (h_mem h (xcell E (snd p))) h"
  have "run (ldrs E (p # ps) @ cs) h = run (ldrs E ps @ cs) ?h"
    using Cons.prems(1) xcell_aligned [OF assms(2), of "snd p"]
    by (cases p) (simp add: ldrs_def XRegToMem_def run_simps getX_def kIdZr_def flip: xcell_def)
  moreover have "gpr ?h 29 = cpu_addr E" using Cons.prems(1,3) by (auto simp: setX_def)
  moreover have "h_mem ?h = h_mem h" by (simp add: setX_def)
  moreover from calculation(2) Cons.IH [of ?h] Cons.prems obtain x where x: "run (ldrs E ps @ cs) ?h = run cs (?h\<lparr>gpr := x\<rparr>)"
    "\<forall>q \<in> set ps. fst q \<noteq> kIdZr \<longrightarrow> x (fst q) = h_mem ?h (xcell E (snd q))" "\<forall>g. g \<notin> fst ` set ps \<longrightarrow> x g = gpr ?h g"
    by auto
  moreover have "?h\<lparr>gpr := x\<rparr> = h\<lparr>gpr := x\<rparr>" by (simp add: setX_def)
  moreover have "x (fst p) = (if fst p = kIdZr then gpr h (fst p) else h_mem h (xcell E (snd p)))"
    using x(3) Cons.prems(2) by (auto simp: setX_def)
  ultimately show ?case by (intro exI [of _ x]) (auto simp: setX_def)
qed

end

section \<open>The frame\<close>

definition frame_stps :: "nat \<Rightarrow> a64 list" where
  "frame_stps n = map (\<lambda>i. Stp (int (2 * i)) (int (2 * i + 1)) (sp_slot (8 * of_nat (2 * i)))) [0..<n]"

definition frame_ldps :: "nat \<Rightarrow> a64 list" where
  "frame_ldps n = map (\<lambda>i. Ldp (int (2 * i)) (int (2 * i + 1)) (sp_slot (8 * of_nat (2 * i)))) [0..<n]"

lemma frame_slot_inj:
  assumes "i < 100" and "j < 100" and "(s :: u64) + 8 * of_nat i = s + 8 * of_nat j"
  shows "i = j"
proof -
  have "unat (8 * of_nat i :: u64) = unat (8 * of_nat j :: u64)" using assms(3) by simp
  moreover have "unat (8 * of_nat k :: u64) = 8 * k" if "k < 100" for k :: nat
  proof -
    have "unat (of_nat (8 * k) :: u64) = 8 * k" using that by (simp only: unsigned_of_nat take_bit_eq_mod) simp
    then show ?thesis by simp
  qed
  ultimately show ?thesis using assms(1,2) by simp
qed

lemma frame_slot_aligned: "8 dvd (s :: u64) \<Longrightarrow> 8 dvd s + 8 * of_nat i"
  by simp

context a64_host
begin

lemma run_frame_stps:
  assumes "8 dvd gpr h kIdSp" and "n \<le> 15"
  shows "\<exists>m. run (frame_stps n @ cs) h = run cs (h\<lparr>h_mem := m\<rparr>) \<and>
    (\<forall>i < 2 * n. m (gpr h kIdSp + 8 * of_nat i) = gpr h (int i)) \<and>
    (\<forall>a. (\<forall>i < 2 * n. a \<noteq> gpr h kIdSp + 8 * of_nat i) \<longrightarrow> m a = h_mem h a)"
  using assms(2)
proof (induction n arbitrary: cs)
  case 0
  then show ?case by (intro exI [of _ "h_mem h"]) (simp add: frame_stps_def)
next
  case (Suc n)
  let ?s = "gpr h kIdSp" and ?c = "Stp (int (2 * n)) (int (2 * n + 1)) (sp_slot (8 * of_nat (2 * n)))"
  from Suc.IH [of "?c # cs"] Suc.prems obtain m where m: "run (frame_stps n @ ?c # cs) h = run (?c # cs) (h\<lparr>h_mem := m\<rparr>)"
    "\<forall>i < 2 * n. m (?s + 8 * of_nat i) = gpr h (int i)" "\<forall>a. (\<forall>i < 2 * n. a \<noteq> ?s + 8 * of_nat i) \<longrightarrow> m a = h_mem h a"
    by auto
  let ?m = "m(?s + 8 * of_nat (2 * n) := gpr h (int (2 * n)), ?s + 8 * of_nat (2 * n + 1) := gpr h (int (2 * n + 1)))"
  have "run (frame_stps (Suc n) @ cs) h = run (?c # cs) (h\<lparr>h_mem := m\<rparr>)" using m(1) by (simp add: frame_stps_def)
  also have "\<dots> = run cs (h\<lparr>h_mem := ?m\<rparr>)"
    using frame_slot_aligned [OF assms(1), of "2 * n"] Suc.prems
    by (simp add: run_simps sp_slot_def getX_def const_defs ac_simps)
  finally have r: "run (frame_stps (Suc n) @ cs) h = run cs (h\<lparr>h_mem := ?m\<rparr>)" .
  have "?m (?s + 8 * of_nat i) = gpr h (int i)" if "i < 2 * Suc n" for i
  proof -
    have "i < 2 * n \<or> i = 2 * n \<or> i = 2 * n + 1" using that by auto
    moreover have ne: "?s + 8 * of_nat i \<noteq> ?s + 8 * of_nat j" if "i \<noteq> j" "j < 100" for j
      using frame_slot_inj [of i j ?s] that \<open>i < 2 * Suc n\<close> Suc.prems by auto
    ultimately show ?thesis using m(2) Suc.prems ne [of "2 * n"] ne [of "2 * n + 1"]
      unfolding fun_upd_apply by (elim disjE) simp_all
  qed
  moreover have "?m a = h_mem h a" if "\<forall>i < 2 * Suc n. a \<noteq> ?s + 8 * of_nat i" for a
    using that [rule_format, of "2 * n"] that [rule_format, of "2 * n + 1"] that m(3) unfolding fun_upd_apply by auto
  ultimately show ?case using r by blast
qed

lemma run_frame_ldps:
  assumes "8 dvd gpr h kIdSp" and "n \<le> 15"
  shows "\<exists>x. run (frame_ldps n @ cs) h = run cs (h\<lparr>gpr := x\<rparr>) \<and>
    (\<forall>i < 2 * n. x (int i) = h_mem h (gpr h kIdSp + 8 * of_nat i)) \<and>
    (\<forall>g. int (2 * n) \<le> g \<longrightarrow> x g = gpr h g)"
  using assms(2)
proof (induction n arbitrary: cs)
  case 0
  then show ?case by (intro exI [of _ "gpr h"]) (simp add: frame_ldps_def)
next
  case (Suc n)
  let ?s = "gpr h kIdSp" and ?c = "Ldp (int (2 * n)) (int (2 * n + 1)) (sp_slot (8 * of_nat (2 * n)))"
  from Suc.IH [of "?c # cs"] Suc.prems obtain x where x: "run (frame_ldps n @ ?c # cs) h = run (?c # cs) (h\<lparr>gpr := x\<rparr>)"
    "\<forall>i < 2 * n. x (int i) = h_mem h (?s + 8 * of_nat i)" "\<forall>g. int (2 * n) \<le> g \<longrightarrow> x g = gpr h g"
    by auto
  let ?x = "x(int (2 * n) := h_mem h (?s + 8 * of_nat (2 * n)), int (2 * n + 1) := h_mem h (?s + 8 * of_nat (2 * n + 1)))"
  have sp: "x kIdSp = ?s" using x(3) Suc.prems by (simp add: kIdSp_def)
  have "run (frame_ldps (Suc n) @ cs) h = run (?c # cs) (h\<lparr>gpr := x\<rparr>)" using x(1) by (simp add: frame_ldps_def)
  also have "\<dots> = run cs (h\<lparr>gpr := ?x\<rparr>)"
    using frame_slot_aligned [OF assms(1), of "2 * n"] Suc.prems sp
    by (simp add: run_simps sp_slot_def getX_def setX_def const_defs ac_simps)
  finally have r: "run (frame_ldps (Suc n) @ cs) h = run cs (h\<lparr>gpr := ?x\<rparr>)" .
  have "?x (int i) = h_mem h (?s + 8 * of_nat i)" if "i < 2 * Suc n" for i
  proof -
    have "i < 2 * n \<or> i = 2 * n \<or> i = 2 * n + 1" using that by auto
    then show ?thesis using x(2) unfolding fun_upd_apply by (elim disjE) simp_all
  qed
  moreover have "?x g = gpr h g" if "int (2 * Suc n) \<le> g" for g
    using that x(3) unfolding fun_upd_apply by auto
  ultimately show ?case using r by blast
qed

end

section \<open>Prologue\<close>

text \<open>The processor object holds a guest processor.\<close>

definition cpu_obj :: "jit_env \<Rightarrow> host \<Rightarrow> cpu \<Rightarrow> bool" where
  "cpu_obj E h c \<longleftrightarrow>
     (\<forall>r < 32. h_mem h (xcell E r) = xreg c r) \<and> h_mem h (cpu_addr E + kPcBias E) = cpu_pc c \<and>
     h_mem h (cpu_addr E + kInstretBias E) = cpu_instret c \<and> same_rest (h_cpu h) c"

definition mapped_regs :: "(gp \<times> u8) list" where
  "mapped_regs = map (\<lambda>i. (kRv64ToA64Map ! i, of_nat i)) kMapped"

lemma mapped_distinct: "distinct (map fst mapped_regs)" "distinct (map snd mapped_regs)"
  by code_simp+

lemma mapped_set: "p \<in> set mapped_regs \<longleftrightarrow> snd p < 32 \<and> 0 \<le> A64Reg (snd p) \<and> fst p = A64Reg (snd p)"
proof -
  have "(\<exists>i < 32. \<not> kRv64ToA64Map ! i < 0 \<and> p = (kRv64ToA64Map ! i, of_nat i)) \<longleftrightarrow>
      snd p < 32 \<and> 0 \<le> A64Reg (snd p) \<and> fst p = A64Reg (snd p)" (is "?l = ?r")
  proof
    assume ?l
    then obtain i where i: "i < 32" "\<not> kRv64ToA64Map ! i < 0" "p = (kRv64ToA64Map ! i, of_nat i)" by blast
    have "unat (of_nat i :: u8) = i" using i(1) by (simp add: unsigned_of_nat take_bit_eq_mod)
    with i show ?r by (simp add: A64Reg_def word_less_nat_alt)
  next
    assume ?r
    then show ?l by (intro exI [of _ "unat (snd p)"]) (auto simp: A64Reg_def unat_reg prod_eq_iff)
  qed
  then show ?thesis by (auto simp: mapped_regs_def kMapped_def)
qed

lemma mapped_regs_ne: "p \<in> set mapped_regs \<Longrightarrow> fst p \<noteq> 29 \<and> fst p \<noteq> kIdSp"
  using A64Reg_range(3) [of "snd p"] by (auto simp: mapped_set const_defs)

definition prolog :: "jit_env \<Rightarrow> a64 list" where
  "prolog E = SubI X64 kIdSp kIdSp 256 # frame_stps 15 @ Str X64 30 (sp_slot 240) # MovI X64 29 (cpu_addr E) # ldrs E mapped_regs"

lemma EmitProlog_calls: "jit_calls (EmitProlog E j) = jit_calls j @ prolog E"
  by (simp add: EmitProlog_def prolog_def frame_stps_def ldrs_def mapped_regs_def comp_def)

context a64_host
begin

lemma run_prolog:
  assumes obj: "cpu_obj E h c" "xreg c 0 = 0" and lay: "jit_layout E (gpr h kIdSp - 256)"
  shows "\<exists>h'. run (prolog E @ cs) h = run cs h' \<and> jit_rel E (gpr h kIdSp - 256) (\<lambda>i. gpr h (int i)) h' c"
proof -
  let ?s = "gpr h kIdSp - 256"
  let ?tl = "Str X64 30 (sp_slot 240) # MovI X64 29 (cpu_addr E) # ldrs E mapped_regs @ cs"
  let ?h = "h\<lparr>gpr := (gpr h)(kIdSp := ?s)\<rparr>"
  have al: "8 dvd ?s" using lay by (simp add: jit_layout_def)
  have start: "run (prolog E @ cs) h = run (frame_stps 15 @ ?tl) ?h"
    by (simp add: prolog_def run_simps getX_def setX_def const_defs)
  from run_frame_stps [of ?h 15 ?tl] al obtain m where m: "run (frame_stps 15 @ ?tl) ?h = run ?tl (?h\<lparr>h_mem := m\<rparr>)"
    "\<forall>i < 30. m (?s + 8 * of_nat i) = gpr ?h (int i)" "\<forall>a. (\<forall>i < 30. a \<noteq> ?s + 8 * of_nat i) \<longrightarrow> m a = h_mem h a" by auto
  define M where "M = m(?s + 8 * of_nat 30 := gpr h 30)"
  let ?h2 = "h\<lparr>h_mem := M, gpr := (gpr h)(kIdSp := ?s, 29 := cpu_addr E)\<rparr>"
  have save: "run ?tl (?h\<lparr>h_mem := m\<rparr>) = run (ldrs E mapped_regs @ cs) ?h2"
    using frame_slot_aligned [OF al, of 30] by (simp add: run_simps sp_slot_def getX_def setX_def const_defs M_def)
  from run_ldrs [of ?h2 ?s mapped_regs cs] lay mapped_distinct(1) mapped_regs_ne obtain x
    where x: "run (ldrs E mapped_regs @ cs) ?h2 = run cs (?h2\<lparr>gpr := x\<rparr>)"
    "\<forall>p \<in> set mapped_regs. fst p \<noteq> kIdZr \<longrightarrow> x (fst p) = M (xcell E (snd p))" "\<forall>g. g \<notin> fst ` set mapped_regs \<longrightarrow> x g = gpr ?h2 g"
    by fastforce
  have cell: "M a = h_mem h a" if "a \<in> cells E" for a
    using stack_slots(1) [OF lay, of a] that m(3) unfolding M_def fun_upd_apply by (metis less_imp_le_nat order_refl)
  have fr: "M (?s + 8 * of_nat i) = gpr h (int i)" if "i \<le> 30" for i
    using m(2) that frame_slot_inj [of i 30 ?s] unfolding M_def fun_upd_apply by (cases "i = 30") (auto simp: kIdSp_def)
  have "greg E (?h2\<lparr>gpr := x\<rparr>) r = xreg c r" if "r < 32" for r
  proof (cases "A64Reg r < 0 \<or> A64Reg r = kIdZr")
    case True
    then show ?thesis using obj that A64Reg_range(1) [OF that] cell [of "xcell E r"]
      by (auto simp: greg_def getX_def cpu_obj_def cells_def kIdZr_def)
  next
    case False
    with that have "(A64Reg r, r) \<in> set mapped_regs" by (simp add: mapped_set)
    with x(2) False have "x (A64Reg r) = M (xcell E r)" by fastforce
    moreover have "M (xcell E r) = h_mem h (xcell E r)" using that by (intro cell) (simp add: cells_def)
    ultimately show ?thesis using False that obj(1) by (simp add: greg_def getX_def cpu_obj_def)
  qed
  moreover have "x 29 = cpu_addr E" "x kIdSp = ?s" using x(3) mapped_regs_ne by (fastforce simp: kIdSp_def)+
  ultimately have "jit_rel E ?s (\<lambda>i. gpr h (int i)) (?h2\<lparr>gpr := x\<rparr>) c"
    using obj(1) cell fr by (simp add: jit_rel_def cpu_obj_def cells_def)
  moreover have "run (prolog E @ cs) h = run cs (?h2\<lparr>gpr := x\<rparr>)" by (simp only: start m(1) save x(1))
  ultimately show ?thesis by blast
qed

end

section \<open>Epilogue\<close>

definition commit :: "jit_env \<Rightarrow> u64 \<Rightarrow> a64 list" where
  "commit E n =
     [SubI X64 kIdSp kIdSp 16, Stp 0 1 (sp_slot 0), MovI X64 0 n, Ldr X64 1 (Mem 29 (kInstretBias E)), Op3 X64 Add 0 0 1,
      Str X64 0 (Mem 29 (kInstretBias E)), Ldp 0 1 (sp_slot 0), AddI kIdSp kIdSp 16]"

definition epilog :: "jit_env \<Rightarrow> u64 \<Rightarrow> a64 list" where
  "epilog E n = Bind epilog_tag # commit E n @ strs E mapped_regs @ frame_ldps 15 @
     [Ldr X64 30 (sp_slot 240), AddI kIdSp kIdSp 256, Ret 30]"

lemma EmitEpilog_calls: "jit_calls (EmitEpilog E j) = jit_calls j @ epilog E (delta_instret j)"
  by (simp add: EmitEpilog_def CommitInstret_def epilog_def commit_def frame_ldps_def strs_def mapped_regs_def comp_def)

lemma instret_cell:
  assumes "jit_layout E s"
  shows "r < 32 \<Longrightarrow> xcell E r \<noteq> cpu_addr E + kInstretBias E" "a \<in> scratch s \<Longrightarrow> a \<noteq> cpu_addr E + kInstretBias E"
    "i \<le> 30 \<Longrightarrow> s + 8 * of_nat i \<noteq> cpu_addr E + kInstretBias E" "8 dvd cpu_addr E + kInstretBias E"
    "cpu_addr E + kPcBias E \<noteq> cpu_addr E + kInstretBias E"
  using stack_slots(1) [OF assms] assms by (auto simp: cells_def jit_layout_def)

lemma jit_rel_instret:
  assumes rel: "jit_rel E s saved h c" and lay: "jit_layout E s" and g: "gpr h' = gpr h" "h_cpu h' = h_cpu h"
    and m: "h_mem h' (cpu_addr E + kInstretBias E) = v"
      "\<And>a. a \<notin> scratch s \<Longrightarrow> a \<noteq> cpu_addr E + kInstretBias E \<Longrightarrow> h_mem h' a = h_mem h a"
  shows "jit_rel E s saved h' (c\<lparr>cpu_instret := v\<rparr>)"
proof -
  have "h_mem h' a = h_mem h a" if "a \<in> cells E" "a \<noteq> cpu_addr E + kInstretBias E" for a
    using m(2) that stack_slots(1) [OF lay, of a] by blast
  then have "\<forall>r < 32. h_mem h' (xcell E r) = h_mem h (xcell E r)" "h_mem h' (cpu_addr E + kPcBias E) = h_mem h (cpu_addr E + kPcBias E)"
    using instret_cell [OF lay] by (auto simp: cells_def)
  moreover have "h_mem h' (s + 8 * of_nat i) = h_mem h (s + 8 * of_nat i)" if "i \<le> 30" for i
    using m(2) frame_not_scratch [OF that] instret_cell(3) [OF lay that] by blast
  ultimately show ?thesis using rel g m(1)
    by (auto simp: jit_rel_def same_rest_def greg_def getX_def)
qed

context a64_host
begin

lemma run_commit:
  assumes rel: "jit_rel E s saved h c" and lay: "jit_layout E s"
  shows "\<exists>h'. run (commit E n @ cs) h = run cs h' \<and> jit_rel E s saved h' (c\<lparr>cpu_instret := cpu_instret c + n\<rparr>)"
proof -
  from rel have g: "gpr h 29 = cpu_addr E" "gpr h 31 = s" "h_mem h (cpu_addr E + kInstretBias E) = cpu_instret c"
    by (auto simp: jit_rel_def kIdSp_def)
  have ne: "s - 16 \<noteq> cpu_addr E + kInstretBias E" "s - 8 \<noteq> cpu_addr E + kInstretBias E"
    using instret_cell(2) [OF lay] by (simp_all add: scratch_def)
  note eval = commit_def sp_slot_def run_simps getX_def setX_def const_defs g slot_facts(1-6) [OF lay] slot_simps sub_cancel instret_cell(4) [OF lay] ne ne [symmetric]
  show ?thesis
    by (rule exI, rule conjI, simp add: eval, rule jit_rel_instret [OF rel lay])
      (simp_all add: g ne scratch_def add.commute fun_eq_iff)
qed

lemma run_epilog:
  assumes rel: "jit_rel E s saved h c" and lay: "jit_layout E s"
  shows "\<exists>h'. run (epilog E n) h = h' \<and> cpu_obj E h' (c\<lparr>cpu_instret := cpu_instret c + n\<rparr>) \<and>
    gpr h' kIdSp = s + 256 \<and> (\<forall>i \<le> 30. gpr h' (int i) = saved i)"
proof -
  let ?fin = "[Ldr X64 30 (sp_slot 240), AddI kIdSp kIdSp 256, Ret 30]"
  let ?c = "c\<lparr>cpu_instret := cpu_instret c + n\<rparr>"
  have al: "8 dvd s" using lay by (simp add: jit_layout_def)
  from run_commit [OF rel lay] obtain h1
    where h1: "run (epilog E n) h = run (strs E mapped_regs @ frame_ldps 15 @ ?fin) h1" "jit_rel E s saved h1 ?c"
    by (auto simp: epilog_def run_Bind)
  then have g: "gpr h1 29 = cpu_addr E" "gpr h1 kIdSp = s" by (simp_all add: jit_rel_def)
  from run_strs [OF g(1) lay mapped_distinct(2), of "frame_ldps 15 @ ?fin"] obtain m
    where m: "run (strs E mapped_regs @ frame_ldps 15 @ ?fin) h1 = run (frame_ldps 15 @ ?fin) (h1\<lparr>h_mem := m\<rparr>)"
    "\<forall>p \<in> set mapped_regs. m (xcell E (snd p)) = getX (fst p) h1" "\<forall>a. a \<notin> xcell E ` snd ` set mapped_regs \<longrightarrow> m a = h_mem h1 a"
    by auto
  from run_frame_ldps [of "h1\<lparr>h_mem := m\<rparr>" 15 ?fin] al g(2) obtain x
    where x: "run (frame_ldps 15 @ ?fin) (h1\<lparr>h_mem := m\<rparr>) = run ?fin (h1\<lparr>h_mem := m, gpr := x\<rparr>)"
    "\<forall>i < 30. x (int i) = m (s + 8 * of_nat i)" "\<forall>i. 30 \<le> i \<longrightarrow> x i = gpr h1 i" by auto
  let ?h = "h1\<lparr>h_mem := m, gpr := x(30 := m (s + 8 * of_nat 30), kIdSp := s + 256)\<rparr>"
  have sp: "x 31 = s" using x(3) g(2) by (simp add: kIdSp_def)
  have "run ?fin (h1\<lparr>h_mem := m, gpr := x\<rparr>) = ?h"
    using frame_slot_aligned [OF al, of 30] by (simp add: run_simps sp_slot_def getX_def setX_def const_defs sp)
  with h1(1) m(1) x(1) have run: "run (epilog E n) h = ?h" by simp
  have gr: "greg E h1 r = xreg c r" if "r < 32" for r using h1(2) that by (simp add: jit_rel_def)
  have cell: "m (xcell E r) = xreg c r" if "r < 32" for r
  proof (cases "A64Reg r < 0")
    case True
    then have "xcell E r \<notin> xcell E ` snd ` set mapped_regs" by (auto simp: xcell_inj mapped_set)
    with m(3) gr [OF that] True show ?thesis by (simp add: greg_def)
  next
    case False
    with that have "(A64Reg r, r) \<in> set mapped_regs" by (simp add: mapped_set)
    with m(2) gr [OF that] False show ?thesis by (fastforce simp: greg_def)
  qed
  have rest: "m a = h_mem h1 a" if "a \<notin> xcell E ` {r. r < 32}" for a
    using m(3) that by (force simp: mapped_set)
  have fr: "m (s + 8 * of_nat i) = saved i" if "i \<le> 30" for i
    using rest [of "s + 8 * of_nat i"] stack_slots(1) [OF lay, of "s + 8 * of_nat i"] that h1(2) by (auto simp: cells_def jit_rel_def)
  have "m (cpu_addr E + kPcBias E) = cpu_pc c" "m (cpu_addr E + kInstretBias E) = cpu_instret c + n"
    using rest [of "cpu_addr E + kPcBias E"] rest [of "cpu_addr E + kInstretBias E"] h1(2)
      pc_cell(1) [OF lay] instret_cell(1) [OF lay] by (auto simp: jit_rel_def dest: sym)
  with cell h1(2) have "cpu_obj E ?h ?c" by (simp add: cpu_obj_def jit_rel_def)
  moreover have "gpr ?h (int i) = saved i" if "i \<le> 30" for i
    using that x(2) fr [OF that] by (cases "i = 30") (auto simp: kIdSp_def)
  ultimately show ?thesis using run by auto
qed

end

end
