(* ===== verification/Jit_Mem.thy ===== *)
theory Jit_Mem
  imports Jit_Frame
begin

text \<open>
  Translated loads and stores that do not fault. The code saves the registers a call may destroy to the
  processor object, calls the memory unit, keeps the result and the trap on the stack, restores the
  registers and writes the destination. It does what the interpreter's step does.
\<close>

section \<open>The registers a call may destroy\<close>

definition vol_regs :: "(gp \<times> u8) list" where
  "vol_regs = map (\<lambda>i. (int i, of_int (kA64ToRv64Map ! i))) [0..<19]"

lemma vol_calls: "SaveVolatileA64Reg E = strs E vol_regs" "RestoreVolatileA64Reg E = ldrs E vol_regs"
  by (simp_all add: SaveVolatileA64Reg_def RestoreVolatileA64Reg_def strs_def ldrs_def vol_regs_def comp_def)

lemma vol_distinct: "distinct (map fst vol_regs)" "distinct (map snd vol_regs)"
  by code_simp+

lemma vol_table:
  "list_all (\<lambda>p. 0 \<le> fst p \<and> fst p \<le> 18 \<and> snd p < 32 \<and> A64Reg (snd p) = fst p) vol_regs"
  "list_all (\<lambda>i. 0 \<le> kRv64ToA64Map ! i \<and> kRv64ToA64Map ! i \<le> 18 \<longrightarrow> (kRv64ToA64Map ! i, of_nat i) \<in> set vol_regs) [0..<32]"
  by code_simp+

lemma vol_set: "p \<in> set vol_regs \<longleftrightarrow> snd p < 32 \<and> fst p = A64Reg (snd p) \<and> 0 \<le> fst p \<and> fst p \<le> 18"
proof
  assume "p \<in> set vol_regs"
  with vol_table(1) show "snd p < 32 \<and> fst p = A64Reg (snd p) \<and> 0 \<le> fst p \<and> fst p \<le> 18" by (auto simp: list_all_iff)
next
  assume p: "snd p < 32 \<and> fst p = A64Reg (snd p) \<and> 0 \<le> fst p \<and> fst p \<le> 18"
  then have "unat (snd p) \<in> set [0..<32]" using unat_reg by simp
  with vol_table(2) p have "(kRv64ToA64Map ! unat (snd p), of_nat (unat (snd p))) \<in> set vol_regs"
    unfolding list_all_iff A64Reg_def by auto
  with p show "p \<in> set vol_regs" by (cases p) (simp add: A64Reg_def)
qed

text \<open>Inside the call: the guest registers a call may destroy are in the processor object, the others
  are where they were.\<close>

definition kept :: "jit_env \<Rightarrow> u64 \<Rightarrow> (nat \<Rightarrow> u64) \<Rightarrow> host \<Rightarrow> cpu \<Rightarrow> bool" where
  "kept E s saved h c \<longleftrightarrow>
     gpr h 29 = cpu_addr E \<and> xreg c 0 = 0 \<and>
     (\<forall>r < 32. A64Reg r \<le> 18 \<longrightarrow> h_mem h (xcell E r) = xreg c r) \<and>
     (\<forall>r < 32. 19 \<le> A64Reg r \<and> A64Reg r \<le> 28 \<longrightarrow> gpr h (A64Reg r) = xreg c r) \<and>
     (\<forall>i \<le> 30. h_mem h (s + 8 * of_nat i) = saved i) \<and>
     h_mem h (cpu_addr E + kPcBias E) = cpu_pc c \<and> h_mem h (cpu_addr E + kInstretBias E) = cpu_instret c"

context a64_host
begin

lemma run_save:
  assumes rel: "jit_rel E s saved h c" and lay: "jit_layout E s"
  shows "\<exists>m. run (SaveVolatileA64Reg E @ cs) h = run cs (h\<lparr>h_mem := m\<rparr>) \<and> kept E s saved (h\<lparr>h_mem := m\<rparr>) c \<and>
    jit_rel E s saved (h\<lparr>h_mem := m\<rparr>) c"
proof -
  from rel have g: "gpr h 29 = cpu_addr E" and gr: "\<And>r. r < 32 \<Longrightarrow> greg E h r = xreg c r" by (auto simp: jit_rel_def)
  from run_strs [OF g lay vol_distinct(2), of cs] obtain m where m: "run (strs E vol_regs @ cs) h = run cs (h\<lparr>h_mem := m\<rparr>)"
    "\<forall>p \<in> set vol_regs. m (xcell E (snd p)) = getX (fst p) h" "\<forall>a. a \<notin> xcell E ` snd ` set vol_regs \<longrightarrow> m a = h_mem h a"
    by auto
  have vol: "m (xcell E r) = xreg c r" if "r < 32" "A64Reg r \<le> 18" for r
  proof (cases "A64Reg r < 0")
    case True
    then have "xcell E r \<notin> xcell E ` snd ` set vol_regs" by (auto simp: xcell_inj vol_set)
    with m(3) gr [OF that(1)] True show ?thesis by (simp add: greg_def)
  next
    case False
    with that have "(A64Reg r, r) \<in> set vol_regs" by (simp add: vol_set)
    with m(2) gr [OF that(1)] False show ?thesis by (fastforce simp: greg_def)
  qed
  have rest: "m a = h_mem h a" if "a \<notin> xcell E ` {r. r < 32}" for a
    using m(3) that by (force simp: vol_set)
  have st: "m (s + 8 * of_nat i) = saved i" if "i \<le> 30" for i
    using rest [of "s + 8 * of_nat i"] stack_slots(1) [OF lay, of "s + 8 * of_nat i"] that rel by (auto simp: cells_def jit_rel_def)
  have pc: "m (cpu_addr E + kPcBias E) = cpu_pc c" "m (cpu_addr E + kInstretBias E) = cpu_instret c"
    using rest [of "cpu_addr E + kPcBias E"] rest [of "cpu_addr E + kInstretBias E"] rel
      pc_cell(1) [OF lay] instret_cell(1) [OF lay] by (auto simp: jit_rel_def dest: sym)
  have "gpr h (A64Reg r) = xreg c r" if "r < 32" "19 \<le> A64Reg r" "A64Reg r \<le> 28" for r
    using gr [OF that(1)] that(2,3) by (simp add: greg_def getX_def kIdZr_def)
  with g vol st pc jit_rel_x0 [OF rel] have "kept E s saved (h\<lparr>h_mem := m\<rparr>) c" by (simp add: kept_def)
  moreover have "greg E (h\<lparr>h_mem := m\<rparr>) r = xreg c r" if "r < 32" for r
    using gr [OF that] vol [OF that] by (auto simp: greg_def split: if_splits)
  with rel st pc have "jit_rel E s saved (h\<lparr>h_mem := m\<rparr>) c" by (simp add: jit_rel_def)
  ultimately show ?thesis using m(1) by (auto simp: vol_calls)
qed

lemma run_restore:
  assumes k: "kept E s saved h c" and lay: "jit_layout E s"
  shows "\<exists>x. run (RestoreVolatileA64Reg E @ cs) h = run cs (h\<lparr>gpr := x\<rparr>) \<and>
    (\<forall>r < 32. greg E (h\<lparr>gpr := x\<rparr>) r = xreg c r) \<and> (\<forall>g > 18. x g = gpr h g)"
proof -
  from k have g: "gpr h 29 = cpu_addr E" by (simp add: kept_def)
  have "29 \<notin> fst ` set vol_regs" by (auto simp: vol_set)
  from run_ldrs [OF g lay vol_distinct(1) this, of cs] obtain x where x: "run (ldrs E vol_regs @ cs) h = run cs (h\<lparr>gpr := x\<rparr>)"
    "\<forall>p \<in> set vol_regs. fst p \<noteq> kIdZr \<longrightarrow> x (fst p) = h_mem h (xcell E (snd p))" "\<forall>g. g \<notin> fst ` set vol_regs \<longrightarrow> x g = gpr h g"
    by auto
  have hi: "x g = gpr h g" if "18 < g" for g
  proof -
    have "g \<notin> fst ` set vol_regs" using that by (auto simp: vol_set)
    with x(3) show ?thesis by blast
  qed
  have "greg E (h\<lparr>gpr := x\<rparr>) r = xreg c r" if r32: "r < 32" for r
  proof -
    consider "A64Reg r < 0" | "A64Reg r = kIdZr" "r = 0" | "0 \<le> A64Reg r" "A64Reg r \<le> 18" | "19 \<le> A64Reg r" "A64Reg r \<le> 28"
      using A64Reg_range [OF r32] by fastforce
    then show ?thesis
    proof cases
      case 3
      with r32 have "(A64Reg r, r) \<in> set vol_regs" by (simp add: vol_set)
      with 3 x(2) have "x (A64Reg r) = h_mem h (xcell E r)" by (fastforce simp: kIdZr_def)
      with 3 k r32 show ?thesis by (simp add: greg_def getX_def kept_def kIdZr_def)
    next
      case 4
      with hi [of "A64Reg r"] k r32 show ?thesis by (simp add: greg_def getX_def kept_def kIdZr_def)
    qed (use k r32 in \<open>simp_all add: greg_def getX_def kept_def kIdZr_def\<close>)
  qed
  with x(1) hi show ?thesis by (auto simp: vol_calls)
qed

end

section \<open>Around the call\<close>

text \<open>What a call needs besides: the stack does not wrap around, and the trap the called function writes
  is neither on it nor in the members of the processor object that the code uses.\<close>

definition call_layout :: "jit_env \<Rightarrow> u64 \<Rightarrow> bool" where
  "call_layout E s \<longleftrightarrow>
     unat (s - 48) + 296 \<le> 2 ^ 64 \<and> 8 dvd exit_trap_addr E \<and> exit_trap_addr E \<notin> cells E \<and> exit_trap_addr E + 8 \<notin> cells E \<and>
     (\<forall>k < 37. s - 48 + 8 * of_nat k \<noteq> exit_trap_addr E \<and> s - 48 + 8 * of_nat k \<noteq> exit_trap_addr E + 8) \<and>
     MmuStore_addr E \<noteq> MmuLoad_addr E"

lemma stack_order:
  assumes "call_layout E s" and "j \<le> k" and "k < 37"
  shows "s - 48 + 8 * of_nat j \<le> s - 48 + 8 * of_nat k"
proof -
  have "unat (s - 48 + 8 * of_nat i) = unat (s - 48) + 8 * i" if "i < 37" for i :: nat
  proof -
    have i: "unat (of_nat (8 * i) :: u64) = 8 * i" using that by (simp only: unsigned_of_nat take_bit_eq_mod) simp
    then have "unat (s - 48) + unat (of_nat (8 * i) :: u64) < 2 ^ 64" using assms(1) that by (simp add: call_layout_def)
    then have "unat (s - 48 + of_nat (8 * i)) = unat (s - 48) + unat (of_nat (8 * i) :: u64)"
      by (simp add: unat_word_ariths)
    with i show ?thesis by simp
  qed
  with assms(2,3) show ?thesis by (simp add: word_le_nat_alt)
qed

lemma callee_slot:
  assumes "call_layout E s" and "callee_keeps E h h'" and "gpr h kIdSp = s - 48 + 8 * of_nat j" and "j \<le> k" and "k < 37"
  shows "h_mem h' (s - 48 + 8 * of_nat k) = h_mem h (s - 48 + 8 * of_nat k)"
  using assms(2) stack_order [OF assms(1,4,5)] assms(1,3,5) by (auto simp: callee_keeps_def call_layout_def)

lemma callee_kept:
  assumes cl: "call_layout E s" and ck: "callee_keeps E h h'" and sp: "gpr h kIdSp = s - 48 + 8 * of_nat j" "j \<le> 6"
    and k: "kept E s saved h c"
  shows "kept E s saved h' c"
proof -
  have cell: "h_mem h' a = h_mem h a" if "a \<in> cells E" for a
  proof -
    have "a \<noteq> exit_trap_addr E" "a \<noteq> exit_trap_addr E + 8" using cl that by (auto simp: call_layout_def)
    with ck that show ?thesis unfolding callee_keeps_def cells_def xcell_def by blast
  qed
  have "h_mem h' (s + 8 * of_nat i) = h_mem h (s + 8 * of_nat i)" if "i \<le> 30" for i
    using callee_slot [OF cl ck sp(1), of "i + 6"] sp(2) that by (simp add: algebra_simps)
  moreover have "gpr h' g = gpr h g" if "19 \<le> g" "g \<le> 29" for g using ck that by (simp add: callee_keeps_def)
  ultimately show ?thesis using k cell by (simp add: kept_def cells_def)
qed

lemma kept_scratch:
  assumes k: "kept E s saved h c" and lay: "jit_layout E s"
    and g: "\<And>g. 19 \<le> g \<Longrightarrow> g \<le> 29 \<Longrightarrow> gpr h' g = gpr h g" and m: "\<And>a. a \<notin> scratch s \<Longrightarrow> h_mem h' a = h_mem h a"
  shows "kept E s saved h' c"
proof -
  have "h_mem h' a = h_mem h a" if "a \<in> cells E" for a using stack_slots(1) [OF lay, of a] that m by blast
  moreover have "h_mem h' (s + 8 * of_nat i) = h_mem h (s + 8 * of_nat i)" if "i \<le> 30" for i
    using frame_not_scratch [OF that] m by blast
  ultimately show ?thesis using k g by (simp add: kept_def cells_def)
qed

lemma jit_rel_kept:
  assumes "kept E s saved h c" and "\<And>r. r < 32 \<Longrightarrow> A64Reg r \<noteq> 0 \<Longrightarrow> greg E h r = xreg c r" and "same_rest (h_cpu h) c"
  shows "jit_rel E s saved (h\<lparr>gpr := (gpr h)(kIdSp := s, 0 := xreg c 10)\<rparr>) c"
proof -
  have "greg E (h\<lparr>gpr := (gpr h)(kIdSp := s, 0 := xreg c 10)\<rparr>) r = xreg c r" if "r < 32" for r
  proof (cases "A64Reg r = 0")
    case True
    moreover have "A64Reg 10 = 0" by code_simp
    ultimately have "r = 10" using A64Reg_inj [OF that, of 10] by simp
    with True show ?thesis by (simp add: greg_def getX_def const_defs)
  next
    case False
    with assms(2) [OF that] A64Reg_range(3) [OF that] show ?thesis by (auto simp: greg_def getX_def const_defs)
  qed
  with assms(1,3) show ?thesis by (simp add: jit_rel_def kept_def kIdSp_def)
qed

lemma store_low_ucast: "(ucast (store_low v w) :: u32) = v"
proof -
  have m: "(0xffffffff :: u64) = mask 32" by (simp add: mask_eq_exp_minus_1)
  have "bit (0xffffffff :: u64) n \<longleftrightarrow> n < 32" for n by (simp only: m bit_mask_iff possible_bit_word) auto
  then show ?thesis by (intro bit_eqI) (auto simp: store_low_def bit_simps)
qed

context a64_host
begin

lemma run_return:
  assumes k: "kept E s saved h c" and lay: "jit_layout E s" and cl: "call_layout E s"
    and sp: "gpr h kIdSp = s - d" "s - d \<in> scratch s" "h_mem h (s - d) = cpu_addr E"
    and q: "s - d + k \<in> scratch s" "k \<noteq> 0"
    and t: "(ucast (h_mem h (exit_trap_addr E)) :: u32) = of_nat (trap_index kNone)" and b: "bound (Lbl n) cs"
  shows "\<exists>h'. run ([MovI X64 0 (exit_trap_addr E), Ldr W32 0 (Mem 0 0), SubI W32 0 0 (of_nat (trap_index kNone)),
        Str W32 0 (sp_slot k)] @ RestoreVolatileA64Reg E @ [Ldp 29 30 (sp_slot 0), Ldr W32 0 (sp_slot k), Cbnz W32 0 (Lbl n)] @ cs) h =
      run cs h' \<and> kept E s saved h' c \<and> (\<forall>r < 32. A64Reg r \<noteq> 0 \<longrightarrow> greg E h' r = xreg c r) \<and> gpr h' kIdSp = s - d \<and>
      (\<forall>a. a \<noteq> s - d + k \<longrightarrow> h_mem h' a = h_mem h a) \<and> h_cpu h' = h_cpu h"
proof -
  let ?q = "s - d + k" and ?tl = "[Ldp 29 30 (sp_slot 0), Ldr W32 0 (sp_slot k), Cbnz W32 0 (Lbl n)] @ cs"
  have al: "8 dvd s - d" "8 dvd ?q" "8 dvd exit_trap_addr E"
    using stack_slots(2) [OF lay] sp(2) q(1) cl by (auto simp: call_layout_def)
  let ?h = "h\<lparr>gpr := (gpr h)(0 := 0), h_mem := (h_mem h)(?q := store_low 0 (h_mem h ?q))\<rparr>"
  have e: "(ucast (of_nat (trap_index kNone) :: u64) :: u32) = of_nat (trap_index kNone)" by (rule ucast_of_nat_32)
  have z: "(ucast (ucast w :: u64) :: u32) = w" for w :: u32 by (rule bit_eqI) (auto simp: bit_simps)
  have start: "run ([MovI X64 0 (exit_trap_addr E), Ldr W32 0 (Mem 0 0), SubI W32 0 0 (of_nat (trap_index kNone)),
        Str W32 0 (sp_slot k)] @ RestoreVolatileA64Reg E @ ?tl) h = run (RestoreVolatileA64Reg E @ ?tl) ?h"
    using al sp(1) by (simp add: run_simps sp_slot_def getX_def setX_def getW_def setW_def const_defs t e z)
  have k1: "kept E s saved ?h c" using q(1) by (intro kept_scratch [OF k lay]) auto
  from run_restore [OF k1 lay, of ?tl] obtain x where x: "run (RestoreVolatileA64Reg E @ ?tl) ?h = run ?tl (?h\<lparr>gpr := x\<rparr>)"
    "\<forall>r < 32. greg E (?h\<lparr>gpr := x\<rparr>) r = xreg c r" "\<forall>g > 18. x g = gpr ?h g" by blast
  have xs: "x 31 = s - d" using x(3) sp(1) by (simp add: kIdSp_def)
  define x' where "x' = x(29 := cpu_addr E, 30 := (h_mem ?h) (s - d + 8), 0 := 0)"
  have m29: "h_mem ?h (s - d) = cpu_addr E" using sp(3) q(2) by simp
  have "run ?tl (?h\<lparr>gpr := x\<rparr>) = run cs (?h\<lparr>gpr := x'\<rparr>)"
    using al b m29 by (simp add: run_simps sp_slot_def getX_def setX_def getW_def setW_def const_defs xs store_low_ucast x'_def)
  with start x(1) have run: "run ([MovI X64 0 (exit_trap_addr E), Ldr W32 0 (Mem 0 0), SubI W32 0 0 (of_nat (trap_index kNone)),
        Str W32 0 (sp_slot k)] @ RestoreVolatileA64Reg E @ ?tl) h = run cs (?h\<lparr>gpr := x'\<rparr>)" by simp
  have "x 29 = cpu_addr E" using x(3) k by (simp add: kept_def)
  then have k2: "kept E s saved (?h\<lparr>gpr := x'\<rparr>) c" using x(3) by (intro kept_scratch [OF k1 lay]) (auto simp: x'_def)
  have "greg E (?h\<lparr>gpr := x'\<rparr>) r = xreg c r" if "r < 32" "A64Reg r \<noteq> 0" for r
    using x(2) [rule_format, OF that(1)] that A64Reg_range(3) [OF that(1)] by (auto simp: greg_def getX_def x'_def const_defs)
  with run k2 xs show ?thesis by (intro exI [of _ "?h\<lparr>gpr := x'\<rparr>"]) (simp add: x'_def kIdSp_def)
qed

end

section \<open>Loads\<close>

definition ret_code :: "jit_env \<Rightarrow> u64 \<Rightarrow> nat \<Rightarrow> a64 list" where
  "ret_code E k n = [MovI X64 0 (exit_trap_addr E), Ldr W32 0 (Mem 0 0), SubI W32 0 0 (of_nat (trap_index kNone)),
     Str W32 0 (sp_slot k)] @ RestoreVolatileA64Reg E @ [Ldp 29 30 (sp_slot 0), Ldr W32 0 (sp_slot k), Cbnz W32 0 (Lbl n)]"

definition load_setup :: "jit_env \<Rightarrow> DecodeInfo \<Rightarrow> a64 list" where
  "load_setup E info = [SubI X64 kIdSp kIdSp 32, Stp 29 30 (sp_slot 0)] @
     (if A64Reg (rs1 info) < 0 then [Ldr X64 1 (XRegToMem E (rs1 info))] else [MovR 1 (A64Reg (rs1 info))]) @
     [MovI X64 2 (scast (imm info)), Op3 X64 Add 1 1 2,
      MovR 0 29, MovI X64 2 (ucast (mem_size info)), MovI X64 3 (exit_trap_addr E), MovI X64 4 (MmuLoad_addr E)]"

definition load_tail :: "jit_env \<Rightarrow> DecodeInfo \<Rightarrow> nat \<Rightarrow> a64 list" where
  "load_tail E info n = [Ldr X64 0 (sp_slot 24)] @ SelectSignExtendInstruction (token info) 0 0 @
     [Str X64 0 (XRegToMem E (rd info)), Ldr X64 0 (XRegToMem E 10), AddI kIdSp kIdSp 32] @
     (if 0 \<le> A64Reg (rd info) then [Ldr X64 (A64Reg (rd info)) (XRegToMem E (rd info))] else []) @
     [B (Lbl (n + 1)), Bind (Lbl n), Ldr X64 0 (XRegToMem E 10), AddI kIdSp kIdSp 32, B epilog_tag, Bind (Lbl (n + 1))]"

lemma EmitLoad_split: "fst (EmitLoad E info n) =
    SaveVolatileA64Reg E @ load_setup E info @ Blr 4 # Str X64 0 (sp_slot 24) # ret_code E 16 n @ load_tail E info n"
  by (simp add: EmitLoad_def Let_def load_setup_def ret_code_def load_tail_def kA64ToRv64Map_def)

lemma ea_xcell: "getX 29 h = cpu_addr E \<Longrightarrow> ea (XRegToMem E r) h = xcell E r"
  by (simp add: XRegToMem_def xcell_def)

lemma bound_append: "bound l (as @ bs) \<longleftrightarrow> bound l as \<or> bound l bs"
  by (simp add: bound_def)

lemma same_rest_load:
  assumes "same_rest p c" and "CPU_Load c a n = (t, bs, c')"
  shows "\<exists>M. MmuLoad p a n = (t, le_word bs, p\<lparr>cpu_mmu := M\<rparr>) \<and> c' = c\<lparr>cpu_mmu := M\<rparr>"
  using assms by (auto simp: MmuLoad_def CPU_Load_def same_rest_def split: prod.splits)

context a64_host
begin

lemma run_load_setup:
  assumes rel: "jit_rel E s saved h c" and k: "kept E s saved h c" and lay: "jit_layout E s" and r: "rs1 info < 32"
  shows "\<exists>h'. run (load_setup E info @ cs) h = run cs h' \<and> kept E s saved h' c \<and> h_cpu h' = h_cpu h \<and>
    gpr h' kIdSp = s - 32 \<and> h_mem h' (s - 32) = cpu_addr E \<and>
    gpr h' 0 = cpu_addr E \<and> gpr h' 1 = xreg c (rs1 info) + scast (imm info) \<and> gpr h' 2 = ucast (mem_size info) \<and>
    gpr h' 3 = exit_trap_addr E \<and> gpr h' 4 = MmuLoad_addr E"
proof -
  from rel r have g: "gpr h 29 = cpu_addr E" "gpr h 31 = s" and x: "greg E h (rs1 info) = xreg c (rs1 info)"
    by (auto simp: jit_rel_def kIdSp_def)
  have fin: "xreg c (rs1 info) = (if A64Reg (rs1 info) < 0 then h_mem h (xcell E (rs1 info)) else getX (A64Reg (rs1 info)) h)"
    using x by (simp add: greg_def)
  have n31: "A64Reg (rs1 info) \<noteq> 31" using A64Reg_range(3) [OF r] by (auto simp: kIdSp_def kIdZr_def)
  note eval = load_setup_def sp_slot_def XRegToMem_def run_simps getX_def setX_def g const_defs slot_facts(1-6) [OF lay] slot_simps
    sub_cancel xcell_aligned [OF lay] slot_ne [OF lay r] n31
  show ?thesis
    by (cases "A64Reg (rs1 info) < 0";
        (rule exI, rule conjI, simp add: eval flip: xcell_def,
         rule conjI, rule kept_scratch [OF k lay], auto simp: fin const_defs g scratch_def getX_def sub_cancel n31))
qed

lemma run_SignExtend:
  assumes "load_val tok (gpr h 0) = Some v"
  shows "run (SelectSignExtendInstruction tok 0 0 @ cs) h = run cs (setX 0 v h)"
proof -
  have "setX 0 (gpr h 0) h = h" by (cases h) (simp add: setX_def fun_upd_idem)
  with assms show ?thesis
    by (auto simp: SelectSignExtendInstruction_def load_val_def run_simps getX_def getW_def kIdZr_def split: if_splits)
qed

lemma run_load_tail:
  assumes k: "kept E s saved h c" and lay: "jit_layout E s" and gr: "\<forall>r < 32. A64Reg r \<noteq> 0 \<longrightarrow> greg E h r = xreg c r"
    and sr: "same_rest (h_cpu h) c" and sp: "gpr h kIdSp = s - 32" and v: "load_val (token info) (h_mem h (s - 8)) = Some v"
    and d: "rd info < 32"
  shows "\<exists>h'. run (load_tail E info n @ cs) h = run cs h' \<and> jit_rel E s saved h' (if rd info = 0 then c else set_xreg (rd info) v c)"
proof -
  let ?d = "rd info" and ?x = "if rd info = 0 then cpu_xregs c else (cpu_xregs c)(rd info := v)"
  from k have g: "gpr h 29 = cpu_addr E" and x10: "h_mem h (xcell E 10) = xreg c 10"
    by (auto simp: kept_def A64Reg_def kRv64ToA64Map_def)
  have base: "jit_rel E s saved (h\<lparr>gpr := (gpr h)(kIdSp := s, 0 := xreg c 10)\<rparr>) c"
    using gr by (intro jit_rel_kept [OF k _ sr]) blast
  from sp have sp': "gpr h 31 = s - 32" by (simp add: kIdSp_def)
  have ext: "run (SelectSignExtendInstruction (token info) 0 0 @ cs') (h\<lparr>gpr := (gpr h)(0 := h_mem h (s - 8))\<rparr>) =
      run cs' (h\<lparr>gpr := (gpr h)(0 := v)\<rparr>)" for cs'
    using run_SignExtend [of "token info" "h\<lparr>gpr := (gpr h)(0 := h_mem h (s - 8))\<rparr>" v cs'] v by (simp add: setX_def kIdZr_def)
  have d31: "A64Reg ?d \<noteq> 31" "A64Reg ?d \<noteq> 29" "A64Reg ?d = 63 \<longleftrightarrow> ?d = 0"
    using A64Reg_range [OF d] by (auto simp: const_defs)
  have a10: "A64Reg x = 0 \<longleftrightarrow> x = 10" if "x < 32" for x
    using A64Reg_inj [OF that, of 10] by (auto simp: A64Reg_def kRv64ToA64Map_def)
  have r31: "A64Reg x \<noteq> 31" if "x < 32" for x using A64Reg_range(3) [OF that] by (auto simp: const_defs)
  have inj: "A64Reg x = A64Reg ?d \<longleftrightarrow> x = ?d" if "x < 32" "\<not> A64Reg ?d < 0" for x
    using A64Reg_inj [OF that(1) d] that(2) by auto
  have t: "A64Reg 0 = 63" "A64Reg 10 = 0" by code_simp+
  have lo: "h_mem h (xcell E r) = xreg c r" if "r < 32" "A64Reg r < 0" for r
    using gr [rule_format, OF that(1)] that(2) by (simp add: greg_def)
  have hi: "gpr h (A64Reg r) = xreg c r" if "r < 32" "\<not> A64Reg r < 0" "A64Reg r \<noteq> 63" "r \<noteq> 10" for r
    using gr [rule_format, OF that(1)] that a10 by (simp add: greg_def getX_def kIdZr_def)
  have zr: "xreg c r = 0" if "r < 32" "A64Reg r = 63" for r
    using k that A64Reg_range(1) [OF that(1)] by (simp add: kept_def kIdZr_def)
  note eval = load_tail_def sp_slot_def ea_xcell run_simps label_simps getX_def setX_def g const_defs slot_facts(1-6) [OF lay] slot_simps
    sub_cancel xcell_aligned [OF lay] slot_ne [OF lay] d31 sp' ext xcell_inj x10 t
  have "\<exists>h'. run (load_tail E info n @ cs) h = run cs h' \<and> jit_rel E s saved h' (c\<lparr>cpu_xregs := ?x\<rparr>)"
    by (cases "?d = 0"; cases "?d = 10"; cases "A64Reg ?d < 0"; (rule exI, rule conjI, simp add: eval, rule jit_rel_cell [OF base lay d],
      simp_all add: const_defs sp' d31 scratch_def greg_def getX_def xcell_inj r31 inj a10 t lo hi zr g split: if_splits))
  then show ?thesis by (auto split: if_splits)
qed

lemma run_EmitLoad:
  assumes rel: "jit_rel E s saved h c" and lay: "jit_layout E s" and cl: "call_layout E s" and r: "rd info < 32" "rs1 info < 32"
    and load: "CPU_Load c (xreg c (rs1 info) + scast (imm info)) (ucast (mem_size info)) = (t, bs, c')" "trap_type t = kNone"
    and v: "load_val (token info) (le_word bs) = Some v"
  shows "\<exists>h'. run (fst (EmitLoad E info n) @ cs) h = run cs h' \<and>
    jit_rel E s saved h' (if rd info = 0 then c' else set_xreg (rd info) v c')"
proof -
  let ?post = "Str X64 0 (sp_slot 24) # ret_code E 16 n @ load_tail E info n @ cs"
  from run_save [OF rel lay, of "load_setup E info @ Blr 4 # ?post"] obtain m
    where m: "run (fst (EmitLoad E info n) @ cs) h = run (load_setup E info @ Blr 4 # ?post) (h\<lparr>h_mem := m\<rparr>)"
      "kept E s saved (h\<lparr>h_mem := m\<rparr>) c" "jit_rel E s saved (h\<lparr>h_mem := m\<rparr>) c"
    by (auto simp: EmitLoad_split)
  from run_load_setup [OF m(3,2) lay r(2), of "Blr 4 # ?post"] obtain h1
    where h1: "run (load_setup E info @ Blr 4 # ?post) (h\<lparr>h_mem := m\<rparr>) = run (Blr 4 # ?post) h1" "kept E s saved h1 c"
      "h_cpu h1 = h_cpu h" "gpr h1 kIdSp = s - 32" "h_mem h1 (s - 32) = cpu_addr E" "gpr h1 0 = cpu_addr E"
      "gpr h1 1 = xreg c (rs1 info) + scast (imm info)" "gpr h1 2 = ucast (mem_size info)" "gpr h1 3 = exit_trap_addr E"
      "gpr h1 4 = MmuLoad_addr E" by auto
  have sr: "same_rest (h_cpu h1) c" using rel h1(3) by (simp add: jit_rel_def)
  obtain M where mmu: "MmuLoad (h_cpu h1) (xreg c (rs1 info) + scast (imm info)) (ucast (mem_size info)) =
      (t, le_word bs, (h_cpu h1)\<lparr>cpu_mmu := M\<rparr>)" "c' = c\<lparr>cpu_mmu := M\<rparr>"
    using same_rest_load [OF sr load(1)] by blast
  have "getX 4 h1 = MmuLoad_addr E" using h1(10) by (simp add: getX_def kIdZr_def)
  from run_Blr_load [OF this h1(6,9), of t "le_word bs" "(h_cpu h1)\<lparr>cpu_mmu := M\<rparr>" ?post] h1(7,8) mmu(1) obtain h2
    where h2: "run (Blr 4 # ?post) h1 = run ?post h2" "gpr h2 0 = le_word bs" "h_cpu h2 = (h_cpu h1)\<lparr>cpu_mmu := M\<rparr>"
      "callee_keeps E h1 h2" "(ucast (h_mem h2 (exit_trap_addr E)) :: u32) = of_nat (trap_index (trap_type t))" by auto
  have sp1: "gpr h1 kIdSp = s - 48 + 8 * of_nat 2" using h1(4) by simp
  have k2: "kept E s saved h2 c" by (rule callee_kept [OF cl h2(4) sp1 _ h1(2)]) simp
  have sp2: "gpr h2 kIdSp = s - 32" using h2(4) h1(4) by (simp add: callee_keeps_def)
  have x29: "h_mem h2 (s - 32) = cpu_addr E" using callee_slot [OF cl h2(4) sp1, of 2] h1(5) by simp
  let ?h3 = "h2\<lparr>h_mem := (h_mem h2)(s - 8 := le_word bs)\<rparr>"
  have r3: "run ?post h2 = run (ret_code E 16 n @ load_tail E info n @ cs) ?h3"
    using sp2 h2(2) slot_facts(1) [OF lay] by (simp add: run_simps sp_slot_def getX_def const_defs slot_simps)
  have k3: "kept E s saved ?h3 c" by (rule kept_scratch [OF k2 lay]) (auto simp: scratch_def)
  have ex: "exit_trap_addr E \<noteq> s - 8"
    using cl [unfolded call_layout_def, THEN conjunct2, THEN conjunct2, THEN conjunct2, THEN conjunct2, THEN conjunct1, rule_format, of 5] by auto
  have "bound (Lbl n) (load_tail E info n @ cs)" by (simp add: bound_append load_tail_def bound_def)
  from run_return [OF k3 lay cl, of 32 16 n "load_tail E info n @ cs"] this sp2 x29 h2(5) load(2) ex obtain h4
    where h4: "run (ret_code E 16 n @ load_tail E info n @ cs) ?h3 = run (load_tail E info n @ cs) h4" "kept E s saved h4 c"
      "\<forall>r < 32. A64Reg r \<noteq> 0 \<longrightarrow> greg E h4 r = xreg c r" "gpr h4 kIdSp = s - 32"
      "\<forall>a. a \<noteq> s - 16 \<longrightarrow> h_mem h4 a = h_mem ?h3 a" "h_cpu h4 = h_cpu h2"
    by (auto simp: ret_code_def scratch_def slot_simps sub_cancel)
  have c': "kept E s saved h4 c'" "\<forall>r < 32. A64Reg r \<noteq> 0 \<longrightarrow> greg E h4 r = xreg c' r" "same_rest (h_cpu h4) c'"
    using h4(2,3,6) h2(3) sr mmu(2) by (simp_all add: kept_def same_rest_def)
  have "h_mem h4 (s - 8) = le_word bs" using h4(5) by (simp add: sub_cancel)
  then show ?thesis using run_load_tail [OF c'(1) lay c'(2,3) h4(4) _ r(1), of v n cs] v m(1) h1(1) h2(1) r3 h4(1) by simp
qed

end

section \<open>Stores\<close>

definition store_setup :: "jit_env \<Rightarrow> DecodeInfo \<Rightarrow> a64 list" where
  "store_setup E info = [SubI X64 kIdSp kIdSp 48, Stp 29 30 (sp_slot 0)] @
     (if A64Reg (rs2 info) < 0
      then [Ldr X64 0 (XRegToMem E (rs2 info)), Str X64 0 (sp_slot 24), Ldr X64 0 (XRegToMem E 10)]
      else [Str X64 (A64Reg (rs2 info)) (sp_slot 24)]) @
     (if A64Reg (rs1 info) < 0
      then [Ldr X64 0 (XRegToMem E (rs1 info)), MovI X64 1 (scast (imm info)), Op3 X64 Add 0 0 1]
      else [MovI X64 0 (scast (imm info)), Op3 X64 Add 0 0 (A64Reg (rs1 info))]) @
     [Str X64 0 (sp_slot 16), MovR 0 29, Ldr X64 1 (sp_slot 16), MovI X64 2 (ucast (mem_size info)), Ldr X64 3 (sp_slot 24),
      MovI X64 4 (exit_trap_addr E), MovI X64 5 (MmuStore_addr E)]"

definition store_tail :: "jit_env \<Rightarrow> nat \<Rightarrow> a64 list" where
  "store_tail E n = [Ldr X64 0 (XRegToMem E 10), AddI kIdSp kIdSp 48, B (Lbl (n + 1)),
     Bind (Lbl n), Ldr X64 0 (XRegToMem E 10), AddI kIdSp kIdSp 48, B epilog_tag, Bind (Lbl (n + 1))]"

lemma EmitStore_split: "fst (EmitStore E info n) =
    SaveVolatileA64Reg E @ store_setup E info @ Blr 5 # ret_code E 32 n @ store_tail E n"
  by (simp add: EmitStore_def Let_def store_setup_def ret_code_def store_tail_def kA64ToRv64Map_def)

lemma same_rest_store:
  assumes "same_rest p c" and "CPU_Store c a n bs = (t, c')" and "bs = le_bytes 8 v"
  shows "\<exists>M. MmuStore p a n v = (t, p\<lparr>cpu_mmu := M\<rparr>) \<and> c' = c\<lparr>cpu_mmu := M\<rparr>"
  using assms by (auto simp: MmuStore_def CPU_Store_def same_rest_def split: prod.splits)

context a64_host
begin

lemma run_store_setup:
  assumes rel: "jit_rel E s saved h c" and k: "kept E s saved h c" and lay: "jit_layout E s"
    and r: "rs1 info < 32" "rs2 info < 32" "A64Reg (rs1 info) \<noteq> 0"
  shows "\<exists>h'. run (store_setup E info @ cs) h = run cs h' \<and> kept E s saved h' c \<and> h_cpu h' = h_cpu h \<and>
    gpr h' kIdSp = s - 48 \<and> h_mem h' (s - 48) = cpu_addr E \<and>
    gpr h' 0 = cpu_addr E \<and> gpr h' 1 = xreg c (rs1 info) + scast (imm info) \<and> gpr h' 2 = ucast (mem_size info) \<and>
    gpr h' 3 = xreg c (rs2 info) \<and> gpr h' 4 = exit_trap_addr E \<and> gpr h' 5 = MmuStore_addr E"
proof -
  from rel r have g: "gpr h 29 = cpu_addr E" "gpr h 31 = s" and x: "greg E h (rs1 info) = xreg c (rs1 info)" "greg E h (rs2 info) = xreg c (rs2 info)"
    by (auto simp: jit_rel_def kIdSp_def)
  have fin: "xreg c (rs1 info) = (if A64Reg (rs1 info) < 0 then h_mem h (xcell E (rs1 info)) else getX (A64Reg (rs1 info)) h)"
    "xreg c (rs2 info) = (if A64Reg (rs2 info) < 0 then h_mem h (xcell E (rs2 info)) else getX (A64Reg (rs2 info)) h)"
    using x by (simp_all add: greg_def)
  have n31: "A64Reg (rs1 info) \<noteq> 31" "A64Reg (rs2 info) \<noteq> 31"
    using A64Reg_range(3) [OF r(1)] A64Reg_range(3) [OF r(2)] by (auto simp: const_defs)
  note eval = store_setup_def sp_slot_def ea_xcell run_simps getX_def setX_def g const_defs slot_facts(1-6) [OF lay] slot_simps
    sub_cancel xcell_aligned [OF lay] slot_ne [OF lay] n31 r
  show ?thesis
    by (cases "A64Reg (rs1 info) < 0"; cases "A64Reg (rs2 info) < 0";
        (rule exI, rule conjI, simp add: eval,
         rule conjI, rule kept_scratch [OF k lay], auto simp: fin const_defs g scratch_def getX_def sub_cancel n31 r))
qed

lemma run_store_tail:
  assumes k: "kept E s saved h c" and lay: "jit_layout E s" and gr: "\<forall>r < 32. A64Reg r \<noteq> 0 \<longrightarrow> greg E h r = xreg c r"
    and sr: "same_rest (h_cpu h) c" and sp: "gpr h kIdSp = s - 48"
  shows "\<exists>h'. run (store_tail E n @ cs) h = run cs h' \<and> jit_rel E s saved h' c"
proof -
  from k have g: "gpr h 29 = cpu_addr E" and x10: "h_mem h (xcell E 10) = xreg c 10"
    by (auto simp: kept_def A64Reg_def kRv64ToA64Map_def)
  have "(gpr h)(0 := xreg c 10, 31 := s) = (gpr h)(31 := s, 0 := xreg c 10)" by auto
  then have "run (store_tail E n @ cs) h = run cs (h\<lparr>gpr := (gpr h)(kIdSp := s, 0 := xreg c 10)\<rparr>)"
    using sp by (simp add: store_tail_def ea_xcell run_simps label_simps getX_def setX_def g const_defs xcell_aligned [OF lay] x10)
  moreover have "jit_rel E s saved (h\<lparr>gpr := (gpr h)(kIdSp := s, 0 := xreg c 10)\<rparr>) c"
    using gr by (intro jit_rel_kept [OF k _ sr]) blast
  ultimately show ?thesis by blast
qed

lemma run_EmitStore:
  assumes rel: "jit_rel E s saved h c" and lay: "jit_layout E s" and cl: "call_layout E s"
    and r: "rs1 info < 32" "rs2 info < 32" "A64Reg (rs1 info) \<noteq> 0"
    and store: "CPU_Store c (xreg c (rs1 info) + scast (imm info)) (ucast (mem_size info)) (le_bytes 8 (xreg c (rs2 info))) = (t, c')"
      "trap_type t = kNone"
  shows "\<exists>h'. run (fst (EmitStore E info n) @ cs) h = run cs h' \<and> jit_rel E s saved h' c'"
proof -
  let ?post = "ret_code E 32 n @ store_tail E n @ cs"
  from run_save [OF rel lay, of "store_setup E info @ Blr 5 # ?post"] obtain m
    where m: "run (fst (EmitStore E info n) @ cs) h = run (store_setup E info @ Blr 5 # ?post) (h\<lparr>h_mem := m\<rparr>)"
      "kept E s saved (h\<lparr>h_mem := m\<rparr>) c" "jit_rel E s saved (h\<lparr>h_mem := m\<rparr>) c"
    by (auto simp: EmitStore_split)
  from run_store_setup [OF m(3,2) lay r, of "Blr 5 # ?post"] obtain h1
    where h1: "run (store_setup E info @ Blr 5 # ?post) (h\<lparr>h_mem := m\<rparr>) = run (Blr 5 # ?post) h1" "kept E s saved h1 c"
      "h_cpu h1 = h_cpu h" "gpr h1 kIdSp = s - 48" "h_mem h1 (s - 48) = cpu_addr E" "gpr h1 0 = cpu_addr E"
      "gpr h1 1 = xreg c (rs1 info) + scast (imm info)" "gpr h1 2 = ucast (mem_size info)" "gpr h1 3 = xreg c (rs2 info)"
      "gpr h1 4 = exit_trap_addr E" "gpr h1 5 = MmuStore_addr E" by auto
  have sr: "same_rest (h_cpu h1) c" using rel h1(3) by (simp add: jit_rel_def)
  obtain M where mmu: "MmuStore (h_cpu h1) (xreg c (rs1 info) + scast (imm info)) (ucast (mem_size info)) (xreg c (rs2 info)) =
      (t, (h_cpu h1)\<lparr>cpu_mmu := M\<rparr>)" "c' = c\<lparr>cpu_mmu := M\<rparr>"
    using same_rest_store [OF sr store(1) refl] by blast
  have g5: "getX 5 h1 = MmuStore_addr E" using h1(11) by (simp add: getX_def kIdZr_def)
  have ne: "MmuStore_addr E \<noteq> MmuLoad_addr E" using cl by (simp add: call_layout_def)
  from run_Blr_store [OF ne g5 h1(6,10), of t "(h_cpu h1)\<lparr>cpu_mmu := M\<rparr>" ?post] h1(7-9) mmu(1) obtain h2
    where h2: "run (Blr 5 # ?post) h1 = run ?post h2" "h_cpu h2 = (h_cpu h1)\<lparr>cpu_mmu := M\<rparr>"
      "callee_keeps E h1 h2" "(ucast (h_mem h2 (exit_trap_addr E)) :: u32) = of_nat (trap_index (trap_type t))" by auto
  have sp1: "gpr h1 kIdSp = s - 48 + 8 * of_nat 0" using h1(4) by simp
  have k2: "kept E s saved h2 c" by (rule callee_kept [OF cl h2(3) sp1 _ h1(2)]) simp
  have sp2: "gpr h2 kIdSp = s - 48" using h2(3) h1(4) by (simp add: callee_keeps_def)
  have x29: "h_mem h2 (s - 48) = cpu_addr E" using callee_slot [OF cl h2(3) sp1, of 0] h1(5) by simp
  have "bound (Lbl n) (store_tail E n @ cs)" by (simp add: bound_append store_tail_def bound_def)
  from run_return [OF k2 lay cl, of 48 32 n "store_tail E n @ cs"] this sp2 x29 h2(4) store(2) obtain h4
    where h4: "run ?post h2 = run (store_tail E n @ cs) h4" "kept E s saved h4 c"
      "\<forall>r < 32. A64Reg r \<noteq> 0 \<longrightarrow> greg E h4 r = xreg c r" "gpr h4 kIdSp = s - 48" "h_cpu h4 = h_cpu h2"
    by (auto simp: ret_code_def scratch_def slot_simps sub_cancel)
  have c': "kept E s saved h4 c'" "\<forall>r < 32. A64Reg r \<noteq> 0 \<longrightarrow> greg E h4 r = xreg c' r" "same_rest (h_cpu h4) c'"
    using h4(2,3,5) h2(2) sr mmu(2) by (simp_all add: kept_def same_rest_def)
  from run_store_tail [OF c'(1) lay c'(2,3) h4(4), of n cs] m(1) h1(1) h2(1) h4(1) show ?thesis by simp
qed

end

end
