(* ===== verification/Jit_Block.thy ===== *)
theory Jit_Block
  imports Jit_Mem Exec_Memory
begin

text \<open>
  Whole translated blocks: prologue, translated instructions, epilogue. Running a block on a host that
  obeys the laws of \<open>a64_host\<close> leaves in the processor object the processor the interpreter
  reaches, with the instruction counter advanced by the length of the block, and gives the caller
  its registers and its stack pointer back.
\<close>

section \<open>One instruction\<close>

lemma interp_load:
  assumes "op info = kLoad" and "token_op (token info) = kLoad" and "fst (Exec env info c) = kNoneTrap" and "xreg c 0 = 0"
  shows "\<exists>t bs c' v. CPU_Load c (xreg c (rs1 info) + scast (imm info)) (ucast (mem_size info)) = (t, bs, c') \<and> trap_type t = kNone \<and>
    load_val (token info) (le_word bs) = Some v \<and> interp env info c = (if rd info = 0 then c' else set_xreg (rd info) v c')"
proof -
  obtain t bs c' where l: "CPU_Load c (xreg c (rs1 info) + scast (imm info)) (ucast (mem_size info)) = (t, bs, c')"
    by (metis prod_cases3)
  obtain v where v: "load_val (token info) (le_word bs) = Some v" using vals_defined(6) [OF assms(2)] by blast
  have t: "trap_type t = kNone"
    using assms(3) l by (auto simp: Exec_op(6) [OF assms(1)] LoadTypeExec_def Let_def split: if_splits)
  have "xreg c' 0 = 0" using l assms(4) by (auto simp: CPU_Load_def split: prod.splits)
  moreover have "Exec env info c = (kNoneTrap, set_xreg (rd info) v c')"
    using l v t by (simp add: Exec_op(6) [OF assms(1)] LoadTypeExec_def Let_def write_back_def)
  ultimately have "interp env info c = (if rd info = 0 then c' else set_xreg (rd info) v c')" by (intro interp_alu)
  with l v t show ?thesis by simp
qed

lemma interp_store:
  assumes "op info = kStore" and "fst (Exec env info c) = kNoneTrap" and "xreg c 0 = 0"
  shows "\<exists>t c'. CPU_Store c (xreg c (rs1 info) + scast (imm info)) (ucast (mem_size info)) (le_bytes 8 (xreg c (rs2 info))) = (t, c') \<and>
    trap_type t = kNone \<and> interp env info c = c'"
proof -
  obtain t c' where l: "CPU_Store c (xreg c (rs1 info) + scast (imm info)) (ucast (mem_size info)) (le_bytes 8 (xreg c (rs2 info))) = (t, c')"
    by fastforce
  have t: "trap_type t = kNone"
    using assms(2) l by (auto simp: Exec_op(5) [OF assms(1)] StoreTypeExec_def Let_def split: if_splits)
  have "xreg c' 0 = 0" using l assms(3) by (auto simp: CPU_Store_def split: prod.splits)
  then have "(cpu_xregs c')(0 := 0) = cpu_xregs c'" by (auto simp: fun_eq_iff)
  then have "interp env info c = c'"
    using l t by (simp add: interp_def Exec_op(5) [OF assms(1)] StoreTypeExec_def Let_def)
  with l t show ?thesis by simp
qed

text \<open>An instruction without a destination register is not translated at all.\<close>

lemma interp_nop:
  assumes "jit_ok info" and "rd info = 0" and "op info \<in> {kReg, kRv32, kImm, kImm32, kLui, kAuipc}" and "xreg c 0 = 0"
  shows "interp env info c = c"
proof -
  from assms(1) have t: "token_op (token info) = op info" by (simp add: jit_ok_def)
  have "\<exists>v. Exec env info c = (kNoneTrap, set_xreg (rd info) v c)"
    using assms(3)
  proof (elim insertE emptyE)
    assume o: "op info = kReg"
    then obtain v where "reg_val (token info) (xreg c (rs1 info)) (xreg c (rs2 info)) = Some v" using vals_defined(1) t by metis
    then have "Exec env info c = (kNoneTrap, set_xreg (rd info) v c)" by (simp add: Exec_op(1) [OF o] RegTypeExec_def write_back_def)
    then show ?thesis by (rule exI)
  next
    assume o: "op info = kRv32"
    then obtain v where "rv32_val (token info) (ucast (xreg c (rs1 info))) (ucast (xreg c (rs2 info))) = Some v" using vals_defined(4) t by metis
    then have "Exec env info c = (kNoneTrap, set_xreg (rd info) v c)" by (simp add: Exec_op(12) [OF o] Rv32TypeExec_def write_back_def)
    then show ?thesis by (rule exI)
  next
    assume o: "op info = kImm"
    then obtain v where "imm_val (token info) (xreg c (rs1 info)) (imm info) = Some v" using vals_defined(2) t by metis
    then have "Exec env info c = (kNoneTrap, set_xreg (rd info) v c)" by (simp add: Exec_op(2) [OF o] ImmTypeExec_def write_back_def)
    then show ?thesis by (rule exI)
  next
    assume o: "op info = kImm32"
    then obtain v where "imm32_val (token info) (ucast (xreg c (rs1 info))) (imm info) = Some v" using vals_defined(3) t by metis
    then have "Exec env info c = (kNoneTrap, set_xreg (rd info) v c)" by (simp add: Exec_op(11) [OF o] Imm32TypeExec_def write_back_def)
    then show ?thesis by (rule exI)
  qed (auto simp: Exec_op(3,8) LuiTypeExec_def AuipcTypeExec_def)
  then obtain v where "Exec env info c = (kNoneTrap, set_xreg (rd info) v c)" by blast
  from interp_alu [OF this assms(4)] assms(2) show ?thesis by simp
qed

lemma Emit_code_op:
  "op info = kReg \<Longrightarrow> Emit_code E info n = Some (EmitReg E info n)"
  "op info = kLui \<Longrightarrow> Emit_code E info n = Some (EmitLui E info, n)"
  "op info = kAuipc \<Longrightarrow> Emit_code E info n = Some (EmitAuipc E info, n)"
  "op info = kImm \<Longrightarrow> Emit_code E info n = Some (EmitImm E info, n)"
  "op info = kRv32 \<Longrightarrow> Emit_code E info n = Some (EmitReg32 E info n)"
  "op info = kJal \<Longrightarrow> Emit_code E info n = Some (EmitJal E info, n)"
  "op info = kJalr \<Longrightarrow> Emit_code E info n = Some (EmitJalr E info, n)"
  "op info = kImm32 \<Longrightarrow> Emit_code E info n = Some (EmitImm32 E info, n)"
  "op info = kLoad \<Longrightarrow> Emit_code E info n = Some (EmitLoad E info n)"
  "op info = kStore \<Longrightarrow> Emit_code E info n = Some (EmitStore E info n)"
  by (simp_all add: Emit_code_def const_defs)

context a64_host
begin

definition simulates :: "u64 \<Rightarrow> (nat \<Rightarrow> u64) \<Rightarrow> host \<Rightarrow> cpu \<Rightarrow> a64 list \<Rightarrow> bool" where
  "simulates s saved h c' calls \<longleftrightarrow> (\<forall>cs. \<exists>h'. run (calls @ cs) h = run cs h' \<and> jit_rel E s saved h' c')"

lemma simulates_load:
  assumes rel: "jit_rel E s saved h c" and lay: "jit_layout E s" "call_layout E s" and r: "rd info < 32" "rs1 info < 32"
    and o: "op info = kLoad" "token_op (token info) = kLoad" and nt: "fst (Exec env info c) = kNoneTrap"
  shows "simulates s saved h (interp env info c) (fst (EmitLoad E info n))"
proof -
  from interp_load [OF o nt jit_rel_x0 [OF rel]] obtain t bs c' v
    where l: "CPU_Load c (xreg c (rs1 info) + scast (imm info)) (ucast (mem_size info)) = (t, bs, c')" "trap_type t = kNone"
      "load_val (token info) (le_word bs) = Some v" "interp env info c = (if rd info = 0 then c' else set_xreg (rd info) v c')" by blast
  show ?thesis unfolding simulates_def l(4) using run_EmitLoad [OF rel lay r l(1-3)] by blast
qed

lemma simulates_store:
  assumes rel: "jit_rel E s saved h c" and lay: "jit_layout E s" "call_layout E s" and r: "rs1 info < 32" "rs2 info < 32" "A64Reg (rs1 info) \<noteq> 0"
    and o: "op info = kStore" and nt: "fst (Exec env info c) = kNoneTrap"
  shows "simulates s saved h (interp env info c) (fst (EmitStore E info n))"
proof -
  from interp_store [OF o nt jit_rel_x0 [OF rel]] obtain t c'
    where l: "CPU_Store c (xreg c (rs1 info) + scast (imm info)) (ucast (mem_size info)) (le_bytes 8 (xreg c (rs2 info))) = (t, c')"
      "trap_type t = kNone" "interp env info c = c'" by blast
  show ?thesis unfolding simulates_def l(3) using run_EmitStore [OF rel lay r l(1,2)] by blast
qed

lemma simulates_upper:
  assumes rel: "jit_rel E s saved h c" and lay: "jit_layout E s" and ok: "jit_ok info" "rd info \<noteq> 0"
  shows "op info = kLui \<Longrightarrow> simulates s saved h (interp env info c) (EmitLui E info)"
    and "op info = kAuipc \<Longrightarrow> simulates s saved h (interp env info c) (EmitAuipc E info)"
proof -
  have r: "rd info < 32" using ok by (simp add: jit_ok_def)
  note x0 = jit_rel_x0 [OF rel]
  assume o: "op info = kLui"
  have "Exec env info c = (kNoneTrap, set_xreg (rd info) (scast (imm info)) c)" by (simp add: Exec_op(3) [OF o] LuiTypeExec_def)
  from interp_alu [OF this x0] ok(2) have "interp env info c = set_xreg (rd info) (scast (imm info)) c" by simp
  with run_EmitLui [OF rel lay r ok(2)] show "simulates s saved h (interp env info c) (EmitLui E info)" by (simp add: simulates_def)
next
  have r: "rd info < 32" using ok by (simp add: jit_ok_def)
  note x0 = jit_rel_x0 [OF rel]
  assume o: "op info = kAuipc"
  have "Exec env info c = (kNoneTrap, set_xreg (rd info) (pc info + scast (imm info)) c)" by (simp add: Exec_op(8) [OF o] AuipcTypeExec_def)
  from interp_alu [OF this x0] ok(2) have i: "interp env info c = set_xreg (rd info) (pc info + scast (imm info)) c" by simp
  have "scast (ucast (scast (imm info) + pc info) :: u32) = scast (imm info) + pc info" using ok o by (simp add: jit_ok_def)
  with run_EmitAuipc [OF rel lay r ok(2)] i show "simulates s saved h (interp env info c) (EmitAuipc E info)" by (simp add: simulates_def)
qed

lemma simulates_jump:
  assumes rel: "jit_rel E s saved h c" and lay: "jit_layout E s" and ok: "jit_ok info" "rd info \<noteq> 0" and ut: "\<not> env_unit_test env"
  shows "op info = kJal \<Longrightarrow> simulates s saved h (interp env info c) (EmitJal E info)"
    and "op info = kJalr \<Longrightarrow> simulates s saved h (interp env info c) (EmitJalr E info)"
proof -
  have r: "rd info < 32" using ok by (simp add: jit_ok_def)
  assume o: "op info = kJal"
  show "simulates s saved h (interp env info c) (EmitJal E info)"
    unfolding simulates_def interp_jump(1) [OF ut jit_rel_x0 [OF rel] ok(2) o] using run_EmitJal [OF rel lay r ok(2)] by blast
next
  have r: "rd info < 32" "rs1 info < 32" using ok by (simp_all add: jit_ok_def)
  assume o: "op info = kJalr"
  have "hreg 0 (rd info) \<noteq> hreg 1 (rs1 info)" using ok o by (simp add: jit_ok_def)
  then show "simulates s saved h (interp env info c) (EmitJalr E info)"
    unfolding simulates_def interp_jump(2) [OF ut jit_rel_x0 [OF rel] ok(2) o] using run_EmitJalr [OF rel lay r(1) ok(2) r(2)] by blast
qed

lemma simulates_alu:
  assumes rel: "jit_rel E s saved h c" and lay: "jit_layout E s" and ok: "jit_ok info" "rd info \<noteq> 0"
  shows "op info = kReg \<Longrightarrow> simulates s saved h (interp env info c) (fst (EmitReg E info n))"
    and "op info = kRv32 \<Longrightarrow> simulates s saved h (interp env info c) (fst (EmitReg32 E info n))"
    and "op info = kImm \<Longrightarrow> simulates s saved h (interp env info c) (EmitImm E info)"
    and "op info = kImm32 \<Longrightarrow> simulates s saved h (interp env info c) (EmitImm32 E info)"
  unfolding simulates_def
  using run_EmitReg [OF rel lay ok(1) _ ok(2)] run_EmitReg32 [OF rel lay ok(1) _ ok(2)]
    run_EmitImm [OF rel lay ok(1) _ ok(2)] run_EmitImm32 [OF rel lay ok(1) _ ok(2)] by blast+

lemma run_Emit_code:
  assumes rel: "jit_rel E s saved h c" and lay: "jit_layout E s" "call_layout E s" and ok: "jit_ok info"
    and nt: "fst (Exec env info c) = kNoneTrap" and ut: "\<not> env_unit_test env"
  shows "\<exists>p. Emit_code E info n = Some p \<and> simulates s saved h (interp env info c) (fst p)"
proof (cases "rd info = 0 \<and> op info \<in> {kReg, kRv32, kImm, kImm32, kLui, kAuipc}")
  case True
  then have "Emit_code E info n = Some ([], n)"
    by (elim conjE insertE emptyE)
      (simp_all add: Emit_code_op EmitReg_def EmitReg32_def EmitImm_def EmitImm32_def EmitLui_def EmitAuipc_def)
  moreover have "interp env info c = c" using True by (intro interp_nop [OF ok _ _ jit_rel_x0 [OF rel]]) auto
  ultimately show ?thesis using rel by (auto simp: simulates_def)
next
  case False
  have r: "rd info < 32" "rs1 info < 32" "rs2 info < 32" using ok by (simp_all add: jit_ok_def)
  have op: "op info \<in> {kReg, kRv32, kImm, kImm32, kLui, kAuipc, kLoad, kStore, kJal, kJalr}" and t: "token_op (token info) = op info"
    using ok unfolding jit_ok_def jumps_def by (blast, simp)
  have d: "rd info \<noteq> 0" if "op info \<in> {kReg, kRv32, kImm, kImm32, kLui, kAuipc} \<union> jumps"
    using False that ok unfolding jit_ok_def by blast
  note sims = simulates_alu [OF rel lay(1) ok] simulates_upper [OF rel lay(1) ok] simulates_jump [OF rel lay(1) ok _ ut]
  from op show ?thesis
  proof (elim insertE emptyE)
    assume o: "op info = kStore"
    then have "A64Reg (rs1 info) \<noteq> 0" using ok unfolding jit_ok_def by blast
    from simulates_store [OF rel lay r(2,3) this o nt] show ?thesis unfolding Emit_code_op(10) [OF o] by auto
  next
    assume o: "op info = kLoad"
    with t have "token_op (token info) = kLoad" by simp
    from simulates_load [OF rel lay r(1,2) o this nt] show ?thesis unfolding Emit_code_op(9) [OF o] by auto
  qed (use d sims in \<open>auto simp: Emit_code_op jumps_def\<close>)
qed

end

section \<open>Blocks\<close>

text \<open>The translator is called once for each instruction of the block, between the prologue and the epilogue.\<close>

definition Emit_all :: "jit_env \<Rightarrow> DecodeInfo list \<Rightarrow> jit \<Rightarrow> jit" where
  "Emit_all E infos j = fold (\<lambda>info j. snd (Emit E info j)) infos j"

text \<open>The interpreter executes the block without a trap, and every instruction of it is one the
  translation handles.\<close>

fun block_ok :: "env \<Rightarrow> DecodeInfo list \<Rightarrow> cpu \<Rightarrow> bool" where
  "block_ok env [] c \<longleftrightarrow> True"
| "block_ok env (info # infos) c \<longleftrightarrow>
     jit_ok info \<and> fst (Exec env info c) = kNoneTrap \<and> block_ok env infos (interp env info c)"

context a64_host
begin

lemma run_Emit_all:
  assumes rel: "jit_rel E s saved h c" and lay: "jit_layout E s" "call_layout E s" and ut: "\<not> env_unit_test env"
    and ok: "block_ok env infos c"
  shows "\<exists>calls h'. jit_calls (Emit_all E infos j) = jit_calls j @ calls \<and>
    delta_instret (Emit_all E infos j) = delta_instret j + of_nat (length infos) \<and>
    run (calls @ cs) h = run cs h' \<and> jit_rel E s saved h' (fold (interp env) infos c)"
  using rel ok
proof (induction infos arbitrary: h c j)
  case Nil
  then show ?case by (auto simp: Emit_all_def)
next
  case (Cons info infos)
  from Cons.prems(2) have i: "jit_ok info" "fst (Exec env info c) = kNoneTrap" "block_ok env infos (interp env info c)" by auto
  from run_Emit_code [OF Cons.prems(1) lay i(1,2) ut] obtain p
    where p: "Emit_code E info (jit_labels j) = Some p" "simulates s saved h (interp env info c) (fst p)" by blast
  define j' where "j' = j\<lparr>delta_instret := delta_instret j + 1, jit_calls := jit_calls j @ fst p, jit_labels := snd p\<rparr>"
  have "op info \<noteq> kUndef" "token info \<noteq> I_UNKNOWN" using i(1) unfolding jit_ok_def by blast+
  then have "snd (Emit E info j) = j'" using p(1) by (cases p) (simp add: Emit_def j'_def)
  then have j': "Emit_all E (info # infos) j = Emit_all E infos j'" by (simp add: Emit_all_def)
  obtain h1 where "jit_rel E s saved h1 (interp env info c)" using p(2) by (auto simp: simulates_def)
  from Cons.IH [OF this i(3), of j'] obtain calls where calls: "jit_calls (Emit_all E infos j') = jit_calls j' @ calls" by blast
  from p(2) obtain h2 where h2: "run (fst p @ calls @ cs) h = run (calls @ cs) h2" "jit_rel E s saved h2 (interp env info c)"
    by (auto simp: simulates_def)
  from Cons.IH [OF h2(2) i(3), of j'] calls obtain h3
    where h3: "delta_instret (Emit_all E infos j') = delta_instret j' + of_nat (length infos)" "run (calls @ cs) h2 = run cs h3"
      "jit_rel E s saved h3 (fold (interp env) infos (interp env info c))" by auto
  show ?case
    by (intro exI [of _ "fst p @ calls"] exI [of _ h3]) (simp add: j' calls h2(1) h3, simp add: j'_def)
qed

lemma run_block:
  assumes obj: "cpu_obj E h c" "xreg c 0 = 0" and lay: "jit_layout E (gpr h kIdSp - 256)" "call_layout E (gpr h kIdSp - 256)"
    and ut: "\<not> env_unit_test env" and ok: "block_ok env infos c"
  shows "let c' = fold (interp env) infos c;
      h' = run (jit_calls (EmitEpilog E (Emit_all E infos (EmitProlog E JitEmitter)))) h
    in cpu_obj E h' (c'\<lparr>cpu_instret := cpu_instret c' + of_nat (length infos)\<rparr>) \<and> gpr h' kIdSp = gpr h kIdSp \<and>
       (\<forall>i \<le> 30. gpr h' (int i) = gpr h (int i))"
proof -
  let ?s = "gpr h kIdSp - 256" and ?saved = "\<lambda>i. gpr h (int i)" and ?c = "fold (interp env) infos c"
  let ?j = "Emit_all E infos (EmitProlog E JitEmitter)" and ?n = "of_nat (length infos) :: u64"
  have start: "jit_calls (EmitProlog E JitEmitter) = prolog E" "delta_instret (EmitProlog E JitEmitter) = 0"
    by (simp_all add: EmitProlog_calls) (simp_all add: EmitProlog_def JitEmitter_def)
  from run_prolog [OF obj lay(1)] obtain h0 where "jit_rel E ?s ?saved h0 c" by blast
  from run_Emit_all [OF this lay ut ok, of "EmitProlog E JitEmitter"] obtain calls
    where calls: "jit_calls ?j = prolog E @ calls" "delta_instret ?j = ?n"
    unfolding start by (metis add_0)
  from run_prolog [OF obj lay(1), of "calls @ epilog E ?n"] obtain h1
    where h1: "run (prolog E @ calls @ epilog E ?n) h = run (calls @ epilog E ?n) h1" "jit_rel E ?s ?saved h1 c" by blast
  from run_Emit_all [OF h1(2) lay ut ok, of "EmitProlog E JitEmitter" "epilog E ?n"] calls(1) obtain h2
    where h2: "run (calls @ epilog E ?n) h1 = run (epilog E ?n) h2" "jit_rel E ?s ?saved h2 ?c"
    unfolding start by (metis same_append_eq)
  from run_epilog [OF h2(2) lay(1), of ?n] obtain h3
    where h3: "run (epilog E ?n) h2 = h3" "cpu_obj E h3 (?c\<lparr>cpu_instret := cpu_instret ?c + ?n\<rparr>)"
      "gpr h3 kIdSp = ?s + 256" "\<forall>i \<le> 30. gpr h3 (int i) = ?saved i" by blast
  have "run (jit_calls (EmitEpilog E ?j)) h = h3"
    by (simp add: EmitEpilog_calls calls h1(1) h2(1) h3(1))
  with h3 show ?thesis by (simp add: Let_def)
qed

end


definition jit_example_env :: jit_env where
  "jit_example_env = \<lparr>kXregBias = 0, kPcBias = 0x100, kInstretBias = 0x108, cpu_addr = 0x2000, exit_trap_addr = 0x3000,
     MmuLoad_addr = 0x4000, MmuStore_addr = 0x4008\<rparr>"

definition jit_example_host :: host where
  "jit_example_host = \<lparr>gpr = (\<lambda>_. 7)(31 := 0x1100), h_cmp = (0, 0),
     h_mem = (\<lambda>_. 0x80000000)(0x2000 := 0, 0x2108 := 0), h_cpu = example_m\<rparr>"

definition jit_example_block :: "DecodeInfo list" where
  "jit_example_block = [example_info I_SD 0 6 7 8, example_info I_ADD 3 3 12 0, example_info I_JAL 1 0 0 0]"

lemma all_regs: "(\<forall>r < 32. P r) \<longleftrightarrow> list_all (\<lambda>i. P (of_nat i :: u8)) [0..<32]"
proof
  assume "\<forall>r < 32. P r"
  then show "list_all (\<lambda>i. P (of_nat i)) [0..<32]"
    by (auto simp: list_all_iff word_less_nat_alt unsigned_of_nat take_bit_eq_mod)
next
  assume l: "list_all (\<lambda>i. P (of_nat i)) [0..<32]"
  show "\<forall>r < 32. P r"
  proof (intro allI impI)
    fix r :: u8
    assume "r < 32"
    then have "unat r \<in> set [0..<32]" using unat_reg by simp
    with l have "P (of_nat (unat r))" unfolding list_all_iff by blast
    then show "P r" by simp
  qed
qed

lemma cells_all: "a \<notin> cells E \<longleftrightarrow>
    list_all (\<lambda>i. a \<noteq> xcell E (of_nat i)) [0..<32] \<and> a \<noteq> cpu_addr E + kPcBias E \<and> a \<noteq> cpu_addr E + kInstretBias E"
  using all_regs [of "\<lambda>r. a \<noteq> xcell E r"] by (auto simp: cells_def)

lemma all_slots: "(\<forall>k < 37. P k) \<longleftrightarrow> list_all P [0..<37]"
  by (auto simp: list_all_iff)

lemma jit_example_layout: "jit_layout jit_example_env 0x1000" "call_layout jit_example_env 0x1000"
proof -
  have d: "(8 :: u64) dvd 0x1000" "(8 :: u64) dvd 0x2000" "(8 :: u64) dvd 0x2100" "(8 :: u64) dvd 0x2108" "(8 :: u64) dvd 0x3000"
    by (rule dvdI [of _ _ "0x200"], simp, rule dvdI [of _ _ "0x400"], simp, rule dvdI [of _ _ "0x420"], simp,
        rule dvdI [of _ _ "0x421"], simp, rule dvdI [of _ _ "0x600"], simp)
  have c: "list_all (\<lambda>i. xcell jit_example_env (of_nat i) \<noteq> 0x2100 \<and> xcell jit_example_env (of_nat i) \<noteq> 0x2108 \<and>
      0x3000 \<noteq> xcell jit_example_env (of_nat i) \<and> 0x3008 \<noteq> xcell jit_example_env (of_nat i)) [0..<32]"
    unfolding jit_example_env_def xcell_def by code_simp
  have s: "list_all (\<lambda>k. list_all (\<lambda>i. (0xfd0 :: u64) + 8 * of_nat k \<noteq> xcell jit_example_env (of_nat i)) [0..<32] \<and>
      (0xfd0 :: u64) + 8 * of_nat k \<noteq> 0x2100 \<and> (0xfd0 :: u64) + 8 * of_nat k \<noteq> 0x2108 \<and>
      (0xfd0 :: u64) + 8 * of_nat k \<noteq> 0x3000 \<and> (0xfd0 :: u64) + 8 * of_nat k \<noteq> 0x3008) [0..<37]"
    unfolding jit_example_env_def xcell_def by code_simp
  show "jit_layout jit_example_env 0x1000"
    unfolding jit_layout_def all_regs all_slots cells_all using d c s by (simp add: jit_example_env_def list_all_iff)
  show "call_layout jit_example_env 0x1000"
    unfolding call_layout_def all_slots cells_all using d c s by (simp add: jit_example_env_def list_all_iff)
qed

lemma jit_example_obj: "cpu_obj jit_example_env jit_example_host example_m"
proof -
  have "list_all (\<lambda>i. h_mem jit_example_host (xcell jit_example_env (of_nat i)) = xreg example_m (of_nat i)) [0..<32]"
    unfolding jit_example_env_def jit_example_host_def xcell_def example_cpu_def by code_simp
  then show ?thesis
    by (simp add: cpu_obj_def all_regs) (simp add: jit_example_env_def jit_example_host_def example_cpu_def same_rest_def)
qed

lemma jit_example_tokens: "token_op I_SD = kStore" "token_op I_ADD = kReg" "token_op I_JAL = kJal"
  by (simp_all add: token_op_def)

lemma jit_example_ok:
  "jit_ok (example_info I_SD 0 6 7 8)" "jit_ok (example_info I_ADD 3 3 12 0)" "jit_ok (example_info I_JAL 1 0 0 0)"
  by (simp_all add: jit_ok_def example_info_def jit_example_tokens jumps_def const_defs hreg_def A64Reg_def kRv64ToA64Map_def)

lemma jit_example_exec:
  "Exec example_env (example_info I_SD 0 6 7 8) example_m = (kNoneTrap, set_bus example_bus' example_m)"
  "Exec example_env (example_info I_ADD 3 3 12 0) c = (kNoneTrap, set_xreg 3 (xreg c 3 + xreg c 12) c)"
  "Exec example_env (example_info I_JAL 1 0 0 0) c = (kNoneTrap, set_xreg 1 0x80000004 (c\<lparr>cpu_pc := 0x80000000\<rparr>))"
proof -
  have ops: "op (example_info I_SD 0 6 7 8) = kStore" "op (example_info I_ADD 3 3 12 0) = kReg" "op (example_info I_JAL 1 0 0 0) = kJal"
    by (simp_all add: example_info_def jit_example_tokens)
  have x: "xreg example_m 6 = 0x80000000" "xreg example_m 7 = 0x80000000" by (simp_all add: example_cpu_def)
  show "Exec example_env (example_info I_SD 0 6 7 8) example_m = (kNoneTrap, set_bus example_bus' example_m)"
    unfolding Exec_op(5) [OF ops(1)] StoreTypeExec_def by (simp add: example_info_def x example_CPU_Store)
  show "Exec example_env (example_info I_ADD 3 3 12 0) c = (kNoneTrap, set_xreg 3 (xreg c 3 + xreg c 12) c)"
    unfolding Exec_op(1) [OF ops(2)] RegTypeExec_def by (simp add: example_info_def reg_val_def write_back_def)
  show "Exec example_env (example_info I_JAL 1 0 0 0) c = (kNoneTrap, set_xreg 1 0x80000004 (c\<lparr>cpu_pc := 0x80000000\<rparr>))"
    unfolding Exec_op(9) [OF ops(3)] JalTypeExec_def
    by (simp add: check_misalign_instr_def example_info_def example_env_def)
qed

lemma jit_example_block_ok: "block_ok example_env jit_example_block example_m"
  by (simp add: jit_example_block_def jit_example_ok jit_example_exec interp_def)


section \<open>Operands that collide\<close>

text \<open>An immediate addition whose source is its destination: the translation moves the immediate into
  the destination first, so the source is lost and twice the immediate is the result.\<close>

lemma jit_addi_in_place:
  assumes host: "a64_host run E" and rel: "jit_rel E s saved h c" and lay: "jit_layout E s"
    and i: "token info = I_ADDI" "rs1 info = rd info" "rd info < 32" "rd info \<noteq> 0" "0 \<le> A64Reg (rd info)"
  shows "\<exists>h'. run (EmitImm E info @ cs) h = run cs h' \<and> jit_rel E s saved h' (set_xreg (rd info) (2 * scast (imm info)) c)"
proof -
  have z: "A64Reg (rd info) \<noteq> kIdZr" using A64Reg_range(1) [OF i(3)] i(4) by simp
  have "setX (A64Reg (rd info)) (2 * scast (imm info)) (setX (A64Reg (rd info)) (scast (imm info)) h) =
      setX (A64Reg (rd info)) (2 * scast (imm info)) (h\<lparr>h_cmp := h_cmp h\<rparr>)"
    using z by (cases h) (simp add: setX_def)
  with z i have "run (EmitImm E info @ cs) h = run cs (setX (A64Reg (rd info)) (2 * scast (imm info)) (h\<lparr>h_cmp := h_cmp h\<rparr>))"
    by (simp add: EmitImm_def SelectA64ImmInstruction_def Let_def a64_host.run_MovI_X [OF host] a64_host.run_Op3_X [OF host])
  with jit_rel_setX [OF rel lay i(3-5)] show ?thesis by blast
qed

text \<open>A store whose base is in \<open>x0\<close>: the immediate overwrites the base before it is added.\<close>

lemma jit_store_base:
  assumes host: "a64_host run E" and "A64Reg (rs1 info) = 0" and "0 \<le> A64Reg (rs2 info)"
    and "gpr h kIdSp = s" and "jit_layout E s"
  shows "\<exists>h'. run (store_setup E info @ cs) h = run cs h' \<and> gpr h' 1 = 2 * scast (imm info)"
proof -
  note laws = a64_host.run_SubI_X [OF host] a64_host.run_Stp [OF host] a64_host.run_Str_X [OF host] a64_host.run_MovI_X [OF host]
    a64_host.run_Op3_X [OF host] a64_host.run_MovR [OF host] a64_host.run_Ldr_X [OF host]
  show ?thesis
    by (rule exI, rule conjI, insert assms(2-4),
        simp add: store_setup_def laws sp_slot_def getX_def setX_def const_defs slot_facts(1-6) [OF assms(5)] slot_simps sub_cancel)
      (simp add: sub_cancel)
qed

end
