(* ===== verification/Fp.thy ===== *)
theory Fp
  imports Rv_Prelude "HOL-Library.Log_Nat"
begin

text \<open>
  The floating-point arithmetic that the sources use for clocks and reports: conversion of
  integers, multiplication, division, narrowing and truncation, in the formats of \<^verbatim>\<open>float\<close> and
  \<^verbatim>\<open>double\<close>, rounded to the nearest value with ties to even. Only numbers that are not negative
  occur, so a value is a rational number, infinity or not a number. The lemmas say that rounding is
  monotone, keeps what the format can represent, and errs by at most half a unit in the last place.
\<close>

section \<open>Rounding\<close>

text \<open>The binary exponent of a positive number.\<close>

definition ilog2 :: "rat \<Rightarrow> int" where
  "ilog2 x = (let (a, b) = quotient_of x; k = bitlen a - bitlen b in if 2 powi k \<le> x then k else k - 1)"

definition round_even :: "rat \<Rightarrow> int" where
  "round_even x = (let n = \<lfloor>x\<rfloor>; r = x - of_int n in
     if r < 1 / 2 \<or> r = 1 / 2 \<and> even n then n else n + 1)"

text \<open>A format: its precision, the exponent of its smallest positive value, and the exponent from which on
  values are infinite.\<close>

record fp_format =
  fp_prec :: nat
  fp_emin :: int
  fp_emax :: int

definition single :: fp_format where
  "single = \<lparr>fp_prec = 24, fp_emin = - 149, fp_emax = 128\<rparr>"

definition double :: fp_format where
  "double = \<lparr>fp_prec = 53, fp_emin = - 1074, fp_emax = 1024\<rparr>"

definition quantum :: "fp_format \<Rightarrow> rat \<Rightarrow> int" where
  "quantum F x = max (ilog2 x - int (fp_prec F) + 1) (fp_emin F)"

definition nearest :: "fp_format \<Rightarrow> rat \<Rightarrow> rat" where
  "nearest F x = (if x \<le> 0 then 0 else of_int (round_even (x / 2 powi quantum F x)) * 2 powi quantum F x)"

section \<open>Operations\<close>

datatype fp = FpFinite rat | FpInf | FpNan

definition fp_round :: "fp_format \<Rightarrow> rat \<Rightarrow> fp" where
  "fp_round F x = (let y = nearest F x in if 2 powi fp_emax F \<le> y then FpInf else FpFinite y)"

definition fp_of_u64 :: "fp_format \<Rightarrow> u64 \<Rightarrow> fp" where
  "fp_of_u64 F w = fp_round F (of_nat (unat w))"

fun fp_mul :: "fp_format \<Rightarrow> fp \<Rightarrow> fp \<Rightarrow> fp" where
  "fp_mul F (FpFinite x) (FpFinite y) = fp_round F (x * y)"
| "fp_mul F (FpFinite x) FpInf = (if x = 0 then FpNan else FpInf)"
| "fp_mul F FpInf (FpFinite y) = (if y = 0 then FpNan else FpInf)"
| "fp_mul F FpInf FpInf = FpInf"
| "fp_mul F _ _ = FpNan"

fun fp_div :: "fp_format \<Rightarrow> fp \<Rightarrow> fp \<Rightarrow> fp" where
  "fp_div F (FpFinite x) (FpFinite y) =
     (if y = 0 then (if x = 0 then FpNan else FpInf) else fp_round F (x / y))"
| "fp_div F (FpFinite x) FpInf = FpFinite 0"
| "fp_div F FpInf (FpFinite y) = FpInf"
| "fp_div F _ _ = FpNan"

fun fp_cast :: "fp_format \<Rightarrow> fp \<Rightarrow> fp" where
  "fp_cast F (FpFinite x) = fp_round F x"
| "fp_cast F v = v"

text \<open>The conversion to an unsigned integer drops the fraction; a value that does not fit is undefined
  behaviour.\<close>

fun fp_to_u64 :: "fp \<Rightarrow> u64 io" where
  "fp_to_u64 (FpFinite x) = (if x < 2 ^ 64 then Done (word_of_int \<lfloor>x\<rfloor>) else Stray)"
| "fp_to_u64 _ = Stray"

section \<open>Properties of rounding\<close>

lemma pow2_pos [simp]: "0 < (2 :: rat) powi k"
  by (simp add: zero_less_power_int)

lemma pow2_mono: "i \<le> j \<Longrightarrow> (2 :: rat) powi i \<le> 2 powi j"
  by (rule power_int_increasing) simp_all

lemma pow2_mono_iff: "(2 :: rat) powi i < 2 powi j \<longleftrightarrow> i < j"
proof
  show "(2 :: rat) powi i < 2 powi j \<Longrightarrow> i < j" using pow2_mono [of j i] by (cases "i < j") simp_all
  show "i < j \<Longrightarrow> (2 :: rat) powi i < 2 powi j" by (rule power_int_strict_increasing) simp_all
qed

lemma pow2_add: "(2 :: rat) powi (i + j) = 2 powi i * 2 powi j"
  by (rule power_int_add) simp

lemma pow2_int: "0 \<le> k \<Longrightarrow> (2 :: rat) powi k = of_int (2 ^ nat k)"
  by (simp add: power_int_nonneg_exp)

lemma pow2_quot: "j \<le> i \<Longrightarrow> (2 :: rat) powi i / 2 powi j = of_int (2 ^ nat (i - j))"
  by (simp add: power_int_diff [symmetric] power_int_nonneg_exp)

lemma ilog2_bounds:
  assumes "0 < x"
  shows "2 powi ilog2 x \<le> x" and "x < 2 powi (ilog2 x + 1)"
proof -
  obtain a b where q: "quotient_of x = (a, b)" by (cases "quotient_of x")
  then have x: "x = of_int a / of_int b" and b: "0 < b" by (auto intro: quotient_of_div quotient_of_denom_pos)
  with assms have a: "0 < a" by (simp add: zero_less_divide_iff)
  have bounds: "(2 :: rat) powi (bitlen c - 1) \<le> of_int c \<and> of_int c < (2 :: rat) powi bitlen c" if "0 < c" for c
  proof -
    have "1 \<le> bitlen c" using that by (simp add: bitlen_alt_def)
    then show ?thesis using bitlen_bounds [OF that] by (simp add: pow2_int del: of_int_power)
  qed
  let ?k = "bitlen a - bitlen b"
  have "x < 2 powi bitlen a / 2 powi (bitlen b - 1)"
    unfolding x using bounds [OF a] bounds [OF b] a b by (intro frac_less) simp_all
  then have hi: "x < 2 powi (?k + 1)" by (simp add: power_int_diff [symmetric] algebra_simps)
  have "2 powi (bitlen a - 1) / 2 powi bitlen b \<le> x"
    unfolding x using bounds [OF a] bounds [OF b] a b by (intro frac_le) simp_all
  then have lo: "2 powi (?k - 1) \<le> x" by (simp add: power_int_diff [symmetric] algebra_simps)
  show "2 powi ilog2 x \<le> x" and "x < 2 powi (ilog2 x + 1)"
    using hi lo by (auto simp: ilog2_def q Let_def)
qed

lemma ilog2_less: "0 < x \<Longrightarrow> x < 2 powi k \<Longrightarrow> ilog2 x < k"
  using le_less_trans [OF ilog2_bounds(1), of x "2 powi k"] by (simp add: pow2_mono_iff)

lemma ilog2_ge:
  assumes "2 powi k \<le> x"
  shows "k \<le> ilog2 x"
proof -
  have "0 < x" using less_le_trans [OF pow2_pos assms] .
  from le_less_trans [OF assms ilog2_bounds(2) [OF this]] show ?thesis by (simp add: pow2_mono_iff)
qed

lemma ilog2_mono: "0 < x \<Longrightarrow> x \<le> y \<Longrightarrow> ilog2 x \<le> ilog2 y"
  by (rule ilog2_ge, rule order_trans [OF ilog2_bounds(1)])

lemma ilog2_pow2 [simp]: "ilog2 (2 powi k) = k"
  using ilog2_ge [of k "2 powi k"] ilog2_less [of "2 powi k" "k + 1"] by (simp add: pow2_mono_iff)

lemma round_even_int [simp]: "round_even (of_int n) = n"
  by (simp add: round_even_def)

lemma round_even_floor: "\<lfloor>x\<rfloor> \<le> round_even x" "round_even x \<le> \<lfloor>x\<rfloor> + 1"
  by (simp_all add: round_even_def Let_def)

lemma round_even_err: "\<bar>of_int (round_even x) - x\<bar> \<le> 1 / 2"
  using floor_correct [of x] by (auto simp: round_even_def Let_def abs_le_iff)

lemma round_even_mono:
  assumes "x \<le> y"
  shows "round_even x \<le> round_even y"
proof (cases "\<lfloor>x\<rfloor> = \<lfloor>y\<rfloor>")
  case True
  with assms show ?thesis by (auto simp: round_even_def Let_def)
next
  case False
  with floor_mono [OF assms] have "\<lfloor>x\<rfloor> + 1 \<le> \<lfloor>y\<rfloor>" by simp
  with round_even_floor(2) [of x] round_even_floor(1) [of y] show ?thesis by linarith
qed

lemma nearest_int:
  assumes "0 < x" and "x / 2 powi quantum F x = of_int n"
  shows "nearest F x = x"
proof -
  have "of_int n * 2 powi quantum F x = x" using assms(2) by (simp add: divide_eq_eq)
  with assms show ?thesis by (simp add: nearest_def)
qed

text \<open>What the format can represent is kept: an integer of at most its precision times a power of two.\<close>

lemma nearest_exact:
  assumes m: "0 \<le> m" "m \<le> 2 ^ fp_prec F" and F: "fp_emin F \<le> k" "0 < fp_prec F"
  shows "nearest F (of_int m * 2 powi k) = of_int m * 2 powi k"
proof (cases "m = 0")
  case True
  then show ?thesis by (simp add: nearest_def)
next
  case False
  let ?x = "of_int m * 2 powi k :: rat"
  from False m have pos: "0 < ?x" by simp
  show ?thesis
  proof (cases "m < 2 ^ fp_prec F")
    case True
    then have "(of_int m :: rat) < of_int (2 ^ fp_prec F)" by (simp only: of_int_less_iff)
    then have "?x < 2 powi (int (fp_prec F) + k)" by (simp add: pow2_add)
    from ilog2_less [OF pos this] have q: "quantum F ?x \<le> k" using F by (simp add: quantum_def)
    have "?x / 2 powi quantum F ?x = of_int (m * 2 ^ nat (k - quantum F ?x))"
      unfolding of_int_mult pow2_quot [OF q, symmetric] by simp
    then show ?thesis by (rule nearest_int [OF pos])
  next
    case False
    with m have eq: "?x = 2 powi (int (fp_prec F) + k)" by (simp add: pow2_add)
    then have "ilog2 ?x = int (fp_prec F) + k" by (simp only: ilog2_pow2)
    then have q: "quantum F ?x = k + 1" using F by (simp add: quantum_def)
    have "?x / 2 powi quantum F ?x = of_int (2 ^ nat (int (fp_prec F) + k - (k + 1)))"
      unfolding q unfolding eq using F by (intro pow2_quot) simp
    then show ?thesis by (rule nearest_int [OF pos])
  qed
qed

lemma nearest_of_int:
  "0 \<le> m \<Longrightarrow> m \<le> 2 ^ fp_prec F \<Longrightarrow> fp_emin F \<le> 0 \<Longrightarrow> 0 < fp_prec F \<Longrightarrow> nearest F (of_int m) = of_int m"
  using nearest_exact [of m F 0] by simp

lemma nearest_pow2: "fp_emin F \<le> k \<Longrightarrow> 0 < fp_prec F \<Longrightarrow> nearest F (2 powi k) = 2 powi k"
  using nearest_exact [of 1 F k] by simp

lemma nearest_nonneg: "0 \<le> nearest F x"
proof -
  have "0 \<le> round_even y" if "0 \<le> y" for y
    using round_even_floor(1) [of y] that by (meson order_trans zero_le_floor)
  then show ?thesis by (simp add: nearest_def)
qed

lemma quantum_mono: "0 < x \<Longrightarrow> x \<le> y \<Longrightarrow> quantum F x \<le> quantum F y"
  using ilog2_mono [of x y] by (simp add: quantum_def max_def)

lemma nearest_mono:
  assumes "x \<le> y" and F: "0 < fp_prec F"
  shows "nearest F x \<le> nearest F y"
proof (cases "x \<le> 0")
  case True
  then show ?thesis using nearest_nonneg by (simp add: nearest_def [of F x])
next
  case False
  with assms have x: "0 < x" and y: "0 < y" by simp_all
  let ?qx = "quantum F x" and ?qy = "quantum F y" and ?B = "(2 :: rat) powi ilog2 y"
  show ?thesis
  proof (cases "?qx = ?qy")
    case True
    have "x / 2 powi ?qy \<le> y / 2 powi ?qy" using assms(1) by (intro divide_right_mono) simp_all
    from round_even_mono [OF this] show ?thesis using x y True by (simp add: nearest_def)
  next
    case False
    with quantum_mono [OF x assms(1), of F] have lt: "?qx < ?qy" by simp
    then have ilog: "ilog2 x < ilog2 y" and qy: "?qy = ilog2 y - int (fp_prec F) + 1"
      by (simp_all add: quantum_def max_def split: if_splits)
    have "x \<le> ?B" using ilog2_bounds(2) [OF x] pow2_mono [of "ilog2 x + 1" "ilog2 y"] ilog by linarith
    then have "x / 2 powi ?qx \<le> ?B / 2 powi ?qx" by (intro divide_right_mono) simp_all
    from round_even_mono [OF this] have "round_even (x / 2 powi ?qx) \<le> 2 ^ nat (ilog2 y - ?qx)"
      using lt qy F by (simp only: pow2_quot [of ?qx "ilog2 y"] round_even_int)
    then have "nearest F x \<le> of_int (2 ^ nat (ilog2 y - ?qx)) * 2 powi ?qx"
      using x by (simp add: nearest_def del: of_int_power)
    also have "\<dots> = ?B" using lt qy F pow2_quot [of ?qx "ilog2 y"] by (simp add: field_simps)
    also have "\<dots> = of_int (2 ^ nat (ilog2 y - ?qy)) * 2 powi ?qy"
      using qy F pow2_quot [of ?qy "ilog2 y"] by (simp add: field_simps)
    also have "\<dots> \<le> nearest F y"
    proof -
      have le: "?qy \<le> ilog2 y" using qy F by simp
      have "?B / 2 powi ?qy \<le> y / 2 powi ?qy" using ilog2_bounds(1) [OF y] by (intro divide_right_mono) simp_all
      from round_even_mono [OF this] have "2 ^ nat (ilog2 y - ?qy) \<le> round_even (y / 2 powi ?qy)"
        using le by (simp only: pow2_quot round_even_int)
      then show ?thesis using y by (simp add: nearest_def del: of_int_power)
    qed
    finally show ?thesis .
  qed
qed

text \<open>The error is relative to the number as long as it is not below the normal range.\<close>

lemma nearest_err:
  assumes "0 \<le> x" and "x = 0 \<or> 2 powi (fp_emin F + int (fp_prec F) - 1) \<le> x"
  shows "\<bar>nearest F x - x\<bar> \<le> x * 2 powi (- int (fp_prec F))"
proof (cases "x = 0")
  case True
  then show ?thesis by (simp add: nearest_def)
next
  case False
  with assms have x: "0 < x" and lo: "2 powi (fp_emin F + int (fp_prec F) - 1) \<le> x" by auto
  let ?q = "2 powi quantum F x :: rat"
  have "nearest F x - x = (of_int (round_even (x / ?q)) - x / ?q) * ?q"
    using x by (simp add: nearest_def algebra_simps)
  then have "\<bar>nearest F x - x\<bar> \<le> 1 / 2 * ?q"
    using round_even_err [of "x / ?q"] by (simp add: abs_mult del: mult_cancel_right)
  also have "quantum F x = ilog2 x - int (fp_prec F) + 1" using ilog2_ge [OF lo] by (simp add: quantum_def)
  also have "1 / 2 * 2 powi (ilog2 x - int (fp_prec F) + 1) = (2 :: rat) powi (ilog2 x - int (fp_prec F))"
    by (simp add: pow2_add)
  also have "\<dots> \<le> x * 2 powi (- int (fp_prec F))"
    using ilog2_bounds(1) [OF x] by (simp add: power_int_diff power_int_minus divide_inverse)
  finally show ?thesis .
qed

text \<open>A bound that the format represents is kept by rounding, and a result below the overflow threshold is finite.\<close>

lemma nearest_le: "x \<le> y \<Longrightarrow> nearest F y = y \<Longrightarrow> 0 < fp_prec F \<Longrightarrow> nearest F x \<le> y"
  using nearest_mono [of x y F] by simp

lemma nearest_ge: "y \<le> x \<Longrightarrow> nearest F y = y \<Longrightarrow> 0 < fp_prec F \<Longrightarrow> y \<le> nearest F x"
  using nearest_mono [of y x F] by simp

lemma fp_round_finite:
  assumes "x \<le> 2 powi k" and "fp_emin F \<le> k" "k < fp_emax F" "0 < fp_prec F"
  shows "fp_round F x = FpFinite (nearest F x)"
proof -
  have "nearest F x \<le> 2 powi k" using assms by (intro nearest_le nearest_pow2)
  then have "nearest F x < 2 powi fp_emax F" using assms(3) le_less_trans pow2_mono_iff by blast
  then show ?thesis by (simp add: fp_round_def Let_def)
qed

lemma formats [simp]:
  "fp_prec single = 24" "fp_emin single = - 149" "fp_emax single = 128"
  "fp_prec double = 53" "fp_emin double = - 1074" "fp_emax double = 1024"
  by (simp_all add: single_def double_def)

lemma u64_le_pow2: "(unsigned (w :: u64) :: rat) \<le> 2 powi 64"
proof -
  have "unat w \<le> 2 ^ 64" using unsigned_less [of w] by (simp add: less_imp_le)
  then have "(of_nat (unat w) :: rat) \<le> of_nat (2 ^ 64)" by (simp only: of_nat_le_iff)
  then show ?thesis by simp
qed

lemma fp_of_u64_finite: "F \<in> {single, double} \<Longrightarrow> fp_of_u64 F w = FpFinite (nearest F (unsigned w))"
  using fp_round_finite [OF u64_le_pow2 [of w], of F] by (auto simp: fp_of_u64_def)

lemma u64_nonneg [simp]: "0 \<le> (unsigned (w :: u64) :: rat)"
  using of_nat_0_le_iff [of "unat w", where 'a = rat] by simp

lemma u64_ge_1: "w \<noteq> 0 \<Longrightarrow> 1 \<le> (unsigned (w :: u64) :: rat)"
proof -
  assume "w \<noteq> 0"
  then have "unat w \<noteq> 0" by (simp add: unat_eq_0)
  then have "(1 :: rat) \<le> of_nat (unat w)" by (simp only: one_of_nat_le_iff)
  then show ?thesis by simp
qed

lemma u64_cases: "(unsigned (w :: u64) :: rat) = 0 \<or> 1 \<le> (unsigned w :: rat)"
  by (cases "w = 0") (simp_all add: u64_ge_1)

lemma u64_mono: "a \<le> b \<Longrightarrow> (unsigned (a :: u64) :: rat) \<le> unsigned b"
  using of_nat_mono [of "unat a" "unat b", where 'a = rat] by (simp add: word_le_nat_alt)

lemma nearest_idem:
  assumes F: "0 < fp_prec F"
  shows "nearest F (nearest F x) = nearest F x"
proof (cases "x \<le> 0")
  case False
  then have x: "0 < x" by simp
  let ?q = "quantum F x" and ?m = "round_even (x / 2 powi quantum F x)"
  have "ilog2 x + 1 \<le> int (fp_prec F) + ?q" by (simp add: quantum_def)
  then have "x \<le> 2 powi (int (fp_prec F) + ?q)" using ilog2_bounds(2) [OF x] pow2_mono [of "ilog2 x + 1"] by fastforce
  then have "x / 2 powi ?q \<le> of_int (2 ^ fp_prec F)" by (simp add: pos_divide_le_eq pow2_add)
  from round_even_mono [OF this] have "?m \<le> 2 ^ fp_prec F" by (simp only: round_even_int)
  moreover have "0 \<le> ?m" using round_even_floor(1) [of "x / 2 powi ?q"] x by (meson less_imp_le order_trans pow2_pos zero_le_divide_iff zero_le_floor)
  ultimately have "nearest F (of_int ?m * 2 powi ?q) = of_int ?m * 2 powi ?q"
    using F by (intro nearest_exact) (simp_all add: quantum_def)
  then show ?thesis using x by (simp add: nearest_def [of F x])
qed (simp add: nearest_def)

text \<open>The share of a part in a whole, in percent.\<close>

lemma fp_percent:
  assumes F: "F \<in> {single, double}" and le: "0 \<le> x" "x \<le> y" "0 < y"
  shows "\<exists>p. fp_mul F (fp_div F (FpFinite x) (FpFinite y)) (FpFinite 100) = FpFinite p \<and> 0 \<le> p \<and> p \<le> 100"
proof -
  have P: "0 < fp_prec F" "fp_emin F \<le> 0" "1 < fp_emax F" "7 < fp_emax F" "fp_emin F \<le> 7" "(100 :: int) \<le> 2 ^ fp_prec F"
    using F by auto
  have ints: "nearest F 1 = 1" "nearest F 100 = 100"
    using nearest_of_int [of 1 F] nearest_of_int [of 100 F] P by auto
  have q: "x / y \<le> 1" using le by simp
  have r: "nearest F (x / y) \<le> 1" by (rule nearest_le [OF q ints(1) P(1)])
  have "fp_div F (FpFinite x) (FpFinite y) = FpFinite (nearest F (x / y))"
    using fp_round_finite [of "x / y" 0 F] q le P by simp
  moreover have "fp_mul F (FpFinite (nearest F (x / y))) (FpFinite 100) = FpFinite (nearest F (nearest F (x / y) * 100))"
    using fp_round_finite [of "nearest F (x / y) * 100" 7 F] r P by simp
  moreover have "nearest F (nearest F (x / y) * 100) \<le> 100" using r by (intro nearest_le [OF _ ints(2) P(1)]) simp
  ultimately show ?thesis using nearest_nonneg by auto
qed

end
