(* ===== verification/Analyzer.thy ===== *)
theory Analyzer
  imports Loader Fp "HOL-Library.Multiset"
begin

text \<open>
  The instruction histogram tool (\<^verbatim>\<open>tools/rv_analyzer/rv_analyzer.cc\<close>). It walks over the executable sections of an ELF
  file, counts for every row of the decoder's table the words that match it, and prints the rows by
  frequency. The map of counters is a list in key order. The standard library's sort does not
  fix the order of equal elements, so it is the interface \<open>std_sort\<close>.
\<close>

section \<open>The tool\<close>

definition kMaxChars :: nat where [const_defs]: "kMaxChars = 40"
definition SHT_PROGBITS :: u32 where [const_defs]: "SHT_PROGBITS = 1"
definition SHF_EXECINSTR :: u64 where [const_defs]: "SHF_EXECINSTR = 4"

text \<open>The index of the first row that matches, \<open>-1\<close> if none does.\<close>

fun find_row :: "int \<Rightarrow> InstDesc list \<Rightarrow> u32 \<Rightarrow> int" where
  "find_row i [] kWord = - 1"
| "find_row i (inst # insts) kWord =
     (if kWord AND desc_mask inst = desc_signature inst then i else find_row (i + 1) insts kWord)"

text \<open>\<^verbatim>\<open>++counter[k]\<close>.\<close>

fun bump :: "int \<Rightarrow> (int \<times> u32) list \<Rightarrow> (int \<times> u32) list" where
  "bump k [] = [(k, 1)]"
| "bump k ((j, v) # counter) =
     (if k < j then (k, 1) # (j, v) # counter
      else if k = j then (j, v + 1) # counter
      else (j, v) # bump k counter)"

text \<open>The loop over the bytes of a section, from offset \<open>p\<close>. The word is read whatever the length of
  the instruction, so the last read of a section may leave its data.\<close>

function count_data :: "u8 list \<Rightarrow> nat \<Rightarrow> nat \<Rightarrow> (int \<times> u32) list \<Rightarrow> (int \<times> u32) list io" where
  "count_data data kSize p counter =
     (if p < kSize then
        (if length data < p + 4 then Stray
         else
           let kInstructionLen = (if data ! p AND 3 = 0 then 2 else 4);
               kWord = le_word (take 4 (drop p data))
           in count_data data kSize (p + kInstructionLen) (bump (find_row 0 kInstTable kWord) counter))
      else Done counter)"
  by pat_completeness auto

termination
  by (relation "measure (\<lambda>(data, kSize, p, counter). kSize - p)") auto

declare count_data.simps [simp del]

definition is_code :: "elf_section \<Rightarrow> bool" where
  "is_code sec \<longleftrightarrow> sec_type sec = SHT_PROGBITS \<and> sec_flags sec AND SHF_EXECINSTR \<noteq> 0"

fun count_sections :: "elf_section list \<Rightarrow> (int \<times> u32) list \<Rightarrow> (int \<times> u32) list io" where
  "count_sections [] counter = Done counter"
| "count_sections (sec # secs) counter =
     (if is_code sec then
        (case count_data (sec_data sec) (unat (sec_size sec)) 0 counter of
           Done counter' \<Rightarrow> count_sections secs counter'
         | Fail \<Rightarrow> Fail
         | Stray \<Rightarrow> Stray)
      else count_sections secs counter)"

record row =
  row_rank :: u32
  row_name :: string
  row_percent :: fp
  row_count :: u32
  row_bar :: nat

text \<open>The share of a row in percent, in single precision.\<close>

definition percent :: "u32 \<Rightarrow> u32 \<Rightarrow> fp" where
  "percent v inst_cnt =
     fp_mul single (fp_div single (fp_of_u64 single (ucast v)) (fp_of_u64 single (ucast inst_cnt))) (FpFinite 100)"

text \<open>The printing loop. The table is indexed even for the key \<open>-1\<close>, and the bar is relative to the
  first count.\<close>

fun print_rows :: "u32 \<Rightarrow> (int \<times> u32) list \<Rightarrow> u32 \<Rightarrow> (int \<times> u32) list \<Rightarrow> row list io" where
  "print_rows inst_cnt counter_vec rank [] = Done []"
| "print_rows inst_cnt counter_vec rank ((k, v) # kvs) =
     (if k < 0 \<or> int (length kInstTable) \<le> k \<or> snd (counter_vec ! 0) = 0 then Stray
      else
        case print_rows inst_cnt counter_vec (rank + 1) kvs of
          Done rows \<Rightarrow>
            Done (\<lparr>row_rank = rank + 1, row_name = desc_name (kInstTable ! nat k), row_percent = percent v inst_cnt, row_count = v,
                   row_bar = unat v * (kMaxChars - 1) div unat (snd (counter_vec ! 0))\<rparr> # rows)
        | Fail \<Rightarrow> Fail
        | Stray \<Rightarrow> Stray)"

text \<open>The number of instructions, and the rows that are printed.\<close>

definition analyze :: "((int \<times> u32) list \<Rightarrow> (int \<times> u32) list) \<Rightarrow> elf \<Rightarrow> (u32 \<times> row list) io" where
  "analyze sort_vec reader =
     (case count_sections (elf_sections reader) [] of
        Done counter \<Rightarrow>
          let inst_cnt = fold (\<lambda>(k, v) n. n + v) counter 0; counter_vec = sort_vec counter
          in (case print_rows inst_cnt counter_vec 0 counter_vec of
                Done rows \<Rightarrow> Done (inst_cnt, rows)
              | Fail \<Rightarrow> Fail
              | Stray \<Rightarrow> Stray)
      | Fail \<Rightarrow> Fail
      | Stray \<Rightarrow> Stray)"

text \<open>The program: its status, and what it prints below the heading.\<close>

definition analyzer_main :: "((int \<times> u32) list \<Rightarrow> (int \<times> u32) list) \<Rightarrow> nat \<Rightarrow> elf \<Rightarrow> (int \<times> row list) io" where
  "analyzer_main sort_vec argc reader =
     (if argc \<noteq> 2 then Done (1, []) else map_io (\<lambda>(inst_cnt, rows). (0, rows)) (analyze sort_vec reader))"

section \<open>Sorting\<close>

locale std_sort =
  fixes sort_vec :: "(int \<times> u32) list \<Rightarrow> (int \<times> u32) list"
  assumes perm: "mset (sort_vec xs) = mset xs"
    and ordered: "sorted_wrt (\<lambda>p q. snd q \<le> snd p) (sort_vec xs)"
begin

lemma same_set: "set (sort_vec xs) = set xs"
  by (metis perm set_mset_mset)

lemma same_sum: "sum_list (map f (sort_vec xs)) = (sum_list (map f xs) :: nat)"
  by (metis mset_map perm sum_mset_sum_list)

end

definition by_count :: "(int \<times> u32) list \<Rightarrow> (int \<times> u32) list" where
  "by_count xs = sort_key (\<lambda>p. - uint (snd p)) xs"

interpretation by_count: std_sort by_count
proof
  fix xs
  show "mset (by_count xs) = mset xs" by (simp add: by_count_def)
  have "sorted (map (\<lambda>p. - uint (snd p)) (by_count xs))" by (simp add: by_count_def)
  then show "sorted_wrt (\<lambda>p q. snd q \<le> snd p) (by_count xs)" by (simp add: sorted_wrt_map word_le_def)
qed

section \<open>The words of the sections\<close>

text \<open>The words of a section, as a function of the bytes that are left.\<close>

function scan :: "nat \<Rightarrow> u8 list \<Rightarrow> u32 list option" where
  "scan n bs =
     (if n = 0 then Some []
      else if length bs < 4 then None
      else
        let l = (if hd bs AND 3 = 0 then 2 else 4)
        in case scan (n - l) (drop l bs) of None \<Rightarrow> None | Some ws \<Rightarrow> Some (le_word (take 4 bs) # ws))"
  by pat_completeness auto

termination
  by (relation "measure fst") auto

declare scan.simps [simp del]

fun exec_words :: "elf_section list \<Rightarrow> u32 list option" where
  "exec_words [] = Some []"
| "exec_words (sec # secs) =
     (if is_code sec then
        (case (scan (unat (sec_size sec)) (sec_data sec), exec_words secs) of
           (Some ws, Some vs) \<Rightarrow> Some (ws @ vs)
         | _ \<Rightarrow> None)
      else exec_words secs)"

abbreviation row_of :: "u32 \<Rightarrow> int" where
  "row_of \<equiv> find_row 0 kInstTable"

lemma count_data_scan:
  "scan (kSize - p) (drop p data) = Some ws \<Longrightarrow>
     count_data data kSize p counter = Done (fold bump (map row_of ws) counter)"
proof (induction data kSize p counter arbitrary: ws rule: count_data.induct)
  case (1 data kSize p counter)
  show ?case
  proof (cases "p < kSize")
    case False
    with 1(2) have "ws = []" by (simp add: scan.simps)
    with False show ?thesis by (simp add: count_data.simps)
  next
    case True
    let ?l = "if data ! p AND 3 = 0 then 2 else 4 :: nat"
    from True 1(2) have len: "\<not> length data < p + 4"
      by (subst (asm) scan.simps) (simp add: Let_def split: if_splits)
    then have hd: "hd (drop p data) = data ! p" by (simp add: hd_drop_conv_nth)
    from True len 1(2) obtain vs where vs: "scan (kSize - (p + ?l)) (drop (p + ?l) data) = Some vs"
      "ws = le_word (take 4 (drop p data)) # vs"
      by (subst (asm) scan.simps) (auto simp: Let_def hd add.commute split: option.splits if_splits)
    from 1(1) [OF True len refl refl, of vs] vs(1)
    have "count_data data kSize (p + ?l) (bump (row_of (le_word (take 4 (drop p data)))) counter) =
        Done (fold bump (map row_of vs) (bump (row_of (le_word (take 4 (drop p data)))) counter))" by simp
    with True len vs(2) show ?thesis by (subst count_data.simps) (simp add: Let_def)
  qed
qed

lemma count_sections_words:
  "exec_words secs = Some ws \<Longrightarrow> count_sections secs counter = Done (fold bump (map row_of ws) counter)"
proof (induction secs arbitrary: ws counter)
  case (Cons sec secs)
  show ?case
  proof (cases "is_code sec")
    case True
    with Cons.prems obtain us vs where "scan (unat (sec_size sec)) (sec_data sec) = Some us"
      "exec_words secs = Some vs" "ws = us @ vs" by (auto split: option.splits)
    with Cons.IH True count_data_scan [of _ 0] show ?thesis by simp
  qed (use Cons in simp)
qed simp

section \<open>The counters\<close>

lemma bump_keys: "fst ` set (bump k counter) = insert k (fst ` set counter)"
  by (induction k counter rule: bump.induct) auto

lemma bump_sorted: "sorted_wrt (<) (map fst counter) \<Longrightarrow> sorted_wrt (<) (map fst (bump k counter))"
proof (induction k counter rule: bump.induct)
  case (2 k j v counter)
  then show ?case using bump_keys [of k counter] by (auto simp: image_iff)
qed simp

lemma bump_value: "map_of (bump k counter) = (map_of counter)(k := Some (case map_of counter k of None \<Rightarrow> 1 | Some v \<Rightarrow> v + 1))"
  if "sorted_wrt (<) (map fst counter)"
  using that
proof (induction k counter rule: bump.induct)
  case (2 k j v counter)
  have "map_of counter k = None" if "k < j"
    using 2(2) that by (force simp: map_of_eq_None_iff)
  with 2 show ?case by (auto simp: fun_eq_iff)
qed (simp add: fun_eq_iff)

lemma counters_sorted: "sorted_wrt (<) (map fst counter) \<Longrightarrow> sorted_wrt (<) (map fst (fold bump ks counter))"
  by (induction ks arbitrary: counter) (simp_all add: bump_sorted)

lemma counters_value:
  "map_of (fold bump ks []) k = (if k \<in> set ks then Some (of_nat (count_list ks k)) else None)"
proof (induction ks rule: rev_induct)
  case (snoc j ks)
  have "sorted_wrt (<) (map fst (fold bump ks []))" by (rule counters_sorted) simp
  with snoc show ?case by (auto simp: bump_value count_list_0_iff)
qed simp

lemma counters_set:
  "(k, v) \<in> set (fold bump ks []) \<longleftrightarrow> k \<in> set ks \<and> v = of_nat (count_list ks k)"
proof -
  have "distinct (map fst (fold bump ks []))"
    using counters_sorted [of "[]" ks] by (simp add: strict_sorted_iff)
  then have "(k, v) \<in> set (fold bump ks []) \<longleftrightarrow> map_of (fold bump ks []) k = Some v" by simp
  also have "\<dots> \<longleftrightarrow> k \<in> set ks \<and> v = of_nat (count_list ks k)" by (auto simp: counters_value)
  finally show ?thesis .
qed

lemma counters_sum:
  assumes "length ks < 2 ^ 32"
  shows "sum_list (map (\<lambda>p. unat (snd p)) (fold bump ks [])) = length ks"
proof -
  have d: "distinct (map fst (fold bump ks []))"
    using counters_sorted [of "[]" ks] by (simp add: strict_sorted_iff)
  have keys: "fst ` set (fold bump ks []) = set ks"
    using counters_set by (force simp: image_iff)
  have small: "unat (of_nat (count_list ks k) :: u32) = count_list ks k" for k
    using count_le_length [of ks k] assms by (simp add: unsigned_of_nat take_bit_eq_mod)
  have "sum_list (map (\<lambda>p. unat (snd p)) (fold bump ks [])) = sum_list (map (\<lambda>p. count_list ks (fst p)) (fold bump ks []))"
    using counters_set small by (intro arg_cong [where f = sum_list] map_cong) auto
  also have "\<dots> = sum_list (map (count_list ks) (map fst (fold bump ks [])))" by (simp add: comp_def)
  also have "\<dots> = sum (count_list ks) (set ks)" using d keys by (subst sum_list_distinct_conv_sum_set) auto
  also have "\<dots> = length ks" by (simp add: sum_count_set)
  finally show ?thesis .
qed

lemma fold_total: "fold (\<lambda>(k, v) n. n + v) counter (n :: u32) = n + of_nat (sum_list (map (\<lambda>p. unat (snd p)) counter))"
  by (induction counter arbitrary: n) (auto simp: algebra_simps)

section \<open>The rows\<close>

lemma find_row_token:
  "find_row i insts w = - 1 \<or> i \<le> find_row i insts w \<and> find_row i insts w < i + int (length insts) \<and>
     desc_token (insts ! nat (find_row i insts w - i)) = first_match insts w" if "0 \<le> i"
  using that
proof (induction i insts w rule: find_row.induct)
  case (2 i inst insts w)
  then show ?case by (auto simp: nth_Cons' nat_diff_distrib nat_add_distrib)
qed simp

lemma print_rows_Done:
  assumes "\<forall>p \<in> set kvs. 0 \<le> fst p \<and> fst p < int (length kInstTable)" and "snd (vec ! 0) \<noteq> 0"
  shows "\<exists>rows. print_rows tot vec rank kvs = Done rows \<and> length rows = length kvs \<and>
    map (\<lambda>r. (row_name r, row_count r)) rows = map (\<lambda>p. (desc_name (kInstTable ! nat (fst p)), snd p)) kvs \<and>
    map row_rank rows = map (\<lambda>i. rank + 1 + of_nat i) [0..<length kvs] \<and>
    (\<forall>r \<in> set rows. row_bar r = unat (row_count r) * 39 div unat (snd (vec ! 0)) \<and> row_percent r = percent (row_count r) tot)"
  using assms
proof (induction tot vec rank kvs rule: print_rows.induct)
  case (2 tot vec rank k v kvs)
  from 2(2) have k: "\<not> (k < 0 \<or> int (length kInstTable) \<le> k \<or> snd (vec ! 0) = 0)" using 2(3) by auto
  from 2(1) [OF k] 2(2,3) obtain rows where rows: "print_rows tot vec (rank + 1) kvs = Done rows" "length rows = length kvs"
    "map (\<lambda>r. (row_name r, row_count r)) rows = map (\<lambda>p. (desc_name (kInstTable ! nat (fst p)), snd p)) kvs"
    "map row_rank rows = map (\<lambda>i. rank + 1 + 1 + of_nat i) [0..<length kvs]"
    "\<forall>r \<in> set rows. row_bar r = unat (row_count r) * 39 div unat (snd (vec ! 0)) \<and> row_percent r = percent (row_count r) tot" by auto
  have "map (\<lambda>i. rank + 1 + of_nat i :: u32) [0..<Suc (length kvs)] = (rank + 1) # map (\<lambda>i. rank + 1 + 1 + of_nat i) [0..<length kvs]"
    by (simp add: upt_conv_Cons map_Suc_upt [symmetric] comp_def add.assoc del: upt_Suc)
  with k rows show ?case by (simp add: kMaxChars_def del: upt_Suc)
qed simp

lemma percent_bounds:
  assumes "v \<le> tot" and "v \<noteq> 0"
  shows "\<exists>p. percent v tot = FpFinite p \<and> 0 \<le> p \<and> p \<le> 100"
proof -
  have "tot \<noteq> 0" using assms by auto
  with assms have "(ucast v :: u64) \<le> ucast tot" "(ucast tot :: u64) \<noteq> 0"
    by (simp_all add: word_le_nat_alt unsigned_ucast_eq word_unat_eq_iff)
  then have "nearest single (unsigned (ucast v :: u64)) \<le> nearest single (unsigned (ucast tot :: u64))"
    "1 \<le> nearest single (unsigned (ucast tot :: u64))"
    using nearest_mono [OF u64_mono, of _ _ single] nearest_ge [OF u64_ge_1, of _ single] nearest_of_int [of 1 single]
    by (simp_all only: formats) simp_all
  then show ?thesis
    unfolding percent_def using fp_percent [of single] nearest_nonneg by (simp add: fp_of_u64_finite)
qed

lemma bar_bound: "a \<le> m \<Longrightarrow> a * 39 div m \<le> (39 :: nat)"
proof -
  assume "a \<le> m"
  then have "a * 39 div m \<le> m * 39 div m" by (intro div_le_mono) simp
  also have "\<dots> \<le> 39" by (cases "m = 0") simp_all
  finally show ?thesis .
qed

lemma sorted_map: "map f xs = map g ys \<Longrightarrow> sorted_wrt (\<lambda>p q. g q \<le> g p) ys \<Longrightarrow> sorted_wrt (\<lambda>p q. f q \<le> f p) xs"
  using sorted_wrt_map [of "\<lambda>a b. b \<le> a" f xs] sorted_wrt_map [of "\<lambda>a b. b \<le> a" g ys] by simp

text \<open>The printing loop on a list in decreasing order of positive counts.\<close>

lemma print_rows_sorted:
  assumes keys: "\<forall>p \<in> set vec. 0 \<le> fst p \<and> fst p < int (length kInstTable) \<and> snd p \<noteq> 0"
    and sorted: "sorted_wrt (\<lambda>p q. snd q \<le> snd p) vec"
  shows "\<exists>rows. print_rows tot vec 0 vec = Done rows \<and>
    map (\<lambda>r. (row_name r, row_count r)) rows = map (\<lambda>p. (desc_name (kInstTable ! nat (fst p)), snd p)) vec \<and>
    sorted_wrt (\<lambda>r q. row_count q \<le> row_count r) rows \<and>
    map row_rank rows = map (\<lambda>i. 1 + of_nat i) [0..<length rows] \<and>
    (\<forall>r \<in> set rows. row_bar r \<le> 39 \<and> row_count r \<noteq> 0 \<and> row_percent r = percent (row_count r) tot)"
proof (cases vec)
  case (Cons p ps)
  with keys have "snd (vec ! 0) \<noteq> 0" "\<forall>p \<in> set vec. 0 \<le> fst p \<and> fst p < int (length kInstTable)" by auto
  from print_rows_Done [OF this(2,1), of tot 0] obtain rows where rows: "print_rows tot vec 0 vec = Done rows" "length rows = length vec"
    "map (\<lambda>r. (row_name r, row_count r)) rows = map (\<lambda>p. (desc_name (kInstTable ! nat (fst p)), snd p)) vec"
    "map row_rank rows = map (\<lambda>i. 1 + of_nat i) [0..<length rows]"
    "\<forall>r \<in> set rows. row_bar r = unat (row_count r) * 39 div unat (snd (vec ! 0)) \<and> row_percent r = percent (row_count r) tot" by auto
  have counts: "map row_count rows = map snd vec"
    using arg_cong [OF rows(3), of "map snd"] by (simp add: comp_def)
  have "row_bar r \<le> 39 \<and> row_count r \<noteq> 0" if "r \<in> set rows" for r
  proof -
    from that counts have r: "row_count r \<in> snd ` set vec" by (metis image_eqI set_map)
    with Cons sorted have "row_count r \<le> snd (vec ! 0)" by auto
    then show ?thesis using rows(5) that keys r by (auto simp: word_le_nat_alt bar_bound)
  qed
  with rows sorted_map [OF counts sorted] show ?thesis by blast
qed simp


definition analyzer_example :: elf where
  "analyzer_example = \<lparr>elf_validate = [], elf_segments = [], elf_sections =
     [\<lparr>sec_type = 1, sec_flags = 6, sec_size = 12, sec_data = [0x13, 0, 0, 0, 0x03, 0x30, 0, 0, 0x13, 0, 0, 0],
       sec_address = 0, sec_name_offset = 0\<rparr>], elf_shstrndx = 0, elf_string = (\<lambda>_ _. None)\<rparr>"


end
