(* ===== verification/Host_Clock.thy ===== *)
theory Host_Clock
  imports Fp Clint
begin

text \<open>
  The guest's clock and the other helpers that read the host (\<^verbatim>\<open>src/libs/utils.cc\<close>, \<^verbatim>\<open>include/libs/utils.h\<close>): the time stamp
  counter, its frequency, the guest time scaled from them in floating point, the speed report and the
  random numbers of the tests. What the processor instructions deliver is a value of \<open>host_cpu\<close>.
\<close>

section \<open>Operations\<close>

text \<open>The host the program is compiled for, with what its counter registers hold: the two halves of the time stamp on
  x86-64, the virtual counter and its frequency on AArch64.\<close>

datatype host_cpu = X86_64 u32 u32 | AArch64 u64 u64 | OtherHost

fun ReadHostTimeStamp :: "host_cpu \<Rightarrow> u64" where
  "ReadHostTimeStamp (X86_64 low high) = push_bit 32 (ucast high) OR ucast low"
| "ReadHostTimeStamp (AArch64 cntvct_el0 cntfrq_el0) = cntvct_el0"
| "ReadHostTimeStamp OtherHost = 0"

fun ReadFreq :: "host_cpu \<Rightarrow> u64" where
  "ReadFreq (X86_64 low high) = 2500000000"
| "ReadFreq (AArch64 cntvct_el0 cntfrq_el0) = cntfrq_el0"
| "ReadFreq OtherHost = 0"

definition kMtimeFreq :: u64 where [const_defs]: "kMtimeFreq = 10000000"

definition GetFreqDivCoeff :: "host_cpu \<Rightarrow> fp" where
  "GetFreqDivCoeff h =
     fp_div double (fp_of_u64 double kMtimeFreq) (fp_mul double (fp_of_u64 double (ReadFreq h)) (FpFinite 1))"

text \<open>The coefficient is a static variable: the first call computes it and the later ones reuse it.\<close>

definition ReadGuestTimeStamp :: "fp option \<Rightarrow> host_cpu \<Rightarrow> u64 io \<times> fp option" where
  "ReadGuestTimeStamp freq_div_coeff h =
     (let coeff = (case freq_div_coeff of None \<Rightarrow> GetFreqDivCoeff h | Some c \<Rightarrow> c);
          host_ts = ReadHostTimeStamp h
      in (fp_to_u64 (fp_mul double (fp_of_u64 double host_ts) coeff), Some coeff))"

text \<open>Millions of instructions per second, from the nanoseconds that passed.\<close>

definition GetMips :: "u64 \<Rightarrow> u64 \<Rightarrow> fp" where
  "GetMips elapsed_ns insret_cnt =
     (let kDurationUs = elapsed_ns div 1000
      in fp_div single (fp_of_u64 single insret_cnt) (fp_of_u64 single kDurationUs))"

text \<open>\<^verbatim>\<open>RandomGenerator<uint64_t>::Get\<close> with bounds, for the number that the distribution draws; a zero divisor is
  undefined behaviour.\<close>

definition RandomGenerator_Get :: "u64 \<Rightarrow> u64 \<Rightarrow> u64 \<Rightarrow> u64 io" where
  "RandomGenerator_Get res rmin rmax =
     (if rmax - rmin + 1 = 0 then Stray else Done (res mod (rmax - rmin + 1) + rmin))"

section \<open>The guest's clock\<close>

text \<open>One tick of the guest in the host's ticks, as it is rounded.\<close>

definition guest_rate :: "u64 \<Rightarrow> rat" where
  "guest_rate f = nearest double (10000000 / nearest double (unsigned f))"

definition guest_time :: "u64 \<Rightarrow> u64 \<Rightarrow> rat" where
  "guest_time f ts = nearest double (nearest double (unsigned ts) * guest_rate f)"

lemma concat_less: "(a :: nat) < 2 ^ 32 \<Longrightarrow> b < 2 ^ 32 \<Longrightarrow> a * 2 ^ 32 + b < 2 ^ 64"
  by simp

lemma x86_time_stamp: "unat (ReadHostTimeStamp (X86_64 low high)) = unat high * 2 ^ 32 + unat low"
proof -
  have low: "\<not> (32 \<le> n \<and> bit low n)" for n using bit_imp_le_length [of low n] by auto
  have b: "unat high < 2 ^ 32" "unat low < 2 ^ 32" 
    using unsigned_less [of high, where 'a = nat] unsigned_less [of low, where 'a = nat] by simp_all
  have "push_bit 32 (ucast high :: u64) OR ucast low = push_bit 32 (ucast high) + ucast low"
    by (rule disjunctive_add_eq_or [symmetric]) (use low in \<open>auto intro!: bit_word_eqI simp: bit_simps\<close>)
  moreover have "unat (push_bit 32 (ucast high :: u64)) = unat high * 2 ^ 32"
    using b by (simp add: push_bit_eq_mult unat_word_ariths unsigned_ucast_eq)
  moreover note concat_less [OF b]
  ultimately show ?thesis by (simp add: unat_word_ariths unsigned_ucast_eq)
qed

lemma nearest_u64: "unat f \<le> 2 ^ 53 \<Longrightarrow> nearest double (unsigned f) = unsigned f"
  using nearest_of_int [of "uint f" double] by (simp add: uint_nat del: of_nat_unat) simp

lemma nearest_double_err:
  assumes "0 \<le> x" and "x = 0 \<or> 2 powi - 30 \<le> x"
  shows "\<bar>nearest double x - x\<bar> \<le> x * 2 powi - 53"
proof -
  have "x = 0 \<or> 2 powi (fp_emin double + int (fp_prec double) - 1) \<le> x"
    using assms(2) order_trans [OF pow2_mono, of "fp_emin double + int (fp_prec double) - 1" "- 30" x] by auto
  from nearest_err [OF assms(1) this] show ?thesis by simp
qed

lemma guest_rate_bounds:
  assumes "10000000 < unat f" and "unat f \<le> 2 ^ 53"
  shows "0 < guest_rate f" and "guest_rate f \<le> 1 - 2 powi - 53" and guest_rate_ge: "2 powi - 30 \<le> guest_rate f"
    and "\<bar>guest_rate f - 10000000 / unsigned f\<bar> \<le> 10000000 / unsigned f * 2 powi - 53"
proof -
  let ?f = "unsigned f :: rat" and ?q = "10000000 / unsigned f :: rat"
  have f: "10000001 \<le> ?f" "?f \<le> 2 ^ 53"
    using assms of_nat_mono [of 10000001 "unat f", where 'a = rat] of_nat_mono [of "unat f" "2 ^ 53", where 'a = rat] by simp_all
  have r: "guest_rate f = nearest double ?q" by (simp add: guest_rate_def nearest_u64 [OF assms(2)])
  have lo: "2 powi - 30 \<le> ?q" using f by (simp add: pos_le_divide_eq)
  have ge: "2 powi - 30 \<le> guest_rate f" unfolding r using nearest_ge [OF lo, of double] nearest_pow2 [of double "- 30"] by simp
  then show "2 powi - 30 \<le> guest_rate f" .
  from ge show "0 < guest_rate f" by (rule less_le_trans [OF pow2_pos])
  have one: "nearest double (1 - 2 powi - 53) = 1 - 2 powi - 53"
    using nearest_exact [of "2 ^ 53 - 1" double "- 53"] by simp
  have "?q \<le> 1 - 2 powi - 53" using f by (simp add: pos_divide_le_eq)
  from nearest_le [OF this one] show "guest_rate f \<le> 1 - 2 powi - 53" unfolding r by simp
  show "\<bar>guest_rate f - ?q\<bar> \<le> ?q * 2 powi - 53" unfolding r using lo f(1) by (intro nearest_double_err) (simp_all only: zero_le_divide_iff, auto)
qed

lemma nearest_u64_le: "nearest double (unsigned (ts :: u64)) \<le> 2 powi 64"
  by (rule nearest_le [OF u64_le_pow2 nearest_pow2]) simp_all

lemma guest_time_mono:
  assumes f: "10000000 < unat f" "unat f \<le> 2 ^ 53" and "ts \<le> ts'"
  shows "guest_time f ts \<le> guest_time f ts'"
proof -
  have "nearest double (unsigned ts) \<le> nearest double (unsigned ts')" by (rule nearest_mono [OF u64_mono [OF assms(3)]]) simp
  then have "nearest double (unsigned ts) * guest_rate f \<le> nearest double (unsigned ts') * guest_rate f"
    using guest_rate_bounds(1) [OF f] by (intro mult_right_mono) simp_all
  then show ?thesis unfolding guest_time_def by (rule nearest_mono) simp
qed

lemma guest_product_le:
  assumes f: "10000000 < unat f" "unat f \<le> 2 ^ 53"
  shows "nearest double (unsigned (ts :: u64)) * guest_rate f \<le> of_int (2 ^ 53 - 1) * 2 powi 11"
proof -
  have "nearest double (unsigned ts) * guest_rate f \<le> 2 powi 64 * (1 - 2 powi - 53)"
    using guest_rate_bounds(1,2) [OF f] nearest_u64_le [of ts] nearest_nonneg by (intro mult_mono) simp_all
  then show ?thesis by simp
qed

lemma guest_time_less:
  assumes f: "10000000 < unat f" "unat f \<le> 2 ^ 53"
  shows "0 \<le> guest_time f ts" and "guest_time f ts < 2 ^ 64"
proof -
  have "guest_time f ts \<le> of_int (2 ^ 53 - 1) * 2 powi 11"
    unfolding guest_time_def by (rule nearest_le [OF guest_product_le [OF f] nearest_exact]) simp_all
  then show "guest_time f ts < 2 ^ 64" by simp
qed (simp add: guest_time_def nearest_nonneg)

text \<open>Three roundings: of the counter, of the rate and of their product.\<close>

lemma product_err:
  fixes t t' q c p u :: rat
  assumes "0 \<le> t" "0 \<le> q" "0 \<le> u" "u \<le> 1 / 8" and "\<bar>t' - t\<bar> \<le> t * u" "\<bar>c - q\<bar> \<le> q * u" "\<bar>p - t' * c\<bar> \<le> t' * c * u"
  shows "\<bar>p - t * q\<bar> \<le> t * q * (4 * u)"
proof -
  have c: "c \<le> q * (1 + u)" "q * (1 - u) \<le> c" and t': "t' \<le> t * (1 + u)" "t * (1 - u) \<le> t'"
    using assms(5,6) by (simp_all add: abs_le_iff algebra_simps)
  have t'0: "0 \<le> t'" using order_trans [OF mult_nonneg_nonneg t'(2)] assms(1,4) by simp
  have c0: "0 \<le> c" using order_trans [OF mult_nonneg_nonneg c(2)] assms(2,4) by simp
  have "t' * c \<le> t' * (q * (1 + u))" using c t'0 by (intro mult_left_mono)
  also have "\<dots> \<le> t * (1 + u) * (q * (1 + u))" using t'(1) assms(2,3) by (intro mult_right_mono) simp_all
  finally have "t' * c * u \<le> t * (1 + u) * (q * (1 + u)) * u" using assms(3) by (rule mult_right_mono)
  then have "t' * c * u \<le> t * q * u * (1 + u) ^ 2" by (simp add: power2_eq_square mult_ac)
  moreover have "\<bar>(t' - t) * c\<bar> \<le> t * u * (q * (1 + u))"
    unfolding abs_mult using assms c c0 by (intro mult_mono) simp_all
  moreover have "\<bar>t * (c - q)\<bar> \<le> t * (q * u)"
    unfolding abs_mult using assms by (simp add: mult_left_mono)
  moreover have "p - t * q = (p - t' * c) + (t' - t) * c + t * (c - q)" by (simp add: algebra_simps)
  ultimately have "\<bar>p - t * q\<bar> \<le> t * q * u * (1 + u) ^ 2 + t * u * (q * (1 + u)) + t * (q * u)"
    using assms(7) by linarith
  also have "\<dots> = t * q * u * ((1 + u) ^ 2 + (1 + u) + 1)" by (simp add: algebra_simps)
  also have "\<dots> \<le> t * q * u * 4"
  proof (rule mult_left_mono)
    have "u * u \<le> 1 / 8 * (1 / 8)" using assms(3,4) by (intro mult_mono) simp_all
    then show "(1 + u) ^ 2 + (1 + u) + 1 \<le> 4" using assms(4) by (simp add: power2_eq_square algebra_simps)
  qed (use assms in simp)
  finally show ?thesis by (simp add: mult_ac)
qed


lemma guest_time_err:
  assumes f: "10000000 < unat f" "unat f \<le> 2 ^ 53"
  shows "\<bar>guest_time f ts - unsigned ts * (10000000 / unsigned f)\<bar> \<le> unsigned ts * (10000000 / unsigned f) * 2 powi - 51"
proof -
  let ?t = "unsigned ts :: rat" and ?t' = "nearest double (unsigned ts)" and ?c = "guest_rate f"
  have t: "\<bar>?t' - ?t\<bar> \<le> ?t * 2 powi - 53" using u64_cases [of ts] by (intro nearest_double_err) auto
  have "2 powi - 30 \<le> ?t' * ?c" if "1 \<le> ?t"
  proof -
    have "1 \<le> ?t'" using that nearest_of_int [of 1 double] by (intro nearest_ge) simp_all
    moreover have "2 powi - 30 \<le> ?c" by (rule guest_rate_ge [OF f])
    ultimately show ?thesis using mult_mono [of 1 ?t' "2 powi - 30" ?c] by simp
  qed
  then have "?t' * ?c = 0 \<or> 2 powi - 30 \<le> ?t' * ?c" using u64_cases [of ts] by (auto simp: nearest_def)
  then have "\<bar>guest_time f ts - ?t' * ?c\<bar> \<le> ?t' * ?c * 2 powi - 53"
    unfolding guest_time_def using nearest_nonneg guest_rate_bounds(1) [OF f] by (intro nearest_double_err) simp_all
  from product_err [OF _ _ _ _ t guest_rate_bounds(4) [OF f] this] show ?thesis by simp
qed

lemma GetFreqDivCoeff_finite:
  assumes f: "10000000 < unat (ReadFreq h)" "unat (ReadFreq h) \<le> 2 ^ 53"
  shows "GetFreqDivCoeff h = FpFinite (guest_rate (ReadFreq h))"
proof -
  let ?f = "unsigned (ReadFreq h) :: rat"
  have le: "?f \<le> 2 powi 64" by (rule u64_le_pow2)
  have "?f \<noteq> 0" using f(1) by (metis not_less_zero unsigned_eq_0_iff unsigned_0)
  moreover have "10000000 / ?f \<le> 2 powi 64"
  proof -
    have "10000001 \<le> ?f" using f(1) of_nat_mono [of 10000001 "unat (ReadFreq h)", where 'a = rat] by simp
    then show ?thesis by (simp add: pos_divide_le_eq)
  qed
  moreover have "nearest double 10000000 = 10000000" using nearest_of_int [of 10000000 double] by simp
  ultimately show ?thesis
    by (simp add: GetFreqDivCoeff_def fp_of_u64_finite kMtimeFreq_def nearest_u64 [OF f(2)] fp_round_finite [OF le]
        fp_round_finite [where k = 64] guest_rate_def)
qed

lemma ReadGuestTimeStamp_Done:
  assumes f: "10000000 < unat (ReadFreq h)" "unat (ReadFreq h) \<le> 2 ^ 53"
    and c: "coeff = None \<or> coeff = Some (FpFinite (guest_rate (ReadFreq h)))"
  shows "ReadGuestTimeStamp coeff h =
    (Done (word_of_int \<lfloor>guest_time (ReadFreq h) (ReadHostTimeStamp h)\<rfloor>), Some (FpFinite (guest_rate (ReadFreq h))))"
proof -
  have c': "(case coeff of None \<Rightarrow> GetFreqDivCoeff h | Some c \<Rightarrow> c) = FpFinite (guest_rate (ReadFreq h))"
    using c GetFreqDivCoeff_finite [OF f] by auto
  have le: "nearest double (unsigned (ReadHostTimeStamp h)) * guest_rate (ReadFreq h) \<le> 2 powi 64"
    using guest_product_le [OF f, of "ReadHostTimeStamp h"] by simp
  show ?thesis
    unfolding ReadGuestTimeStamp_def Let_def c'
    using guest_time_less(2) [OF f] by (simp add: fp_of_u64_finite fp_round_finite [OF le] guest_time_def)
qed

lemma abs_diff_trans: "\<bar>a - b\<bar> \<le> x \<Longrightarrow> \<bar>b - c\<bar> \<le> y \<Longrightarrow> \<bar>a - c\<bar> \<le> x + (y :: rat)"
  by simp

lemma floor_u64:
  assumes "0 \<le> x" and "x < 2 ^ 64"
  shows "(unsigned (word_of_int \<lfloor>x\<rfloor> :: u64) :: rat) = of_int \<lfloor>x\<rfloor>" and "uint (word_of_int \<lfloor>x\<rfloor> :: u64) = \<lfloor>x\<rfloor>"
proof -
  have "0 \<le> \<lfloor>x\<rfloor>" "\<lfloor>x\<rfloor> < 2 ^ 64" using assms by (simp_all add: floor_less_iff)
  then show u: "uint (word_of_int \<lfloor>x\<rfloor> :: u64) = \<lfloor>x\<rfloor>" by (simp add: unsigned_of_int take_bit_int_eq_self)
  have "(unsigned (word_of_int \<lfloor>x\<rfloor> :: u64) :: rat) = of_int (uint (word_of_int \<lfloor>x\<rfloor> :: u64))" by simp
  then show "(unsigned (word_of_int \<lfloor>x\<rfloor> :: u64) :: rat) = of_int \<lfloor>x\<rfloor>" unfolding u .
qed

section \<open>Properties\<close>

text \<open>C37: On a host whose counter is faster than the guest's clock, reading the guest's time always
  returns a number. It never goes backwards: a read at a later value of the counter, with the
  coefficient that the first read stored, returns a time that is not smaller. And it differs from the exact quotient of the
  counter by at most one tick and one part in two to the 51, although it is computed with three roundings.\<close>

theorem guest_clock:
  assumes "10000000 < unat (ReadFreq h)" and "unat (ReadFreq h) \<le> 2 ^ 53"
    and "ReadFreq h' = ReadFreq h" and "ReadHostTimeStamp h \<le> ReadHostTimeStamp h'"
  shows "\<exists>g g' c. ReadGuestTimeStamp None h = (Done g, Some c) \<and> ReadGuestTimeStamp (Some c) h' = (Done g', Some c) \<and> g \<le> g' \<and>
    (let exact = unsigned (ReadHostTimeStamp h) * (10000000 / unsigned (ReadFreq h)) :: rat
     in \<bar>unsigned g - exact\<bar> \<le> 1 + exact / 2 ^ 51)"
proof -
  let ?f = "ReadFreq h" and ?t = "guest_time (ReadFreq h) (ReadHostTimeStamp h)" and ?t' = "guest_time (ReadFreq h) (ReadHostTimeStamp h')"
  note less = guest_time_less [OF assms(1,2)]
  have "\<lfloor>?t\<rfloor> \<le> \<lfloor>?t'\<rfloor>" using guest_time_mono [OF assms(1,2,4)] by (rule floor_mono)
  then have mono: "(word_of_int \<lfloor>?t\<rfloor> :: u64) \<le> word_of_int \<lfloor>?t'\<rfloor>" by (simp add: word_le_def floor_u64 [OF less])
  have pow: "(2 :: rat) powi - 51 = 1 / 2 ^ 51" "x * (1 / 2 ^ 51) = x / 2 ^ 51" for x :: rat by simp_all
  have err: "\<bar>of_int \<lfloor>?t\<rfloor> - ?t\<bar> \<le> 1" using floor_correct [of ?t] by (simp add: abs_le_iff)
  show ?thesis
  proof (intro exI conjI)
    show "ReadGuestTimeStamp None h = (Done (word_of_int \<lfloor>?t\<rfloor>), Some (FpFinite (guest_rate ?f)))"
      by (rule ReadGuestTimeStamp_Done [OF assms(1,2)]) simp
    show "ReadGuestTimeStamp (Some (FpFinite (guest_rate ?f))) h' = (Done (word_of_int \<lfloor>?t'\<rfloor>), Some (FpFinite (guest_rate ?f)))"
      using ReadGuestTimeStamp_Done [of h' "Some (FpFinite (guest_rate ?f))"] assms(1,2) unfolding assms(3) by blast
    show "let exact = unsigned (ReadHostTimeStamp h) * (10000000 / unsigned ?f) :: rat
      in \<bar>unsigned (word_of_int \<lfloor>?t\<rfloor> :: u64) - exact\<bar> \<le> 1 + exact / 2 ^ 51"
      unfolding Let_def floor_u64(1) [OF less] using err guest_time_err [OF assms(1,2), of "ReadHostTimeStamp h"]
      unfolding pow by (rule abs_diff_trans)
  qed (rule mono)
qed

text \<open>A reader at 2.5 GHz: 250 host ticks per guest tick.\<close>

theorem guest_clock_witness:
  "\<exists>g g' c. ReadGuestTimeStamp None (X86_64 1000 0) = (Done g, Some c) \<and>
     ReadGuestTimeStamp (Some c) (X86_64 0 1) = (Done g', Some c) \<and> g \<le> g' \<and> \<bar>unsigned g - (4 :: rat)\<bar> \<le> 1 + 4 / 2 ^ 51"
  using guest_clock [of "X86_64 1000 0" "X86_64 0 1"] by (simp add: Let_def)

text \<open>C36: The timer interrupt comes and stays: once the host's counter has passed the time that a hart's
  compare register asks for (by two guest ticks and one part in ten million), every later update of \<open>mtime\<close> from the clock
  raises the hart's timer line.\<close>

theorem timer_fires:
  assumes freq: "10000000 < unat (ReadFreq h)" "unat (ReadFreq h) \<le> 2 ^ 53"
    and first: "ReadFreq h0 = ReadFreq h" "ReadGuestTimeStamp None h0 = (r0, coeff)"
    and hart: "unat hart < length (clint_mtimecmp c)"
    and late: "(unat (clint_mtimecmp c ! unat hart) + 2) * unat (ReadFreq h) \<le> unat (ReadHostTimeStamp h) * 9999999"
  shows "\<exists>g. ReadGuestTimeStamp coeff h = (Done g, coeff) \<and> MachineTimerIrq (UpdateMtime g c) hart = Done True"
proof -
  let ?v = "clint_mtimecmp c ! unat hart" and ?t = "guest_time (ReadFreq h) (ReadHostTimeStamp h)"
  let ?ts = "unsigned (ReadHostTimeStamp h) :: rat" and ?f = "unsigned (ReadFreq h) :: rat"
  have coeff: "coeff = Some (FpFinite (guest_rate (ReadFreq h)))"
    using first(2) ReadGuestTimeStamp_Done [of h0 None] freq unfolding first(1) by simp
  have f: "0 < ?f" using freq(1) of_nat_mono [of 1 "unat (ReadFreq h)", where 'a = rat] by simp
  have "(unsigned ?v + 2) * ?f \<le> ?ts * 9999999"
    using of_nat_mono [OF late, where 'a = rat] by (simp add: algebra_simps)
  then have "(unsigned ?v + 2) \<le> ?ts * (10000000 / ?f) * (9999999 / 10000000)" using f by (simp add: field_simps)
  also have "\<dots> \<le> ?ts * (10000000 / ?f) * (1 - 2 powi - 51)" using f by (intro mult_left_mono) simp_all
  also have "\<dots> \<le> ?t"
    using guest_time_err [OF freq, of "ReadHostTimeStamp h"] by (simp add: abs_le_iff algebra_simps)
  finally have "of_int (uint ?v + 2) \<le> ?t" by simp
  then have "uint ?v + 2 \<le> \<lfloor>?t\<rfloor>" by (simp only: le_floor_iff)
  then have "?v < word_of_int \<lfloor>?t\<rfloor>" by (simp add: word_less_def floor_u64 [OF guest_time_less [OF freq]])
  then have "MachineTimerIrq (UpdateMtime (word_of_int \<lfloor>?t\<rfloor>) c) hart = Done True"
    using hart by (simp add: MachineTimerIrq_def UpdateMtime_def)
  with ReadGuestTimeStamp_Done [OF freq, of coeff] coeff show ?thesis by blast
qed

theorem timer_fires_witness:
  "\<exists>g. ReadGuestTimeStamp (snd (ReadGuestTimeStamp None (X86_64 0 0))) (X86_64 1000 0) =
      (Done g, snd (ReadGuestTimeStamp None (X86_64 0 0))) \<and>
     MachineTimerIrq (UpdateMtime g (Clint 0 1)) 0 = Done True"
  using timer_fires [of "X86_64 1000 0" "X86_64 0 0" _ _ 0 "Clint 0 1"] by (cases "ReadGuestTimeStamp None (X86_64 0 0)") (simp add: Clint_def)

section \<open>The other helpers\<close>

text \<open>On a host that is neither, the frequency is zero and the conversion of the quotient is undefined.\<close>

lemma other_host_clock: "fst (ReadGuestTimeStamp None OtherHost) = Stray"
proof -
  have z: "fp_of_u64 double 0 = FpFinite 0" by (simp add: fp_of_u64_finite nearest_def)
  have "nearest double 10000000 = 10000000" using nearest_of_int [of 10000000 double] by simp
  then have "GetFreqDivCoeff OtherHost = FpInf"
    by (simp add: GetFreqDivCoeff_def z fp_of_u64_finite kMtimeFreq_def fp_round_def nearest_def [of _ 0])
  then show ?thesis by (simp add: ReadGuestTimeStamp_def z)
qed

text \<open>A number drawn between bounds is between them; the full range divides by zero.\<close>

lemma random_between:
  assumes "rmin \<le> rmax" and "rmax - rmin \<noteq> - 1"
  shows "\<exists>v. RandomGenerator_Get res rmin rmax = Done v \<and> rmin \<le> v \<and> v \<le> rmax"
proof -
  let ?d = "rmax - rmin + 1"
  have d: "?d \<noteq> 0" using assms(2) by (metis eq_neg_iff_add_eq_0)
  have "unat ?d = Suc (unat (rmax - rmin))" using d by (simp add: unatSuc add.commute)
  also have "unat (rmax - rmin) = unat rmax - unat rmin" using assms(1) by (simp add: unat_sub)
  finally have u: "unat ?d = Suc (unat rmax - unat rmin)" .
  then have m: "unat (res mod ?d) \<le> unat rmax - unat rmin"
    using mod_less_divisor [of "unat ?d" "unat res"] by (simp add: unat_mod_distrib)
  have le: "unat rmin \<le> unat rmax" using assms(1) by (simp add: word_le_nat_alt)
  have "unat (res mod ?d + rmin) = unat (res mod ?d) + unat rmin"
    by (rule unat_add_no_wrap, rule le_less_trans [of _ "unat rmax"]) (use m le in simp_all)
  with m le have "rmin \<le> res mod ?d + rmin \<and> res mod ?d + rmin \<le> rmax" by (simp add: word_le_nat_alt)
  then show ?thesis using d by (simp add: RandomGenerator_Get_def)
qed

lemma random_full_range: "RandomGenerator_Get res 0 (- 1) = Stray"
  by (simp add: RandomGenerator_Get_def)

text \<open>A measurement shorter than a microsecond reports no finite speed.\<close>

lemma mips_short:
  assumes "elapsed_ns < 1000"
  shows "GetMips elapsed_ns insret_cnt = (if insret_cnt = 0 then FpNan else FpInf)"
proof -
  have "elapsed_ns div 1000 = 0" using assms by (simp add: word_unat_eq_iff unat_div_distrib word_less_nat_alt)
  moreover have "nearest single (unsigned insret_cnt) \<noteq> 0" if "insret_cnt \<noteq> 0"
  proof -
    have "1 \<le> (unsigned insret_cnt :: rat)" using that by (rule u64_ge_1)
    then have "1 \<le> nearest single (unsigned insret_cnt)"
      using nearest_of_int [of 1 single] by (intro nearest_ge) simp_all
    then show ?thesis by simp
  qed
  ultimately show ?thesis by (simp add: GetMips_def fp_of_u64_finite nearest_def [of _ 0])
qed

end
