(* ===== verification/Mmu_Stats.thy ===== *)
theory Mmu_Stats
  imports Mmu_Lemmas Fp
begin

text \<open>
  The statistics of the TLB (\<^verbatim>\<open>Sv39::PrintStatistic\<close> in \<^verbatim>\<open>src/cpu/mmu.cc\<close>), which the destructor prints: what the two counters count, and
  the hit rate computed from them in floating point. How the formatting library writes numbers is a
  parameter. The theory also holds the two checks of data accesses that the source defines and does not use.
\<close>

definition hit_rate :: "u64 \<Rightarrow> u64 \<Rightarrow> fp" where
  "hit_rate hit miss =
     fp_cast single
       (fp_mul double
          (fp_div double (fp_mul double (fp_of_u64 double hit) (FpFinite 1)) (fp_of_u64 double (hit + miss)))
          (FpFinite 100))"

definition PrintStatistic :: "(u64 \<Rightarrow> string) \<Rightarrow> (fp \<Rightarrow> string) \<Rightarrow> sv39 \<Rightarrow> string list" where
  "PrintStatistic fmt_int fmt_2f s =
     (if sv39_cache_hit s + sv39_cache_miss s > 0 then
        [''======== Cache Statistics Start ========'',
         ''hit: '' @ fmt_int (sv39_cache_hit s),
         ''miss: '' @ fmt_int (sv39_cache_miss s),
         ''hit rate: '' @ fmt_2f (hit_rate (sv39_cache_hit s) (sv39_cache_miss s)) @ ''%'',
         ''======== Cache Statistics End ========'']
      else [])"

section \<open>What is counted\<close>

lemma Sv39_Load_counters:
  "sv39_cache_hit (snd (Sv39_Load s a n)) = sv39_cache_hit s" "sv39_cache_miss (snd (Sv39_Load s a n)) = sv39_cache_miss s"
  by (simp_all add: Sv39_Load_def split: io.splits)

lemma walk_levels_counters:
  "sv39_cache_hit (snd (walk_levels is v a s)) = sv39_cache_hit s \<and> sv39_cache_miss (snd (walk_levels is v a s)) = sv39_cache_miss s"
proof (induction "is" v a s rule: walk_levels.induct)
  case (2 i "is" v a s)
  obtain r s1 where l: "Sv39_Load s (a + vpn i v * 8) 8 = (r, s1)" by fastforce
  have "sv39_cache_hit s1 = sv39_cache_hit s" "sv39_cache_miss s1 = sv39_cache_miss s"
    using Sv39_Load_counters [of s "a + vpn i v * 8" 8] l by simp_all
  with 2 l show ?case by (auto simp: Let_def split: option.splits walk_step.splits)
qed simp

lemma translation_counted:
  "let s' = snd (GetTlbEntry s satp v) in
     sv39_cache_hit s' = sv39_cache_hit s + of_bool (sv39_canonical v \<and> LookUpTlb s satp v \<noteq> None) \<and>
     sv39_cache_miss s' = sv39_cache_miss s + of_bool (sv39_canonical v \<and> LookUpTlb s satp v = None)"
proof -
  let ?s = "s\<lparr>sv39_cache_miss := sv39_cache_miss s + 1\<rparr>"
  have "sv39_cache_hit (snd (PageTableWalk ?s satp v)) = sv39_cache_hit s"
    "sv39_cache_miss (snd (PageTableWalk ?s satp v)) = sv39_cache_miss s + 1"
    by (simp_all add: PageTableWalk_def walk_levels_counters del: walk_levels.simps)
  then show ?thesis
    by (auto simp: GetTlbEntry_def Let_def split: option.splits prod.splits)
qed

section \<open>The report\<close>

text \<open>Nothing is printed before the first translation; as long as the sum of the counters does not wrap, the rate is
  a number between 0 and 100.\<close>

lemma statistic_rate:
  assumes "unat hit + unat miss < 2 ^ 64" and "hit + miss \<noteq> 0"
  shows "\<exists>p. hit_rate hit miss = FpFinite p \<and> 0 \<le> p \<and> p \<le> 100"
proof -
  let ?h = "nearest double (unsigned hit)" and ?t = "nearest double (unsigned (hit + miss))"
  have "hit \<le> hit + miss" using assms(1) by (simp add: word_le_nat_alt unat_add_no_wrap)
  then have le: "?h \<le> ?t" by (intro nearest_mono u64_mono) simp_all
  have "1 \<le> ?t" using nearest_ge [OF u64_ge_1 [OF assms(2)], of double] nearest_of_int [of 1 double] by simp
  with le nearest_nonneg fp_percent [of double ?h ?t] obtain p where p:
    "fp_mul double (fp_div double (FpFinite ?h) (FpFinite ?t)) (FpFinite 100) = FpFinite p" "0 \<le> p" "p \<le> 100" by auto
  have "?h \<le> 2 powi 64" by (rule nearest_le [OF u64_le_pow2 nearest_pow2]) simp_all
  then have "fp_mul double (fp_of_u64 double hit) (FpFinite 1) = FpFinite ?h"
    using fp_round_finite [of ?h 64 double] by (simp add: fp_of_u64_finite nearest_idem)
  then have "hit_rate hit miss = fp_round single p" by (simp only: hit_rate_def p fp_of_u64_finite insert_iff simp_thms fp_cast.simps)
  moreover have "fp_round single p = FpFinite (nearest single p)" using p(3) by (intro fp_round_finite [of _ 7]) simp_all
  moreover have "nearest single p \<le> 100" using p(3) nearest_of_int [of 100 single] by (intro nearest_le) simp_all
  ultimately show ?thesis using nearest_nonneg by auto
qed

lemma no_statistic: "PrintStatistic fmt_int fmt_2f (Sv39 b) = []"
  by (simp add: PrintStatistic_def Sv39_def)

section \<open>The checks that are switched off\<close>

text \<open>Two checks of a data access are defined as macros, and their only uses, in \<^verbatim>\<open>Mmu::Load\<close> and
  \<^verbatim>\<open>Mmu::Store\<close>, are commented out. They are modelled to say what the accesses do without them.\<close>

definition CHECK_RANGE_PAGE_ALIGN :: "u64 \<Rightarrow> u64 \<Rightarrow> TrapType \<Rightarrow> Trap option" where
  "CHECK_RANGE_PAGE_ALIGN addr bytes etype =
     (if drop_bit 12 addr \<noteq> drop_bit 12 (addr + bytes - 1) then Some \<lparr>trap_type = etype, trap_val = addr\<rparr>
      else None)"

definition CHECK_VIRTUAL_MEMORY_ACCESS_PRIVILEGE ::
    "PrivilegeMode \<Rightarrow> u64 \<Rightarrow> Sv39TlbEntry \<Rightarrow> u64 \<Rightarrow> TrapType \<Rightarrow> Trap \<Rightarrow> Trap option" where
  "CHECK_VIRTUAL_MEMORY_ACCESS_PRIVILEGE cur_mode ms e vaddr page_fault access_trap =
     (let real_mode = if mstatus_get ''mprv'' ms \<noteq> 0 \<and> cur_mode = kMachine then mode_of (mstatus_get ''mpp'' ms)
                      else cur_mode
      in if real_mode = kUser \<and> \<not> tlb_U e then Some \<lparr>trap_type = page_fault, trap_val = vaddr\<rparr>
         else if mstatus_get ''sum'' ms = 0 \<and> real_mode = kSupervisor \<and> tlb_U e then Some access_trap
         else None)"

text \<open>Without the check a user program reads a page that only the supervisor may read: the load below succeeds on a
  page whose user bit is clear, although the check would raise a load page fault.\<close>

lemma user_reads_supervisor_page:
  "\<exists>e. fst (GetTlbEntry example_sv39 example_satp 0x80000010) = Some e \<and>
     CHECK_VIRTUAL_MEMORY_ACCESS_PRIVILEGE kUser ms e 0x80000010 kLoadPageFault t =
       Some \<lparr>trap_type = kLoadPageFault, trap_val = 0x80000010\<rparr> \<and>
     trap_type (fst (Mmu_Load kUser example_state example_sv39 0x80000010 8)) = kNone"
proof -
  have m: "satp_get ''mode'' example_satp \<noteq> 0" by (simp add: example_satp_fields)
  have a: "take_bit 39 (spec_pa 0x200000cf 2 0x80000010) = 0x80000010" and b: "bit (0x200000cf :: u64) 1"
    "bit (0x200000cf :: u64) 6" and u: "\<not> bit (0x200000cf :: u64) 4" by code_simp+
  obtain e s' where
    g: "GetTlbEntry example_sv39 example_satp 0x80000010 = (Some e, s')" "sv39_bus s' = sv39_bus example_sv39"
    and e: "entry_of e 0x80000010 0x200000cf 2"
    by (rule GetTlbEntry_spec [OF example_inv example_coherent example_dram]) (metis example_spec)
  have "MapVirtualAddress e 0x80000010 = 0x80000010" "tlb_R e" "tlb_A e" "\<not> tlb_U e"
    using e a b u by (simp_all add: entry_of_def)
  then show ?thesis
    using g m by (simp add: Mmu_Load_def Let_def example_state_satp [symmetric] UsePhysAddr_def
        phys_load_def Sv39_Load_def example_read CHECK_VIRTUAL_MEMORY_ACCESS_PRIVILEGE_def)
qed

text \<open>An access inside one page passes the range check; an aligned access of at most eight bytes is one.\<close>

lemma aligned_in_page:
  assumes "bytes \<in> {1, 2, 4, 8}" and "addr AND (bytes - 1) = 0"
  shows "CHECK_RANGE_PAGE_ALIGN addr bytes etype = None"
proof -
  have "addr + bytes - 1 = addr OR (bytes - 1)" using word_plus_and_or [of addr "bytes - 1"] assms(2) by simp
  moreover have "drop_bit 12 (bytes - 1) = 0" using assms(1) by auto
  ultimately have "drop_bit 12 (addr + bytes - 1) = drop_bit 12 addr" by (simp only: drop_bit_or or.right_neutral)
  then show ?thesis unfolding CHECK_RANGE_PAGE_ALIGN_def by simp
qed

end
