(* ===== verification/Isa.thy ===== *)
theory Isa
  imports Cpu_Run Alu
begin

text \<open>
  The instruction set as the manual defines it, independent of the emulator: arithmetic is arithmetic of
  integers, memory is a list of bytes at a base address, and a step fetches the encoding of an
  instruction and performs it. It covers the base integer instructions (without fences and system
  instructions) and the multiplications and divisions but \<open>MULHSU\<close>. The second half shows that the
  computations of the emulator are these.
\<close>

section \<open>Arithmetic\<close>

datatype alu_op = A_Add | A_Sub | A_Sll | A_Slt | A_Sltu | A_Xor | A_Srl | A_Sra | A_Or | A_And
  | A_Mul | A_Mulh | A_Mulhu | A_Div | A_Divu | A_Rem | A_Remu

text \<open>Words read as integers, the result reduced to the width. Division by zero and the overflow of
  signed division need no cases but the manual's results for a zero divisor.\<close>

fun alu :: "alu_op \<Rightarrow> 'a::len word \<Rightarrow> 'a word \<Rightarrow> 'a word" where
  "alu A_Add a b = word_of_int (uint a + uint b)"
| "alu A_Sub a b = word_of_int (uint a - uint b)"
| "alu A_Sll a b = word_of_int (uint a * 2 ^ (unat b mod LENGTH('a)))"
| "alu A_Slt a b = (if sint a < sint b then 1 else 0)"
| "alu A_Sltu a b = (if uint a < uint b then 1 else 0)"
| "alu A_Xor a b = a XOR b"
| "alu A_Srl a b = word_of_int (uint a div 2 ^ (unat b mod LENGTH('a)))"
| "alu A_Sra a b = word_of_int (sint a div 2 ^ (unat b mod LENGTH('a)))"
| "alu A_Or a b = a OR b"
| "alu A_And a b = a AND b"
| "alu A_Mul a b = word_of_int (sint a * sint b)"
| "alu A_Mulh a b = word_of_int (sint a * sint b div 2 ^ LENGTH('a))"
| "alu A_Mulhu a b = word_of_int (uint a * uint b div 2 ^ LENGTH('a))"
| "alu A_Div a b = (if b = 0 then - 1 else word_of_int (sint a sdiv sint b))"
| "alu A_Divu a b = (if b = 0 then - 1 else word_of_int (uint a div uint b))"
| "alu A_Rem a b = (if b = 0 then a else word_of_int (sint a smod sint b))"
| "alu A_Remu a b = (if b = 0 then a else word_of_int (uint a mod uint b))"

section \<open>Instructions\<close>

definition isa_reg :: "(InstToken \<times> alu_op) list" where
  "isa_reg = [(I_ADD, A_Add), (I_SUB, A_Sub), (I_SLL, A_Sll), (I_SLT, A_Slt), (I_SLTU, A_Sltu), (I_XOR, A_Xor),
     (I_SRL, A_Srl), (I_SRA, A_Sra), (I_OR, A_Or), (I_AND, A_And), (I_MUL, A_Mul), (I_MULH, A_Mulh),
     (I_MULHU, A_Mulhu), (I_DIV, A_Div), (I_DIVU, A_Divu), (I_REM, A_Rem), (I_REMU, A_Remu)]"

definition isa_reg32 :: "(InstToken \<times> alu_op) list" where
  "isa_reg32 = [(I_ADDW, A_Add), (I_SUBW, A_Sub), (I_SLLW, A_Sll), (I_SRLW, A_Srl), (I_SRAW, A_Sra), (I_MULW, A_Mul),
     (I_DIVW, A_Div), (I_DIVUW, A_Divu), (I_REMW, A_Rem), (I_REMUW, A_Remu)]"

definition isa_imm :: "(InstToken \<times> alu_op) list" where
  "isa_imm = [(I_ADDI, A_Add), (I_SLTI, A_Slt), (I_SLTIU, A_Sltu), (I_XORI, A_Xor), (I_ORI, A_Or), (I_ANDI, A_And),
     (I_SLLI, A_Sll), (I_SRLI, A_Srl), (I_SRAI, A_Sra)]"

definition isa_imm32 :: "(InstToken \<times> alu_op) list" where
  "isa_imm32 = [(I_ADDIW, A_Add), (I_SLLIW, A_Sll), (I_SRLIW, A_Srl), (I_SRAIW, A_Sra)]"

text \<open>Loads with their width in bytes and whether they extend the sign, stores with their width.\<close>

definition isa_load :: "(InstToken \<times> nat \<times> bool) list" where
  "isa_load = [(I_LB, 1, True), (I_LH, 2, True), (I_LW, 4, True), (I_LD, 8, True),
     (I_LBU, 1, False), (I_LHU, 2, False), (I_LWU, 4, False)]"

definition isa_store :: "(InstToken \<times> nat) list" where
  "isa_store = [(I_SB, 1), (I_SH, 2), (I_SW, 4), (I_SD, 8)]"

definition isa_branch :: "(InstToken \<times> (u64 \<Rightarrow> u64 \<Rightarrow> bool)) list" where
  "isa_branch = [(I_BEQ, \<lambda>a b. a = b), (I_BNE, \<lambda>a b. a \<noteq> b), (I_BLT, \<lambda>a b. sint a < sint b), (I_BGE, \<lambda>a b. sint b \<le> sint a),
     (I_BLTU, \<lambda>a b. uint a < uint b), (I_BGEU, \<lambda>a b. uint b \<le> uint a)]"

text \<open>The state: program counter, registers, and memory from a base address on.\<close>

record arch =
  a_pc :: u64
  a_reg :: "u8 \<Rightarrow> u64"
  a_base :: u64
  a_mem :: "u8 list"

definition read_mem :: "arch \<Rightarrow> u64 \<Rightarrow> nat \<Rightarrow> u8 list option" where
  "read_mem s a n =
     (let k = unat (a - a_base s) in if k + n \<le> length (a_mem s) then Some (take n (drop k (a_mem s))) else None)"

definition write_mem :: "arch \<Rightarrow> u64 \<Rightarrow> u8 list \<Rightarrow> arch option" where
  "write_mem s a bs =
     (let k = unat (a - a_base s) in if k + length bs \<le> length (a_mem s)
      then Some (s\<lparr>a_mem := take k (a_mem s) @ bs @ drop (k + length bs) (a_mem s)\<rparr>) else None)"

definition write_reg :: "u8 \<Rightarrow> u64 \<Rightarrow> arch \<Rightarrow> arch" where
  "write_reg d v s = s\<lparr>a_reg := (a_reg s)(d := v, 0 := 0)\<rparr>"

definition extend :: "nat \<Rightarrow> bool \<Rightarrow> u64 \<Rightarrow> u64" where
  "extend n sx v = (if sx then signed_take_bit (8 * n - 1) v else take_bit (8 * n) v)"

text \<open>A jump, if its target is aligned.\<close>

definition jump :: "u64 \<Rightarrow> arch \<Rightarrow> arch option" where
  "jump target s = (if target AND 3 = 0 then Some (s\<lparr>a_pc := target\<rparr>) else None)"

text \<open>One instruction. None: not covered, a misaligned target, or an access outside memory.\<close>

definition isa_exec :: "InstToken \<Rightarrow> u8 \<Rightarrow> u8 \<Rightarrow> u8 \<Rightarrow> u32 \<Rightarrow> arch \<Rightarrow> arch option" where
  "isa_exec t d s1 s2 i s =
     (let a = a_reg s s1; b = a_reg s s2; j = scast i :: u64; next_pc = a_pc s + 4; s' = s\<lparr>a_pc := next_pc\<rparr> in
      if t = I_LUI then Some (write_reg d j s')
      else if t = I_AUIPC then Some (write_reg d (a_pc s + j) s')
      else if t = I_JAL then map_option (write_reg d next_pc) (jump (a_pc s + j) s)
      else if t = I_JALR then map_option (write_reg d next_pc) (jump (unset_bit 0 (a + j)) s)
      else case map_of isa_reg t of Some f \<Rightarrow> Some (write_reg d (alu f a b) s')
      | None \<Rightarrow> case map_of isa_reg32 t of Some f \<Rightarrow> Some (write_reg d (scast (alu f (ucast a :: u32) (ucast b))) s')
      | None \<Rightarrow> case map_of isa_imm t of Some f \<Rightarrow> Some (write_reg d (alu f a j) s')
      | None \<Rightarrow> case map_of isa_imm32 t of Some f \<Rightarrow> Some (write_reg d (scast (alu f (ucast a :: u32) i)) s')
      | None \<Rightarrow> case map_of isa_branch t of Some p \<Rightarrow> if p a b then jump (a_pc s + j) s else jump next_pc s
      | None \<Rightarrow> case map_of isa_load t of
          Some (n, sx) \<Rightarrow> map_option (\<lambda>bs. write_reg d (extend n sx (le_word bs)) s') (read_mem s (a + j) n)
      | None \<Rightarrow> case map_of isa_store t of Some n \<Rightarrow> write_mem s' (a + j) (le_bytes n b)
      | None \<Rightarrow> None)"

text \<open>A step fetches a word that is the encoding of an instruction and executes it.\<close>

inductive isa_step :: "arch \<Rightarrow> arch \<Rightarrow> bool" where
  isa_stepI: "read_mem s (a_pc s) 4 = Some (le_bytes 4 w) \<Longrightarrow> encode t (ucast d) (ucast s1) (ucast s2) i = Some w \<Longrightarrow>
    map_of isa_table t = Some (f, b) \<Longrightarrow> imm_ok f i \<Longrightarrow> unat d < 32 \<Longrightarrow> unat s1 < 32 \<Longrightarrow> unat s2 < 32 \<Longrightarrow>
    isa_exec t d s1 s2 i s = Some s' \<Longrightarrow> isa_step s s'"

inductive_cases isa_stepE: "isa_step s s'"

section \<open>The emulator's computations\<close>

lemma word_of_int_uint_div: "word_of_int (uint a div 2 ^ k) = drop_bit k (a :: 'a::len word)"
  unfolding drop_bit_eq_div [symmetric] by (rule bit_word_eqI) (auto simp: bit_simps dest: bit_imp_le_length)

lemma word_of_int_sint_div: "word_of_int (sint a div 2 ^ k) = signed_drop_bit k (a :: 'a::len word)"
  unfolding drop_bit_eq_div [symmetric] by (rule bit_word_eqI) (auto simp: bit_simps)

lemma word_of_int_uint_ops:
  "word_of_int (uint a div uint b) = a div (b :: 'a::len word)" "word_of_int (uint a mod uint b) = a mod b"
  "word_of_int (uint a + uint b) = a + b" "word_of_int (uint a - uint b) = a - b"
  "word_of_int (uint a * 2 ^ k) = push_bit k a" "word_of_int (sint a * sint b) = a * b"
  by (simp_all add: word_div_def word_mod_def push_bit_eq_mult)

lemma sdiv_min:
  "word_sdiv INT64_MIN (- 1) = INT64_MIN" "word_smod INT64_MIN (- 1) = 0"
  "word_sdiv INT32_MIN (- 1) = INT32_MIN" "word_smod INT32_MIN (- 1) = 0"
  by (simp_all add: word_sdiv_def word_smod_def INT64_MIN_def INT32_MIN_def signed_modulo_int_def)

text \<open>The same operations on words.\<close>

lemma alu_word:
  "alu A_Add a b = a + b" "alu A_Sub a b = a - b" "alu A_Sll a b = push_bit (unat b mod LENGTH('a)) (a :: 'a::len word)"
  "alu A_Slt a b = (if a <s b then 1 else 0)" "alu A_Sltu a b = (if a < b then 1 else 0)"
  "alu A_Srl a b = drop_bit (unat b mod LENGTH('a)) a" "alu A_Sra a b = signed_drop_bit (unat b mod LENGTH('a)) a"
  "alu A_Mul a b = a * b" "alu A_Div a b = (if b = 0 then - 1 else word_sdiv a b)"
  "alu A_Divu a b = (if b = 0 then - 1 else a div b)" "alu A_Rem a b = (if b = 0 then a else word_smod a b)"
  "alu A_Remu a b = (if b = 0 then a else a mod b)"
  by (simp_all only: alu.simps word_of_int_uint_div word_of_int_sint_div word_of_int_uint_ops word_sless_alt word_less_def
      word_sdiv_def word_smod_def)

declare alu.simps [simp del]

lemmas alu_simps = alu_word alu.simps(6,9,10)

lemma reg_vals: "list_all (\<lambda>(t, f). reg_val t a b = Some (alu f a b)) isa_reg"
proof -
  have "alu A_Mulh a b = mulh_ref (sint a) (sint b)" "alu A_Mulhu a b = mulh_ref (uint a) (uint b)"
    by (simp_all add: alu.simps mulh_ref_def)
  then show ?thesis
    by (simp add: isa_reg_def MULH_correct MULHU_correct) (simp add: reg_val_def alu_simps sdiv_min)
qed

lemma rv32_vals: "list_all (\<lambda>(t, f). rv32_val t a b = Some (scast (alu f a b))) isa_reg32"
  by (simp add: isa_reg32_def rv32_val_def alu_simps sdiv_min)

lemma shamt_scast: "unat (scast (i :: u32) :: u64) mod 64 = unat i mod 64"
proof -
  have "take_bit 6 (scast i :: u64) = ucast (take_bit 6 i)" by (rule bit_eqI) (auto simp: bit_simps)
  then have "unat (take_bit 6 (scast i :: u64)) = unat (take_bit 6 i)" by (simp add: unsigned_ucast_eq)
  then show ?thesis by (simp add: unat_take_bit_mod)
qed

lemma imm_vals: "list_all (\<lambda>(t, f). imm_val t a i = Some (alu f a (scast i))) isa_imm"
  by (simp add: isa_imm_def imm_val_def alu_simps shamt_scast)

lemma imm32_vals: "list_all (\<lambda>(t, f). imm32_val t a i = Some (scast (alu f a i))) isa_imm32"
  by (simp add: isa_imm32_def imm32_val_def alu_simps)

lemma branch_vals: "list_all (\<lambda>(t, p). branch_taken t a b = Some (p a b)) isa_branch"
  by (simp add: isa_branch_def branch_taken_def word_sless_alt word_sle_eq word_less_def word_le_def)

lemma scast_ucast_extend:
  "scast (ucast (v :: u64) :: 'a::len word) = (signed_take_bit (LENGTH('a) - 1) v :: u64)" if "LENGTH('a) < 64"
  by (rule bit_eqI) (use that in \<open>auto simp: bit_simps min_def\<close>)

lemma signed_take_bit_63: "signed_take_bit 63 (v :: u64) = v"
proof (rule bit_eqI)
  fix n
  assume "possible_bit TYPE(64 word) n"
  then show "bit (signed_take_bit 63 v) n = bit v n" by (cases "n = 63") (auto simp: bit_signed_take_bit_iff)
qed

lemma load_vals: "list_all (\<lambda>(t, n, sx). load_val t (take_bit (8 * n) v) = Some (extend n sx (take_bit (8 * n) v)) \<and>
    unat (token_size t) = n) isa_load"
  by (simp add: isa_load_def load_val_def extend_def token_size_def word_amos_def kAccessMemBytes_def scast_ucast_extend
      signed_take_bit_63)

lemma store_sizes: "list_all (\<lambda>(t, n). unat (token_size t) = n) isa_store"
  by (simp add: isa_store_def token_size_def word_amos_def kAccessMemBytes_def)

text \<open>The opcode and the format of every instruction covered.\<close>

lemma isa_classes:
  "list_all (\<lambda>(t, f). token_op t = kReg \<and> fst (the (map_of isa_table t)) = FmtR) isa_reg"
  "list_all (\<lambda>(t, f). token_op t = kRv32 \<and> fst (the (map_of isa_table t)) = FmtR) isa_reg32"
  "list_all (\<lambda>(t, f). token_op t = kImm \<and> fst (the (map_of isa_table t)) \<in> {FmtI, FmtShamt6}) isa_imm"
  "list_all (\<lambda>(t, f). token_op t = kImm32 \<and> fst (the (map_of isa_table t)) \<in> {FmtI, FmtShamt5}) isa_imm32"
  "list_all (\<lambda>(t, p). token_op t = kBranch \<and> fst (the (map_of isa_table t)) = FmtB) isa_branch"
  "list_all (\<lambda>(t, n, sx). token_op t = kLoad \<and> fst (the (map_of isa_table t)) = FmtI) isa_load"
  "list_all (\<lambda>(t, n). token_op t = kStore \<and> fst (the (map_of isa_table t)) = FmtS) isa_store"
  by (simp_all add: isa_reg_def isa_reg32_def isa_imm_def isa_imm32_def isa_branch_def isa_load_def isa_store_def isa_table_def token_op_def)

end
