(* ===== verification/Isa_Sim.thy ===== *)
theory Isa_Sim
  imports Isa
begin

text \<open>
  The processor implements the instruction set: the abstraction of a processor to the state of the
  manual, one step, and any number of steps.
\<close>

section \<open>Memory\<close>

lemma peek_u8: "peek (ws :: u8 list) k = ws ! k"
  by (simp add: peek_def get_byte_def)

lemma copy_out_u8: "k + n \<le> length ws \<Longrightarrow> copy_out (ws :: u8 list) k n = Done (take n (drop k ws))"
  by (auto simp: copy_out_def peek_u8 intro!: nth_equalityI)

lemma poke_list_u8:
  "k + length bs \<le> length ws \<Longrightarrow> poke_list (ws :: u8 list) k bs = take k ws @ bs @ drop (k + length bs) ws"
proof (induction ws k bs rule: poke_list.induct)
  case (2 ws k b bs)
  have "poke ws k b = ws[k := b]" by (simp add: poke_def set_byte_def fset_def) (rule arg_cong [where f = "list_update _ _"], rule bit_eqI, auto simp: bit_simps)
  moreover have "ws[k := b] = take k ws @ b # drop (Suc k) ws" using 2(2) by (simp add: upd_conv_take_nth_drop)
  ultimately show ?case using 2 by (simp add: min_def add.commute)
qed simp

lemma copy_in_u8:
  "k + n \<le> length ws \<Longrightarrow> n \<le> length buf \<Longrightarrow> copy_in (ws :: u8 list) k buf n = Done (take k ws @ take n buf @ drop (k + n) ws)"
  by (simp add: copy_in_def poke_list_u8)

text \<open>Node \<open>k\<close> of the bus is main memory and every address of it is routed there.\<close>

definition mem_node :: "nat \<Rightarrow> bus \<Rightarrow> bool" where
  "mem_node k b \<longleftrightarrow> k < length (bus_device b) \<and> (case node_dev (bus_device b ! k) of
     DevDram d \<Rightarrow> dram_wf d \<and> (\<forall>a. unat (a - node_base (bus_device b ! k)) < length (dram_memory d) \<longrightarrow> GetDeviceByRange b a = Some k)
   | _ \<Rightarrow> False)"

definition node_mem :: "nat \<Rightarrow> bus \<Rightarrow> u8 list" where
  "node_mem k b = (case node_dev (bus_device b ! k) of DevDram d \<Rightarrow> dram_memory d | _ \<Rightarrow> [])"

definition arch_of :: "nat \<Rightarrow> cpu \<Rightarrow> arch" where
  "arch_of k c = \<lparr>a_pc = cpu_pc c, a_reg = cpu_xregs c, a_base = node_base (bus_device (cpu_bus c) ! k), a_mem = node_mem k (cpu_bus c)\<rparr>"

lemma mem_nodeE:
  assumes "mem_node k b"
  obtains d where "k < length (bus_device b)" and "node_dev (bus_device b ! k) = DevDram d" and "dram_wf d" and "node_mem k b = dram_memory d"
    and "\<forall>a. unat (a - node_base (bus_device b ! k)) < length (dram_memory d) \<longrightarrow> GetDeviceByRange b a = Some k"
  using assms by (auto simp: mem_node_def node_mem_def split: device.splits)

lemma mem_offset:
  assumes "unat off + n \<le> unat (sz :: u64)" and "n \<le> 8"
  shows "unat (of_nat n :: u64) = n" and "off + of_nat n \<le> sz"
proof -
  show un: "unat (of_nat n :: u64) = n" using assms(2) by (simp add: unsigned_of_nat take_bit_eq_mod)
  have "unat off + n < 2 ^ 64" by (rule le_less_trans [OF assms(1)]) simp
  then show "off + of_nat n \<le> sz" using assms(1) un by (simp add: word_le_nat_alt unat_add_no_wrap)
qed

lemma Bus_Load_mem:
  assumes m: "mem_node k b" and n: "0 < n" "n \<le> 8" and fits: "unat (a - node_base (bus_device b ! k)) + n \<le> length (node_mem k b)"
  shows "Bus_Load b a (of_nat n) = Done (take n (drop (unat (a - node_base (bus_device b ! k))) (node_mem k b)), b)"
proof -
  from m obtain d where d: "k < length (bus_device b)" "node_dev (bus_device b ! k) = DevDram d" "dram_wf d" "node_mem k b = dram_memory d"
    "\<forall>a. unat (a - node_base (bus_device b ! k)) < length (dram_memory d) \<longrightarrow> GetDeviceByRange b a = Some k" by (rule mem_nodeE)
  have le: "unat (a - node_base (bus_device b ! k)) + n \<le> unat (dram_size d)" using fits d by (simp add: dram_wf_def)
  have "Dram_Load d (a - node_base (bus_device b ! k)) (of_nat n) =
      Done (take n (drop (unat (a - node_base (bus_device b ! k))) (dram_memory d)), d)"
    using mem_offset [OF le n(2)] fits d by (simp add: Dram_Load_def copy_out_u8)
  moreover have "GetDeviceByRange b a = Some k" using fits n d by simp
  moreover have "set_dev k (DevDram d) b = b" using set_dev_same [OF d(1)] d(2) by simp
  ultimately show ?thesis using d by (simp add: Bus_Load_def)
qed

lemma Bus_Store_mem:
  assumes m: "mem_node k b" and n: "0 < n" "n \<le> 8" and fits: "unat (a - node_base (bus_device b ! k)) + n \<le> length (node_mem k b)"
    and buf: "n \<le> length buf"
  shows "\<exists>b'. Bus_Store b a (of_nat n) buf = Done b' \<and> mem_node k b' \<and> node_base (bus_device b' ! k) = node_base (bus_device b ! k) \<and>
    node_mem k b' = (let off = unat (a - node_base (bus_device b ! k))
      in take off (node_mem k b) @ take n buf @ drop (off + n) (node_mem k b))"
proof -
  from m obtain d where d: "k < length (bus_device b)" "node_dev (bus_device b ! k) = DevDram d" "dram_wf d" "node_mem k b = dram_memory d"
    "\<forall>a. unat (a - node_base (bus_device b ! k)) < length (dram_memory d) \<longrightarrow> GetDeviceByRange b a = Some k" by (rule mem_nodeE)
  let ?off = "a - node_base (bus_device b ! k)"
  let ?m = "take (unat ?off) (dram_memory d) @ take n buf @ drop (unat ?off + n) (dram_memory d)"
  have le: "unat ?off + n \<le> unat (dram_size d)" using fits d by (simp add: dram_wf_def)
  have "Dram_Store d ?off (of_nat n) buf = Done (d\<lparr>dram_memory := ?m\<rparr>)"
    using mem_offset [OF le n(2)] fits d buf by (simp add: Dram_Store_def copy_in_u8)
  moreover have "GetDeviceByRange b a = Some k" using fits n d by simp
  ultimately have st: "Bus_Store b a (of_nat n) buf = Done (set_dev k (DevDram (d\<lparr>dram_memory := ?m\<rparr>)) b)"
    using d by (simp add: Bus_Store_def Let_def)
  have "length ?m = length (dram_memory d)" using fits buf d(4) by simp
  then have "mem_node k (set_dev k (DevDram (d\<lparr>dram_memory := ?m\<rparr>)) b)"
    using d by (simp add: mem_node_def set_dev_nth dram_wf_def)
  with st d show ?thesis by (auto simp: set_dev_def node_mem_def Let_def)
qed

section \<open>A cycle\<close>

text \<open>A processor that executes instructions from main memory undisturbed: physical addresses, no
  enabled interrupt pending, not waiting.\<close>

definition hart_runs :: "bool \<Rightarrow> bus_shape \<Rightarrow> nat \<Rightarrow> cpu \<Rightarrow> bool" where
  "hart_runs safe sh k c \<longleftrightarrow> cpu_inv safe sh c \<and> mem_node k (cpu_bus c) \<and> phys c \<and>
     (cpu_priv_mode c = kMachine \<or> satp_get ''mode'' (State_Read (cpu_state c) kCsrSatp) = 0) \<and>
     \<not> GetWfi (cpu_state c) \<and> irq_bits c = 0 \<and> xreg c 0 = 0"

lemma minstret_frame:
  "a \<in> {kCsrSatp, kCsrMstatus, kCsrMip, kCsrMie} \<Longrightarrow> State_Read (State_Write kCsrMinstret v s) a = State_Read s a"
  "GetWfi (State_Write kCsrMinstret v s) = GetWfi s"
proof -
  have "kCsrMinstret \<notin> csr_special" by (simp add: csr_special_def const_defs)
  then have w: "State_Write kCsrMinstret v s = set_csr kCsrMinstret v s" by (rule State_Write_ordinary)
  show "a \<in> {kCsrSatp, kCsrMstatus, kCsrMip, kCsrMie} \<Longrightarrow> State_Read (State_Write kCsrMinstret v s) a = State_Read s a"
    unfolding w by (elim insertE emptyE) (simp add: State_Read_plain, simp add: const_defs)+
  show "GetWfi (State_Write kCsrMinstret v s) = GetWfi s" unfolding w by (simp add: GetWfi_def)
qed

lemma Tick_exec:
  fixes env :: env
  assumes run: "hart_runs safe sh k c" and fetch: "CPU_Fetch c (cpu_pc c) 4 = (kNoneTrap, bs, c)"
  defines "info \<equiv> DecodeInfo_ctor (env_imm env) (env_mem_size env) (le_word bs) (cpu_pc c)"
  assumes ex: "Exec env info (c\<lparr>cpu_pc := cpu_pc c + 4\<rparr>) = (kNoneTrap, c1)" and known: "token info \<noteq> I_UNKNOWN"
    and st: "cpu_state c1 = cpu_state c"
  shows "CPU_Tick0 env c = (set_xreg 0 0 c1)\<lparr>cpu_instret := cpu_instret c1 + 1,
    cpu_state := State_Write kCsrMinstret (cpu_instret c1 + 1) (cpu_state c1)\<rparr>"
proof -
  have "inst_size info = 4" by (simp add: info_def DecodeInfo_ctor_def)
  then have "TickOperate env c = (kNoneTrap, set_xreg 0 0 c1)"
    using run fetch ex known by (simp add: hart_runs_def TickOperate_def Let_def info_def)
  moreover have "HandleInterrupt (cpu_pc c1) (set_xreg 0 0 c1) = set_xreg 0 0 c1"
    using run st by (intro HandleInterrupt_None select_interrupt_0) (simp_all add: hart_runs_def cpu_inv_def irq_bits_def)
  ultimately show ?thesis by (simp add: CPU_Tick0_def CPU_Tick_def Let_def)
qed

lemma Tick_runs:
  fixes env :: env
  assumes run: "hart_runs safe sh k c" and tick: "CPU_Tick0 env c = (set_xreg 0 0 c1)\<lparr>cpu_instret := cpu_instret c1 + 1,
    cpu_state := State_Write kCsrMinstret (cpu_instret c1 + 1) (cpu_state c1)\<rparr>"
    and c1: "cpu_state c1 = cpu_state c" "cpu_priv_mode c1 = cpu_priv_mode c" "mem_node k (cpu_bus c1)"
  shows "hart_runs safe sh k (CPU_Tick0 env c)"
proof -
  have "cpu_inv safe sh (CPU_Tick0 env c)" using run by (simp add: hart_runs_def CPU_Tick0_def cpu_inv_Tick)
  then show ?thesis
    using run c1 by (simp add: hart_runs_def tick phys_def irq_bits_def minstret_frame)
qed

section \<open>One instruction\<close>

lemma of_list: "list_all P xs \<Longrightarrow> map_of xs t = Some y \<Longrightarrow> P (t, y)"
  by (auto dest: map_of_SomeD simp: list_all_iff)

lemma phys_frame: "phys c \<Longrightarrow> phys (c\<lparr>cpu_pc := p\<rparr>)"
  by simp

text \<open>The fields of a decoded instruction that the executor uses.\<close>

definition decoded :: "InstToken \<Rightarrow> u8 \<Rightarrow> u8 \<Rightarrow> u8 \<Rightarrow> u32 \<Rightarrow> u64 \<Rightarrow> DecodeInfo \<Rightarrow> bool" where
  "decoded t d s1 s2 i a info \<longleftrightarrow> token info = t \<and> op info = token_op t \<and> pc info = a \<and> inst_size info = 4 \<and>
     (token_op t \<in> {kReg, kRv32} \<longrightarrow> rd info = d \<and> rs1 info = s1 \<and> rs2 info = s2) \<and>
     (token_op t \<in> {kImm, kImm32, kJalr, kLoad} \<longrightarrow> rd info = d \<and> rs1 info = s1 \<and> imm info = i) \<and>
     (token_op t \<in> {kLui, kAuipc, kJal} \<longrightarrow> rd info = d \<and> imm info = i) \<and>
     (token_op t \<in> {kBranch, kStore} \<longrightarrow> rs1 info = s1 \<and> rs2 info = s2 \<and> imm info = i) \<and>
     (token_op t \<in> {kLoad, kStore} \<longrightarrow> mem_size info = token_size t)"

lemma isa_formats':
  "list_all (\<lambda>(t, f, b). (token_op t \<in> {kReg, kRv32} \<longrightarrow> f = FmtR) \<and>
     (token_op t \<in> {kImm, kImm32, kJalr, kLoad} \<longrightarrow> f \<in> {FmtI, FmtShamt6, FmtShamt5}) \<and>
     (token_op t \<in> {kLui, kAuipc, kJal} \<longrightarrow> f \<in> {FmtU, FmtJ}) \<and>
     (token_op t \<in> {kBranch, kStore} \<longrightarrow> f \<in> {FmtB, FmtS})) isa_table"
  by (simp add: isa_table_def token_op_def) (simp add: const_defs)

lemma decoded_ctor:
  assumes isa: "map_of isa_table t = Some (f, b)" and regs: "unat d < 32" "unat s1 < 32" "unat s2 < 32" and im: "imm_ok f i"
    and w: "encode t (ucast d) (ucast s1) (ucast s2) i = Some w"
  shows "decoded t d s1 s2 i a (DecodeInfo_ctor j m w a)" and "t \<noteq> I_UNKNOWN"
proof -
  note dec = decode_encode_fields [OF isa regs im w, of j m a]
  show known: "t \<noteq> I_UNKNOWN" using map_of_SomeD [OF isa] isa_table_tokens by (auto simp: list_all_iff)
  have tok: "GetToken w = t" using dec(1) by (simp add: DecodeInfo_ctor_def)
  have size: "mem_size (DecodeInfo_ctor j m w a) = token_size t" if "token_op t \<in> {kLoad, kStore}"
    using decoded_size [of w m] that known tok by (auto simp: DecodeInfo_ctor_def)
  have "pc (DecodeInfo_ctor j m w a) = a" "inst_size (DecodeInfo_ctor j m w a) = 4" by (simp_all add: DecodeInfo_ctor_def)
  with dec size of_list [OF isa_formats' isa] show "decoded t d s1 s2 i a (DecodeInfo_ctor j m w a)"
    unfolding decoded_def by auto
qed

text \<open>The executor performs an instruction whose effect on the state of the manual is \<open>s'\<close>; \<open>x0\<close> is cleared afterwards.\<close>

definition performs :: "env \<Rightarrow> DecodeInfo \<Rightarrow> nat \<Rightarrow> cpu \<Rightarrow> arch \<Rightarrow> bool" where
  "performs env info k c s' \<longleftrightarrow> (\<exists>c1. Exec env info (c\<lparr>cpu_pc := cpu_pc c + 4\<rparr>) = (kNoneTrap, c1) \<and> cpu_state c1 = cpu_state c \<and>
     cpu_priv_mode c1 = cpu_priv_mode c \<and> cpu_instret c1 = cpu_instret c \<and> mem_node k (cpu_bus c1) \<and>
     s' = (arch_of k c1)\<lparr>a_reg := (cpu_xregs c1)(0 := 0)\<rparr>)"

lemma performs_write:
  assumes "mem_node k (cpu_bus c)" and "Exec env info (c\<lparr>cpu_pc := cpu_pc c + 4\<rparr>) = (kNoneTrap, set_xreg d v (c\<lparr>cpu_pc := p\<rparr>))"
  shows "performs env info k c (write_reg d v ((arch_of k c)\<lparr>a_pc := p\<rparr>))"
  using assms by (simp add: performs_def write_reg_def arch_of_def)

lemma performs_pc:
  assumes "mem_node k (cpu_bus c)" and "xreg c 0 = 0" and "Exec env info (c\<lparr>cpu_pc := cpu_pc c + 4\<rparr>) = (kNoneTrap, c\<lparr>cpu_pc := p\<rparr>)"
  shows "performs env info k c ((arch_of k c)\<lparr>a_pc := p\<rparr>)"
  using assms by (simp add: performs_def arch_of_def fun_upd_idem)

lemma performs_store:
  assumes "xreg c 0 = 0" and "Exec env info (c\<lparr>cpu_pc := cpu_pc c + 4\<rparr>) = (kNoneTrap, set_bus b (c\<lparr>cpu_pc := cpu_pc c + 4\<rparr>))"
    and "mem_node k b" "node_base (bus_device b ! k) = node_base (bus_device (cpu_bus c) ! k)"
  shows "performs env info k c ((arch_of k c)\<lparr>a_pc := cpu_pc c + 4, a_mem := node_mem k b\<rparr>)"
  using assms by (simp add: performs_def arch_of_def fun_upd_idem)

lemma arch_sel [simp]:
  "a_pc (arch_of k c) = cpu_pc c" "a_reg (arch_of k c) = cpu_xregs c"
  "a_base (arch_of k c) = node_base (bus_device (cpu_bus c) ! k)" "a_mem (arch_of k c) = node_mem k (cpu_bus c)"
  by (simp_all add: arch_of_def)

lemma performs_alu:
  assumes m: "mem_node k (cpu_bus c)" and dec: "decoded t d s1 s2 i (cpu_pc c) info"
  defines "s \<equiv> (arch_of k c)\<lparr>a_pc := cpu_pc c + 4\<rparr>"
  shows "map_of isa_reg t = Some f \<Longrightarrow> performs env info k c (write_reg d (alu f (xreg c s1) (xreg c s2)) s)"
    and "map_of isa_reg32 t = Some f \<Longrightarrow> performs env info k c (write_reg d (scast (alu f (ucast (xreg c s1) :: u32) (ucast (xreg c s2)))) s)"
    and "map_of isa_imm t = Some f \<Longrightarrow> performs env info k c (write_reg d (alu f (xreg c s1) (scast i)) s)"
    and "map_of isa_imm32 t = Some f \<Longrightarrow> performs env info k c (write_reg d (scast (alu f (ucast (xreg c s1) :: u32) i)) s)"
proof -
  assume f: "map_of isa_reg t = Some f"
  have op: "token_op t = kReg" using of_list [OF isa_classes(1) f] by simp
  then have fields: "token info = t" "op info = kReg" "rd info = d" "rs1 info = s1" "rs2 info = s2" using dec by (simp_all add: decoded_def)
  have v: "reg_val t (xreg c s1) (xreg c s2) = Some (alu f (xreg c s1) (xreg c s2))" using of_list [OF reg_vals f] by simp
  show "performs env info k c (write_reg d (alu f (xreg c s1) (xreg c s2)) s)"
    unfolding s_def by (rule performs_write [OF m], unfold Exec_op(1) [OF fields(2)]) (simp add: RegTypeExec_def fields write_back_Some v)
next
  assume f: "map_of isa_reg32 t = Some f"
  have op: "token_op t = kRv32" using of_list [OF isa_classes(2) f] by simp
  then have fields: "token info = t" "op info = kRv32" "rd info = d" "rs1 info = s1" "rs2 info = s2" using dec by (simp_all add: decoded_def)
  have v: "rv32_val t (ucast (xreg c s1)) (ucast (xreg c s2)) = Some (scast (alu f (ucast (xreg c s1) :: u32) (ucast (xreg c s2))))" using of_list [OF rv32_vals f] by simp
  show "performs env info k c (write_reg d (scast (alu f (ucast (xreg c s1) :: u32) (ucast (xreg c s2)))) s)"
    unfolding s_def by (rule performs_write [OF m], unfold Exec_op(12) [OF fields(2)]) (simp add: Rv32TypeExec_def fields write_back_Some v)
next
  assume f: "map_of isa_imm t = Some f"
  have op: "token_op t = kImm" using of_list [OF isa_classes(3) f] by simp
  then have fields: "token info = t" "op info = kImm" "rd info = d" "rs1 info = s1" "imm info = i" using dec by (simp_all add: decoded_def)
  have v: "imm_val t (xreg c s1) i = Some (alu f (xreg c s1) (scast i))" using of_list [OF imm_vals f] by simp
  show "performs env info k c (write_reg d (alu f (xreg c s1) (scast i)) s)"
    unfolding s_def by (rule performs_write [OF m], unfold Exec_op(2) [OF fields(2)]) (simp add: ImmTypeExec_def fields write_back_Some v)
next
  assume f: "map_of isa_imm32 t = Some f"
  have op: "token_op t = kImm32" using of_list [OF isa_classes(4) f] by simp
  then have fields: "token info = t" "op info = kImm32" "rd info = d" "rs1 info = s1" "imm info = i" using dec by (simp_all add: decoded_def)
  have v: "imm32_val t (ucast (xreg c s1)) i = Some (scast (alu f (ucast (xreg c s1)) i))" using of_list [OF imm32_vals f] by simp
  show "performs env info k c (write_reg d (scast (alu f (ucast (xreg c s1) :: u32) i)) s)"
    unfolding s_def by (rule performs_write [OF m], unfold Exec_op(11) [OF fields(2)]) (simp add: Imm32TypeExec_def fields write_back_Some v)
qed

lemma misalign_ok: "target AND 3 = 0 \<Longrightarrow> check_misalign_instr env target res c = res"
  by (simp add: check_misalign_instr_def CheckPcAlign_def)

lemma jalr_target: "(x :: u64) AND 0xfffffffffffffffe = unset_bit 0 x"
proof -
  have "(0xfffffffffffffffe :: u64) = NOT 1" by simp
  then show ?thesis by (simp only: unset_bit_eq_and_not push_bit_0_id id_apply)
qed

lemma performs_jump:
  assumes m: "mem_node k (cpu_bus c)" and x0: "xreg c 0 = 0" and dec: "decoded t d s1 s2 i (cpu_pc c) info"
  shows "t = I_JAL \<Longrightarrow> jump (cpu_pc c + scast i) (arch_of k c) = Some s \<Longrightarrow> performs env info k c (write_reg d (cpu_pc c + 4) s)"
    and "t = I_JALR \<Longrightarrow> jump (unset_bit 0 (xreg c s1 + scast i)) (arch_of k c) = Some s \<Longrightarrow> performs env info k c (write_reg d (cpu_pc c + 4) s)"
    and "map_of isa_branch t = Some p \<Longrightarrow>
      (if p (xreg c s1) (xreg c s2) then jump (cpu_pc c + scast i) (arch_of k c) else jump (cpu_pc c + 4) (arch_of k c)) = Some s \<Longrightarrow>
      performs env info k c s"
proof -
  assume t: "t = I_JAL" and j: "jump (cpu_pc c + scast i) (arch_of k c) = Some s"
  then have fields: "op info = kJal" "rd info = d" "imm info = i" "pc info = cpu_pc c" "inst_size info = 4"
    using dec by (simp_all add: decoded_def token_op_def)
  from j have al: "(cpu_pc c + scast i) AND 3 = 0" and s: "s = (arch_of k c)\<lparr>a_pc := cpu_pc c + scast i\<rparr>"
    by (simp_all add: jump_def split: if_splits)
  show "performs env info k c (write_reg d (cpu_pc c + 4) s)"
    unfolding s by (rule performs_write [OF m], unfold Exec_op(9) [OF fields(1)]) (simp add: JalTypeExec_def fields misalign_ok [OF al])
next
  assume t: "t = I_JALR" and j: "jump (unset_bit 0 (xreg c s1 + scast i)) (arch_of k c) = Some s"
  then have fields: "op info = kJalr" "rd info = d" "rs1 info = s1" "imm info = i" "pc info = cpu_pc c" "inst_size info = 4"
    using dec by (simp_all add: decoded_def token_op_def)
  from j have al: "unset_bit 0 (xreg c s1 + scast i) AND 3 = 0" and s: "s = (arch_of k c)\<lparr>a_pc := unset_bit 0 (xreg c s1 + scast i)\<rparr>"
    by (simp_all add: jump_def split: if_splits)
  show "performs env info k c (write_reg d (cpu_pc c + 4) s)"
    unfolding s by (rule performs_write [OF m], unfold Exec_op(10) [OF fields(1)])
      (simp add: JalrTypeExec_def fields jalr_target add.commute [of "scast i"] misalign_ok [OF al])
next
  assume f: "map_of isa_branch t = Some p"
    and j: "(if p (xreg c s1) (xreg c s2) then jump (cpu_pc c + scast i) (arch_of k c) else jump (cpu_pc c + 4) (arch_of k c)) = Some s"
  have op: "token_op t = kBranch" using of_list [OF isa_classes(5) f] by simp
  then have fields: "token info = t" "op info = kBranch" "rs1 info = s1" "rs2 info = s2" "imm info = i" "pc info = cpu_pc c" "inst_size info = 4"
    using dec by (simp_all add: decoded_def)
  have v: "branch_taken t (xreg c s1) (xreg c s2) = Some (p (xreg c s1) (xreg c s2))" using of_list [OF branch_vals f] by simp
  let ?n = "if p (xreg c s1) (xreg c s2) then cpu_pc c + scast i else cpu_pc c + 4"
  from j have al: "?n AND 3 = 0" and s: "s = (arch_of k c)\<lparr>a_pc := ?n\<rparr>" by (simp_all add: jump_def split: if_splits)
  show "performs env info k c s"
    unfolding s by (rule performs_pc [OF m x0], unfold Exec_op(4) [OF fields(2)])
      (use al in \<open>auto simp: BranchTypeExec_def fields v Let_def misalign_ok split: if_splits\<close>)
qed

lemma isa_sizes: "list_all (\<lambda>(t, n, sx). 0 < n \<and> n \<le> 8) isa_load" "list_all (\<lambda>(t, n). 0 < n \<and> n \<le> 8) isa_store"
  by (simp_all add: isa_load_def isa_store_def)

lemma le_word_take_bit: "take_bit (8 * length bs) (le_word bs :: 'a::len word) = le_word bs"
  by (rule bit_eqI) (auto simp: bit_simps bit_le_word)

lemma ucast_of_nat: "unat (w :: u8) = n \<Longrightarrow> (ucast w :: u64) = of_nat n"
  by auto

lemma performs_load:
  assumes run: "hart_runs safe sh k c" and dec: "decoded t d s1 s2 i (cpu_pc c) info" and f: "map_of isa_load t = Some (n, sx)"
    and r: "read_mem (arch_of k c) (xreg c s1 + scast i) n = Some bs"
  shows "performs env info k c (write_reg d (extend n sx (le_word bs)) ((arch_of k c)\<lparr>a_pc := cpu_pc c + 4\<rparr>))"
proof -
  let ?a = "xreg c s1 + scast i" and ?c = "c\<lparr>cpu_pc := cpu_pc c + 4\<rparr>"
  have m: "mem_node k (cpu_bus c)" and ph: "phys c" using run by (simp_all add: hart_runs_def)
  have op: "token_op t = kLoad" using of_list [OF isa_classes(6) f] by simp
  have n: "0 < n" "n \<le> 8" using of_list [OF isa_sizes(1) f] by simp_all
  have size: "unat (token_size t) = n" using of_list [OF load_vals f] by simp
  have fields: "token info = t" "op info = kLoad" "rd info = d" "rs1 info = s1" "imm info = i" "ucast (mem_size info) = (of_nat n :: u64)"
    using dec op ucast_of_nat [OF size] by (simp_all add: decoded_def)
  from r have fits: "unat (?a - node_base (bus_device (cpu_bus c) ! k)) + n \<le> length (node_mem k (cpu_bus c))"
    and bs: "bs = take n (drop (unat (?a - node_base (bus_device (cpu_bus c) ! k))) (node_mem k (cpu_bus c)))"
    by (simp_all add: read_mem_def Let_def split: if_splits)
  have "CPU_Load ?c ?a (of_nat n) = (kNoneTrap, bs, ?c)"
    using CPU_Load_phys [of ?c ?a "of_nat n" bs "cpu_bus c"] Bus_Load_mem [OF m n fits] ph bs by simp
  moreover have "length bs = n" using fits bs by simp
  then have "take_bit (8 * n) (le_word bs) = (le_word bs :: u64)" using le_word_take_bit [of bs] by simp
  then have "load_val t (le_word bs) = Some (extend n sx (le_word bs))" using of_list [OF load_vals f, of "le_word bs"] by simp
  ultimately show ?thesis
    by (intro performs_write [OF m], unfold Exec_op(6) [OF fields(2)]) (simp add: LoadTypeExec_def fields write_back_Some)
qed

lemma performs_stored:
  assumes run: "hart_runs safe sh k c" and dec: "decoded t d s1 s2 i (cpu_pc c) info" and f: "map_of isa_store t = Some n"
    and w: "write_mem ((arch_of k c)\<lparr>a_pc := cpu_pc c + 4\<rparr>) (xreg c s1 + scast i) (le_bytes n (xreg c s2)) = Some s"
  shows "performs env info k c s"
proof -
  let ?a = "xreg c s1 + scast i" and ?c = "c\<lparr>cpu_pc := cpu_pc c + 4\<rparr>"
  have m: "mem_node k (cpu_bus c)" and ph: "phys c" and x0: "xreg c 0 = 0" using run by (simp_all add: hart_runs_def)
  have op: "token_op t = kStore" using of_list [OF isa_classes(7) f] by simp
  have n: "0 < n" "n \<le> 8" using of_list [OF isa_sizes(2) f] by simp_all
  have size: "unat (token_size t) = n" using of_list [OF store_sizes f] by simp
  have fields: "op info = kStore" "rs1 info = s1" "rs2 info = s2" "imm info = i" "ucast (mem_size info) = (of_nat n :: u64)"
    using dec op ucast_of_nat [OF size] by (simp_all add: decoded_def)
  let ?k = "unat (?a - node_base (bus_device (cpu_bus c) ! k))" and ?m = "node_mem k (cpu_bus c)"
  from w have fits: "?k + n \<le> length ?m"
    and s: "s = (arch_of k c)\<lparr>a_pc := cpu_pc c + 4, a_mem := take ?k ?m @ le_bytes n (xreg c s2) @ drop (?k + n) ?m\<rparr>"
    by (simp_all add: write_mem_def Let_def split: if_splits)
  from Bus_Store_mem [OF m n fits, of "le_bytes 8 (xreg c s2)"] n obtain b where
    b: "Bus_Store (cpu_bus c) ?a (of_nat n) (le_bytes 8 (xreg c s2)) = Done b" "mem_node k b"
      "node_base (bus_device b ! k) = node_base (bus_device (cpu_bus c) ! k)"
      "node_mem k b = take ?k ?m @ le_bytes n (xreg c s2) @ drop (?k + n) ?m" by (auto simp: Let_def take_le_bytes)
  have "CPU_Store ?c ?a (of_nat n) (le_bytes 8 (xreg c s2)) = (kNoneTrap, set_bus b ?c)"
    using ph b(1) by (simp add: CPU_Store_def Mmu_Store_def phys_def Let_def phys_store_def Sv39_Store_def)
  then have "Exec env info ?c = (kNoneTrap, set_bus b ?c)"
    unfolding Exec_op(5) [OF fields(1)] by (simp add: StoreTypeExec_def fields)
  from performs_store [OF x0 this b(2,3)] show ?thesis unfolding s b(4) .
qed

lemma performs_isa:
  assumes run: "hart_runs safe sh k c" and dec: "decoded t d s1 s2 i (cpu_pc c) info" and ex: "isa_exec t d s1 s2 i (arch_of k c) = Some s"
  shows "performs env info k c s"
proof -
  have m: "mem_node k (cpu_bus c)" and x0: "xreg c 0 = 0" using run by (simp_all add: hart_runs_def)
  have upper: "performs env info k c (write_reg d (scast i) ((arch_of k c)\<lparr>a_pc := cpu_pc c + 4\<rparr>))" if "t = I_LUI"
  proof -
    have fields: "op info = kLui" "rd info = d" "imm info = i" using dec that by (simp_all add: decoded_def token_op_def)
    show ?thesis by (rule performs_write [OF m], unfold Exec_op(3) [OF fields(1)]) (simp add: LuiTypeExec_def fields)
  qed
  have auipc: "performs env info k c (write_reg d (cpu_pc c + scast i) ((arch_of k c)\<lparr>a_pc := cpu_pc c + 4\<rparr>))" if "t = I_AUIPC"
  proof -
    have fields: "op info = kAuipc" "rd info = d" "imm info = i" "pc info = cpu_pc c" using dec that by (simp_all add: decoded_def token_op_def)
    show ?thesis by (rule performs_write [OF m], unfold Exec_op(8) [OF fields(1)]) (simp add: AuipcTypeExec_def fields)
  qed
  note rules = upper auipc performs_jump [OF m x0 dec] performs_alu [OF m dec] performs_load [OF run dec] performs_stored [OF run dec]
  from ex show ?thesis
    unfolding isa_exec_def Let_def arch_sel
    by (auto split: if_splits option.splits simp: map_option_eq_Some intro: rules)
qed

section \<open>Simulation\<close>

lemma isa_step_sim:
  assumes run: "hart_runs safe sh k c" and step: "isa_step (arch_of k c) s'"
  shows "hart_runs safe sh k (CPU_Tick0 env c)" and "arch_of k (CPU_Tick0 env c) = s'"
    and "cpu_instret (CPU_Tick0 env c) = cpu_instret c + 1" and "cpu_priv_mode (CPU_Tick0 env c) = cpu_priv_mode c"
proof -
  from step obtain w t d s1 s2 i f b where mem: "read_mem (arch_of k c) (cpu_pc c) 4 = Some (le_bytes 4 w)"
    and isa: "encode t (ucast d) (ucast s1) (ucast s2) i = Some w" "map_of isa_table t = Some (f, b)" "imm_ok f i"
      "unat d < 32" "unat s1 < 32" "unat s2 < 32" and ex: "isa_exec t d s1 s2 i (arch_of k c) = Some s'"
    by (elim isa_stepE) auto
  have m: "mem_node k (cpu_bus c)" and fetch_phys: "cpu_priv_mode c = kMachine \<or> satp_get ''mode'' (State_Read (cpu_state c) kCsrSatp) = 0"
    using run by (auto simp: hart_runs_def)
  have "Bus_Load (cpu_bus c) (cpu_pc c) 4 = Done (le_bytes 4 w, cpu_bus c)"
    using mem Bus_Load_mem [OF m, of 4 "cpu_pc c"] by (simp add: read_mem_def Let_def split: if_splits)
  from CPU_Fetch_phys [OF fetch_phys this] have fetch: "CPU_Fetch c (cpu_pc c) 4 = (kNoneTrap, le_bytes 4 w, c)" by simp
  have lw: "le_word (le_bytes 4 w) = w" by (simp add: le_word_le_bytes take_bit_word_eq_self)
  let ?info = "DecodeInfo_ctor (env_imm env) (env_mem_size env) (le_word (le_bytes 4 w)) (cpu_pc c)"
  note dec = decoded_ctor(1) [OF isa(2,4-6,3,1), of "cpu_pc c" "env_imm env" "env_mem_size env"] decoded_ctor(2) [OF isa(2,4-6,3,1)]
  from performs_isa [OF run dec(1) ex, of env] obtain c1 where
    c1: "Exec env ?info (c\<lparr>cpu_pc := cpu_pc c + 4\<rparr>) = (kNoneTrap, c1)" "cpu_state c1 = cpu_state c" "cpu_priv_mode c1 = cpu_priv_mode c"
      "cpu_instret c1 = cpu_instret c" "mem_node k (cpu_bus c1)" "s' = (arch_of k c1)\<lparr>a_reg := (cpu_xregs c1)(0 := 0)\<rparr>"
    unfolding performs_def lw by blast
  have "token ?info \<noteq> I_UNKNOWN" using dec unfolding lw decoded_def by simp
  note tick = Tick_exec [OF run fetch c1(1) this c1(2)]
  show "hart_runs safe sh k (CPU_Tick0 env c)" by (rule Tick_runs [OF run tick c1(2,3,5)])
  show "arch_of k (CPU_Tick0 env c) = s'" "cpu_instret (CPU_Tick0 env c) = cpu_instret c + 1"
    "cpu_priv_mode (CPU_Tick0 env c) = cpu_priv_mode c" unfolding tick c1(6) by (simp_all add: arch_of_def c1(3,4))
qed


text \<open>A loop in memory: \<open>ADDI x1, x1, 1\<close> and a jump back to it.\<close>

definition loop_code :: "u8 list" where
  "loop_code = [0x93, 0x80, 0x10, 0x00, 0x6f, 0xf0, 0xdf, 0xff]"

definition example_loop :: cpu where
  "example_loop = set_bus \<lparr>bus_device = [\<lparr>node_base = 0x80000000, node_size = 8,
     node_dev = DevDram \<lparr>dram_size = 8, dram_memory = loop_code\<rparr>\<rparr>]\<rparr> (example_cpu kMachine 7)"

lemma loop_steps:
  assumes s: "a_mem s = loop_code" "a_base s = 0x80000000"
  shows "a_pc s = 0x80000000 \<Longrightarrow> isa_step s (write_reg 1 (a_reg s 1 + 1) (s\<lparr>a_pc := 0x80000004\<rparr>))"
    and "a_pc s = 0x80000004 \<Longrightarrow> isa_step s (write_reg 0 0x80000008 (s\<lparr>a_pc := 0x80000000\<rparr>))"
proof -
  have code: "le_bytes 4 (0x00108093 :: u32) = [0x93, 0x80, 0x10, 0x00]" "le_bytes 4 (0xffdff06f :: u32) = [0x6f, 0xf0, 0xdf, 0xff]"
    by code_simp+
  have isa: "map_of isa_table I_ADDI = Some (FmtI, fixed 0x13 0 0)" "map_of isa_table I_JAL = Some (FmtJ, fixed 0x6f 0 0)"
    by (simp_all add: isa_table_def)
  have i: "imm_ok FmtI 1" "imm_ok FmtJ (- 4)" by code_simp+
  have w: "encode I_ADDI (ucast (1 :: u8)) (ucast (1 :: u8)) (ucast (0 :: u8)) 1 = Some 0x00108093"
    "encode I_JAL (ucast (0 :: u8)) (ucast (0 :: u8)) (ucast (0 :: u8)) (- 4) = Some 0xffdff06f"
    unfolding encode_def isa by code_simp+
  have sx: "scast (1 :: u32) = (1 :: u64)" "scast (- 4 :: u32) = (- 4 :: u64)" by code_simp+
  show "isa_step s (write_reg 1 (a_reg s 1 + 1) (s\<lparr>a_pc := 0x80000004\<rparr>))" if pc: "a_pc s = 0x80000000"
    by (rule isa_stepI [OF _ w(1) isa(1) i(1)])
      (simp_all add: read_mem_def s pc code loop_code_def isa_exec_def sx isa_reg_def isa_reg32_def isa_imm_def alu_simps)
  show "isa_step s (write_reg 0 0x80000008 (s\<lparr>a_pc := 0x80000000\<rparr>))" if pc: "a_pc s = 0x80000004"
    by (rule isa_stepI [OF _ w(2) isa(2) i(2)])
      (simp_all add: read_mem_def s pc code loop_code_def isa_exec_def sx jump_def)
qed

lemma example_loop_runs: "hart_runs False (shape_of (cpu_bus example_loop)) 0 example_loop"
proof -
  have s: "cpu_state example_loop = State_init" "cpu_priv_mode example_loop = kMachine" "xreg example_loop 0 = 0"
    by (simp_all add: example_loop_def example_cpu_def)
  have inv: "cpu_inv False (shape_of (cpu_bus example_loop)) example_loop"
    using example_inv by (simp add: cpu_inv_def s csr_wf_init sv39_inv_def example_loop_def example_cpu_def bus_wf_def
        node_wf_def dram_wf_def loop_code_def)
  have "\<not> GetWfi (cpu_state example_loop)" by (simp add: s GetWfi_def State_init_def Let_def)
  moreover have "irq_bits example_loop = 0"
    by (simp add: irq_bits_def s State_Read_plain State_init_def Let_def) (simp add: const_defs)
  moreover have "phys example_loop" using example_m_phys by (simp add: phys_def s example_cpu_def)
  moreover have "mem_node 0 (cpu_bus example_loop)"
  proof -
    have "node_holds \<lparr>node_base = 0x80000000, node_size = 8, node_dev = dv\<rparr> a" if "unat (a - 0x80000000) < 8" for a dv
    proof -
      define x where "x = a - 0x80000000"
      have a: "a = 0x80000000 + x" and x: "unat x < 8" using that by (simp_all add: x_def)
      have "unat a = 0x80000000 + unat x" unfolding a using unat_add_no_wrap [of "0x80000000" x] x by simp
      then show ?thesis using x by (simp add: node_holds_def word_le_nat_alt word_less_nat_alt)
    qed
    then show ?thesis by (simp add: mem_node_def example_loop_def loop_code_def dram_wf_def GetDeviceByRange_def)
  qed
  ultimately show ?thesis using inv s by (simp add: hart_runs_def)
qed


end
