(* ===== verification/Spec2Isabelle.thy ===== *)
theory Spec2Isabelle
  imports Rv_Prelude Mmio Dram Clint Uart Plic Bus Arith Csr Trap Decode Decode_Lemmas Encode Mmu
    Executor Cpu Alu Mmu_Lemmas Exec_Lemmas Exec_Props Exec_Memory Cpu_Lemmas Cpu_Traps Cpu_Props Cpu_Run Lru Loader Machine Machine_Props Jit Jit_Host Jit_Select Jit_Props Jit_Frame Jit_Mem Jit_Block Analyzer
    Fp Host_Clock Mmu_Stats Isa Isa_Sim
begin

text \<open>
  A model of the RV64 emulator in this repository, with the properties that make its parts correct.
  File names below are relative to the source tree.

  \<^bold>\<open>The program.\<close> A hart (\<^verbatim>\<open>CPU\<close>) fetches, decodes and executes one instruction per cycle. Its accesses go through
  the memory unit (\<^verbatim>\<open>Mmu\<close>, \<^verbatim>\<open>Sv39\<close>: page tables and a TLB of two entries) to the bus, which routes a physical
  address to the DRAM, the CLINT (timer and software interrupts), the PLIC (external interrupts) or the
  UART. Control registers, traps and interrupts are in \<^verbatim>\<open>State\<close> and \<^verbatim>\<open>CPU\<close>. \<^verbatim>\<open>main\<close> builds the machine, loads an
  image and loops: it samples the clock and the UART's line, asks the PLIC, runs a cycle and prints what
  the guest transmitted, while an input thread and a signal handler put characters into the UART. Beside it
  are a translator of instructions to AArch64 code, a least-recently-used cache, an ELF loader and a tool that
  prints an instruction histogram.

  \<^bold>\<open>Conventions.\<close> Integers are words of their C++ width and wrap. A bit field structure is a layout (a list of names
  and widths), read and written by position. An operation that fails returns \<open>Fail\<close> where the code returns false; an
  access outside an object, and every other undefined behaviour, is \<open>Stray\<close>, and \<open>sv39_ub\<close> remembers
  that one happened. Traps are values (\<open>Trap\<close>). Members that a constructor leaves unset, the guest's time and the
  \<^verbatim>\<open>UNIT_TEST\<close> switch are fields of \<open>env\<close>. The interpreter is modelled as compiled for x86-64, where a shift takes its
  amount modulo the width. Floating-point values, which are never negative here, are rationals rounded to the nearest
  representable one, infinity, or not a number. Loops are structural or have a termination proof; there is no fuel anywhere, so every
  operation of the model returns.

  \<^bold>\<open>Theories.\<close>
  \<^item> \<open>Rv_Prelude\<close>: words, bit fields, little-endian bytes, the result type, and the collections
    \<open>const_defs\<close> and \<open>field_defs\<close> that the other theories use.
  \<^item> \<open>Fp\<close>: binary floating point as C++ has it on the supported hosts: rounding to nearest, ties to even, in single and
    double precision, the operations the program uses, and monotonicity, exactness and error of rounding.
  \<^item> \<open>Mmio\<close>: the interface of a device as a locale (an access keeps the device well formed and strays only outside its
    permitted size), interpreted by \<open>Dram\<close>, \<open>Clint\<close>, \<open>Uart\<close> and \<open>Plic\<close> (\<^verbatim>\<open>src/device/*.cc\<close>). These show memory as
    memory, the timer, the two character queues, the choice of the interrupt and the claim handshake.
  \<^item> \<open>Host_Clock\<close> (\<^verbatim>\<open>src/libs/utils.cc\<close>, \<^verbatim>\<open>include/libs/utils.h\<close>): the counter of the host, the guest's time computed from it, the
    speed report and the bounded random numbers. The guest's time is defined, never goes backwards and is accurate; a
    programmed timer fires.
  \<^item> \<open>Bus\<close> (\<^verbatim>\<open>src/device/bus.cc\<close>): mounting and routing. Permitted accesses never stray; a store reaches the first device
    that holds the address; no access changes which device is where (\<open>shape_of\<close>).
  \<^item> \<open>Arith\<close>, \<open>Alu\<close> (\<^verbatim>\<open>src/libs/arithmetic.cc\<close>, the integer part of \<^verbatim>\<open>src/cpu/executor.cc\<close>): the portable 128-bit product,
    the high products, division, the 32-bit forms.
  \<^item> \<open>Csr\<close>, \<open>Trap\<close> (\<^verbatim>\<open>src/cpu/csr.cc\<close>, \<^verbatim>\<open>src/cpu/trap.cc\<close>): the register file with its shared and masked registers, an invariant, what
    a read returns after a write; causes, vectors and the ranking of interrupts.
  \<^item> \<open>Decode\<close>, \<open>Decode_Lemmas\<close>, \<open>Encode\<close> (\<^verbatim>\<open>include/cpu/decode.h\<close>, \<^verbatim>\<open>src/cpu/decode.cc\<close>): the table, the constructor of \<^verbatim>\<open>DecodeInfo\<close>. Which row a
    word gets; the encoder of the manual and the round trip over its 98 instructions; bounds on registers
    and immediates.
  \<^item> \<open>Mmu\<close>, \<open>Mmu_Lemmas\<close> (\<^verbatim>\<open>src/cpu/mmu.cc\<close>): TLB, walk and checks. The TLB is invisible: a translation is the one of a walk of
    the specification (\<open>spec_walk\<close>), for page tables in DRAM that are not written in between.
    \<open>Mmu_Stats\<close>: what the statistics count and the rate they print; the checks of data accesses that are commented out.
  \<^item> \<open>Executor\<close>, \<open>Exec_Lemmas\<close>, \<open>Exec_Props\<close>, \<open>Exec_Memory\<close> (\<^verbatim>\<open>src/cpu/executor.cc\<close>): every instruction class with its traps; the invariant
    \<open>cpu_inv\<close>; loads after stores, atomics, reservations, privilege.
  \<^item> \<open>Cpu\<close>, \<open>Cpu_Lemmas\<close>, \<open>Cpu_Traps\<close>, \<open>Cpu_Props\<close>, \<open>Cpu_Run\<close> (\<^verbatim>\<open>src/cpu/cpu.cc\<close>): the cycle, trap entry and interrupts. Trap and return restore the state,
    an interrupt is taken only if it is allowed and an allowed machine interrupt is taken, every reachable state is well formed (the step relation
    \<open>cpu_step\<close>), a cycle at an instruction in memory has the effect of that instruction.
  \<^item> \<open>Isa\<close>, \<open>Isa_Sim\<close>: the integer instruction set (RV64IM without MULHSU) as a specification of its own, with integer arithmetic for the results
    and a step relation \<open>isa_step\<close> on registers, program counter and memory; every run of it, from a hart that uses physical
    addresses and has no enabled interrupt pending (\<open>hart_runs\<close>), is the run of the same number of cycles of the emulator.
  \<^item> \<open>Lru\<close> (\<^verbatim>\<open>include/libs/lru.hpp\<close>): the list with node identities and the index of iterators, refined to a list in order of use.
  \<^item> \<open>Loader\<close> (\<^verbatim>\<open>src/libs/utils.cc\<close>): the loadable segments are in memory afterwards and nothing else changed.
  \<^item> \<open>Machine\<close>, \<open>Machine_Props\<close> (\<^verbatim>\<open>src/rv64_emulator.cc\<close>): construction, the main loop as a function and as interleaved steps with the input
    thread and the signal handler (\<open>mach_step\<close>; a processor cycle and each statement of the loop is one step). No interleaving makes
    a statement fail; an iteration ends; a typed key takes a waiting hart to its handler; what the console shows.
  \<^item> \<open>Jit\<close> (\<^verbatim>\<open>src/jit/jit.cc\<close>): each emission as the list of assembler calls it makes. \<open>Jit_Host\<close>: what those calls do on the host is the locale
    \<open>a64_host\<close>, as the assembler and the processor are not part of this repository; \<open>ref_run\<close> satisfies its laws.
    \<open>Jit_Select\<close>, \<open>Jit_Props\<close>, \<open>Jit_Frame\<close>, \<open>Jit_Mem\<close>: every translated instruction simulates the interpreter under \<open>jit_rel\<close>; prologue and
    epilogue; calls of the memory unit. \<open>Jit_Block\<close>: the theorem on blocks, and operands for which the translation is wrong.
  \<^item> \<open>Analyzer\<close> (\<^verbatim>\<open>tools/rv_analyzer/rv_analyzer.cc\<close>): the histogram tool; sorting is the locale \<open>std_sort\<close>.

  \<^bold>\<open>Bounds.\<close> The walk visits three levels; the TLB has two entries; the table has 98 reachable rows. Translated code uses a
  frame of 256 bytes and at most 48 bytes below it (\<open>jit_layout\<close>, \<open>call_layout\<close>). The histogram's counters are exact
  below 2 to the 32 instructions. The guest's clock is accurate for host frequencies above 10 MHz and up to 2 to the 53 Hz.

  \<^bold>\<open>Not modelled.\<close> The counters that the host's instructions return, the number that the random engine draws and the text
  that the formatting library makes of a number are arguments. The terminal settings of the input thread and the mutexes are not
  there: an operation under a lock is atomic. The ELF reader, the file system, the assembler and the standard library are third-party;
  records and locales state what the code relies on. A faulting translated load or store branches to a label that
  was never created, so only accesses that succeed are covered by the theorem on blocks. The unit tests are
  not part of the program.
\<close>

end
